(* ===== verification/Prelude.thy ===== *)
theory Prelude
  imports Main "HOL-Library.Word" "HOL-Library.Monad_Syntax"
begin

text \<open>
  Shared ground of the development: the machine integers of the SDK, the way its
  exceptions and log lines are written as values, \<open>std::to_string\<close>, the time types of
  \<open>std::chrono\<close>, and the generic lemmas on words and lists that the component theories
  use. Collections: \<open>field_simps_w\<close> (masking laws), \<open>image_simps\<close> (process image),
  \<open>env_simps\<close> (environment steps).
\<close>

unbundle bit_operations_syntax

section \<open>Machine integers and time\<close>

type_synonym u8 = "8 word"
type_synonym u16 = "16 word"
type_synonym u32 = "32 word"
type_synonym u64 = "64 word"

text \<open>
  \<open>steady_clock::time_point\<close> and \<open>std::chrono\<close> durations count nanoseconds in a signed
  64-bit integer. They are unbounded integers here; where the code relies on the width,
  \<open>fits_i64\<close> states it.
\<close>

type_synonym time = int
type_synonym millis = int

definition fits_i64 :: "int \<Rightarrow> bool" where
  "fits_i64 n \<longleftrightarrow> - (2 ^ 63) \<le> n \<and> n < 2 ^ 63"

definition ns_of_ms :: "millis \<Rightarrow> time" where
  "ns_of_ms m = m * 1000000"

text \<open>\<open>std::chrono::ceil<milliseconds>\<close> of a nanosecond count.\<close>

definition ceil_ms :: "time \<Rightarrow> millis" where
  "ceil_ms t = - ((- t) div 1000000)"

text \<open>Integer division of C++ truncates towards zero.\<close>

definition trunc_div :: "int \<Rightarrow> int \<Rightarrow> int" where
  "trunc_div a b = sgn a * sgn b * (\<bar>a\<bar> div \<bar>b\<bar>)"

section \<open>Exceptions and logging\<close>

datatype exc =
    DriverException string
  | SerialIOException string
  | UnknownException

text \<open>\<open>what()\<close> of the exception classes.\<close>

fun exc_what :: "exc \<Rightarrow> string" where
  "exc_what (DriverException d) = ''DriverException: '' @ d @ ''.''"
| "exc_what (SerialIOException d) = ''SerialIOException: '' @ d"
| "exc_what UnknownException = []"

datatype Level = Debug | Info | Warn | Error

type_synonym log_line = "Level \<times> string"

text \<open>The UTF-8 bytes of the dash in the driver's messages.\<close>

definition em_dash :: string where
  "em_dash = [CHR 0xE2, CHR 0x80, CHR 0x94]"

text \<open>A name between single quotes.\<close>

definition quoted :: "string \<Rightarrow> string" where
  "quoted s = [CHR 0x27] @ s @ [CHR 0x27]"

section \<open>Decimal rendering\<close>

text \<open>\<open>std::to_string\<close> of an unsigned integer.\<close>

definition digit_char :: "nat \<Rightarrow> char" where
  "digit_char d = ''0123456789'' ! d"

function to_string :: "nat \<Rightarrow> string" where
  "to_string n = (if n < 10 then [digit_char n] else to_string (n div 10) @ [digit_char (n mod 10)])"
  by pat_completeness auto
termination
  by (relation "measure id") auto

declare to_string.simps [simp del]

lemma to_string_digit: "n < 10 \<Longrightarrow> to_string n = [digit_char n]"
  by (subst to_string.simps) simp

definition digit_value :: "char \<Rightarrow> nat" where
  "digit_value c = of_char c - 48"

definition parse_decimal :: "string \<Rightarrow> nat" where
  "parse_decimal s = foldl (\<lambda>n c. 10 * n + digit_value c) 0 s"

section \<open>Collections\<close>

named_theorems field_simps_w "reading a field back after a masked write"
named_theorems image_simps "operations of the process image"
named_theorems env_simps "steps of the environment"

section \<open>Words\<close>

lemma mask_merge_and [field_simps_w]:
  fixes b m v :: "'a::len word"
  shows "(b AND NOT m OR v AND m) AND m = v AND m"
  by (rule bit_word_eqI) (auto simp: bit_simps)

lemma mask_merge_other [field_simps_w]:
  fixes b m v k :: "'a::len word"
  assumes "m AND k = 0"
  shows "(b AND NOT m OR v AND m) AND k = b AND k"
proof (rule bit_word_eqI)
  fix n
  assume n: "n < LENGTH('a)"
  have "\<not> (bit m n \<and> bit k n)"
    using assms n by (metis bit_and_iff bit_0_eq bot_apply bot_bool_def)
  then show "bit ((b AND NOT m OR v AND m) AND k) n = bit (b AND k) n"
    using n by (auto simp: bit_simps)
qed

lemma flag_set_and [field_simps_w]:
  fixes b m :: "'a::len word"
  shows "(b OR m) AND m = m"
  by (rule bit_word_eqI) (auto simp: bit_simps)

lemma flag_clear_and [field_simps_w]:
  fixes b m :: "'a::len word"
  shows "(b AND NOT m) AND m = 0"
  by (rule bit_word_eqI) (auto simp: bit_simps)

lemma flag_set_other [field_simps_w]:
  fixes b m k :: "'a::len word"
  assumes "m AND k = 0"
  shows "(b OR m) AND k = b AND k"
  using assms by (simp add: bit.conj_disj_distrib2)

lemma flag_clear_other [field_simps_w]:
  fixes b m k :: "'a::len word"
  assumes "m AND k = 0"
  shows "(b AND NOT m) AND k = b AND k"
  using mask_merge_other [OF assms, of b 0] by simp

text \<open>Two bytes into a 16-bit register, high byte first, and back.\<close>

definition pack16 :: "u8 \<Rightarrow> u8 \<Rightarrow> u16" where
  "pack16 hi lo = push_bit 8 (ucast hi) OR ucast lo"

definition high8 :: "u16 \<Rightarrow> u8" where
  "high8 r = ucast (drop_bit 8 r)"

definition low8 :: "u16 \<Rightarrow> u8" where
  "low8 r = ucast (r AND 0xFF)"

lemma ff_mask: "(0xFF :: u16) = mask 8"
  by (simp add: mask_eq_exp_minus_1)

lemma high8_pack16 [simp]: "high8 (pack16 h l) = h"
  unfolding high8_def pack16_def
  by (rule bit_word_eqI) (auto simp: bit_simps dest: bit_imp_le_length)

lemma low8_pack16 [simp]: "low8 (pack16 h l) = l"
  unfolding low8_def pack16_def ff_mask
  by (rule bit_word_eqI) (auto simp: bit_simps)

lemma pack16_high8_low8 [simp]: "pack16 (high8 r) (low8 r) = r"
  unfolding high8_def low8_def pack16_def ff_mask
  by (rule bit_word_eqI) (auto simp: bit_simps)

section \<open>Lists\<close>

text \<open>\<open>std::copy_n\<close> of a whole block into an array of registers.\<close>

definition copy_into :: "(nat \<Rightarrow> 'a) \<Rightarrow> nat \<Rightarrow> 'a list \<Rightarrow> (nat \<Rightarrow> 'a)" where
  "copy_into f at vs = (\<lambda>i. if at \<le> i \<and> i < at + length vs then vs ! (i - at) else f i)"

definition slice :: "(nat \<Rightarrow> 'a) \<Rightarrow> nat \<Rightarrow> nat \<Rightarrow> 'a list" where
  "slice f at n = map (\<lambda>i. f (at + i)) [0..<n]"

lemma length_slice [simp]: "length (slice f at n) = n"
  by (simp add: slice_def)

lemma slice_nth [simp]: "i < n \<Longrightarrow> slice f at n ! i = f (at + i)"
  by (simp add: slice_def)

lemma slice_copy_into_same: "length vs = n \<Longrightarrow> slice (copy_into f at vs) at n = vs"
  by (rule nth_equalityI) (auto simp: copy_into_def)

lemma slice_copy_into_disjoint:
  "at' + n \<le> at \<or> at + length vs \<le> at' \<Longrightarrow> slice (copy_into f at vs) at' n = slice f at' n"
  by (rule nth_equalityI) (auto simp: copy_into_def)

section \<open>Decimal rendering is faithful\<close>

lemma digit_value_char: "d < 10 \<Longrightarrow> digit_value (digit_char d) = d"
proof -
  assume "d < 10"
  then have "d \<in> {0,1,2,3,4,5,6,7,8,9}" by auto
  then show ?thesis by (auto simp: digit_char_def digit_value_def)
qed

lemma parse_decimal_to_string: "parse_decimal (to_string n) = n"
proof (induction n rule: to_string.induct)
  case (1 n)
  show ?case
  proof (cases "n < 10")
    case True
    then show ?thesis
      by (subst to_string.simps) (simp add: parse_decimal_def digit_value_char)
  next
    case False
    with 1 have "parse_decimal (to_string (n div 10)) = n div 10" by simp
    with False show ?thesis
      by (subst to_string.simps)
         (simp add: parse_decimal_def digit_value_char)
  qed
qed

lemma to_string_inject [simp]: "to_string m = to_string n \<longleftrightarrow> m = n"
  by (metis parse_decimal_to_string)

lemma ceil_ms_bounds: "t \<le> ns_of_ms (ceil_ms t)" "ns_of_ms (ceil_ms t) < t + 1000000"
  by (auto simp: ns_of_ms_def ceil_ms_def)

end
