(* ===== verification/RegisterMap.thy ===== *)
theory RegisterMap
  imports Prelude
begin

text \<open>
  The constants of \<open>Robotiq/detail/register_map.hpp\<close> (byte and bit layout of the two
  blocks) and of \<open>Robotiq/detail/modbus_constants.hpp\<close> (where the blocks live on the
  wire), under their source names. \<open>rm_defs\<close> and \<open>mc_defs\<close> unfold them.
\<close>

section \<open>Block layout\<close>

definition kCommandBlockBytes :: nat where "kCommandBlockBytes = 16"
definition kStatusBlockBytes :: nat where "kStatusBlockBytes = 16"
definition kCommandDocumentedBytes :: nat where "kCommandDocumentedBytes = 6"
definition kStatusDocumentedBytes :: nat where "kStatusDocumentedBytes = 6"

section \<open>GRIPPER STATUS and FAULT STATUS bytes\<close>

definition kActivationStatusMask :: u8 where "kActivationStatusMask = 0x01"
definition kGoToEchoMask :: u8 where "kGoToEchoMask = 0x08"
definition kActivationStateMask :: u8 where "kActivationStateMask = 0x30"
definition kObjectDetectionMask :: u8 where "kObjectDetectionMask = 0xC0"
definition kActivationStateShift :: nat where "kActivationStateShift = 4"
definition kObjectDetectionShift :: nat where "kObjectDetectionShift = 6"

definition kActivationStateReset :: u8 where "kActivationStateReset = 0x00"
definition kActivationStateInProgress :: u8 where "kActivationStateInProgress = 0x01"
definition kActivationStateReserved :: u8 where "kActivationStateReserved = 0x02"
definition kActivationStateComplete :: u8 where "kActivationStateComplete = 0x03"

definition kObjectMoving :: u8 where "kObjectMoving = 0x00"
definition kObjectDetectedOpening :: u8 where "kObjectDetectedOpening = 0x01"
definition kObjectDetectedClosing :: u8 where "kObjectDetectedClosing = 0x02"
definition kObjectAtRequestedPosition :: u8 where "kObjectAtRequestedPosition = 0x03"

definition kGripperFaultMask :: u8 where "kGripperFaultMask = 0x0F"
definition kControllerFaultMask :: u8 where "kControllerFaultMask = 0xF0"
definition kControllerFaultShift :: nat where "kControllerFaultShift = 4"

lemmas rm_sizes =
  kCommandBlockBytes_def kStatusBlockBytes_def kCommandDocumentedBytes_def kStatusDocumentedBytes_def

lemmas rm_defs =
  kActivationStatusMask_def kGoToEchoMask_def kActivationStateMask_def kObjectDetectionMask_def
  kActivationStateShift_def kObjectDetectionShift_def
  kActivationStateReset_def kActivationStateInProgress_def kActivationStateReserved_def
  kActivationStateComplete_def kObjectMoving_def kObjectDetectedOpening_def
  kObjectDetectedClosing_def kObjectAtRequestedPosition_def
  kGripperFaultMask_def kControllerFaultMask_def kControllerFaultShift_def

section \<open>Modbus addressing\<close>

definition kCommandAddress :: u16 where "kCommandAddress = 0x03E8"
definition kCommandRegisterCount :: nat where "kCommandRegisterCount = kCommandDocumentedBytes div 2"
definition kStatusAddress :: u16 where "kStatusAddress = 0x07D0"
definition kStatusRegisterCount :: nat where "kStatusRegisterCount = kStatusDocumentedBytes div 2"

lemmas mc_defs =
  kCommandAddress_def kCommandRegisterCount_def kStatusAddress_def kStatusRegisterCount_def

text \<open>The status masks are pairwise disjoint, so each field is written independently.\<close>

lemma status_masks_disjoint [simp]:
  "kActivationStatusMask AND kGoToEchoMask = 0" "kGoToEchoMask AND kActivationStatusMask = 0"
  "kActivationStatusMask AND kActivationStateMask = 0" "kActivationStateMask AND kActivationStatusMask = 0"
  "kActivationStatusMask AND kObjectDetectionMask = 0" "kObjectDetectionMask AND kActivationStatusMask = 0"
  "kGoToEchoMask AND kActivationStateMask = 0" "kActivationStateMask AND kGoToEchoMask = 0"
  "kGoToEchoMask AND kObjectDetectionMask = 0" "kObjectDetectionMask AND kGoToEchoMask = 0"
  "kActivationStateMask AND kObjectDetectionMask = 0" "kObjectDetectionMask AND kActivationStateMask = 0"
  "kGripperFaultMask AND kControllerFaultMask = 0" "kControllerFaultMask AND kGripperFaultMask = 0"
  by (simp_all add: rm_defs)

lemma flag_masks_nonzero [simp]: "kActivationStatusMask \<noteq> 0" "kGoToEchoMask \<noteq> 0"
  by (simp_all add: rm_defs)

end
