(* ===== verification/WireBlock.thy ===== *)
theory WireBlock
  imports RegisterMap
begin

text \<open>
  \<open>Robotiq/detail/byte_packing.hpp\<close>: the MSB-first packing between a block of bytes and
  the 16-bit registers of the wire, and the interface \<open>wire_block\<close> of a block type that
  overlays its 16 raw bytes (the \<open>data()\<close> of \<open>GripperCommand\<close> and \<open>GripperStatus\<close>).
  The two block theories interpret it.
\<close>

section \<open>Packing\<close>

text \<open>\<open>registersFromBytes<n>(block)\<close>: register \<open>i\<close> from bytes \<open>2i\<close> and \<open>2i+1\<close>.\<close>

definition registersFromBytes :: "nat \<Rightarrow> u8 list \<Rightarrow> u16 list" where
  "registersFromBytes n block = map (\<lambda>i. pack16 (block ! (2 * i)) (block ! (2 * i + 1))) [0..<n]"

text \<open>\<open>bytesFromRegisters(registers, block)\<close> writes \<open>2n\<close> bytes in place and leaves the rest.\<close>

fun bytesFromRegisters_loop :: "u16 list \<Rightarrow> nat \<Rightarrow> nat \<Rightarrow> u8 list \<Rightarrow> u8 list" where
  "bytesFromRegisters_loop regs i 0 block = block"
| "bytesFromRegisters_loop regs i (Suc k) block =
     bytesFromRegisters_loop regs (i + 1) k
       (block[2 * i := high8 (regs ! i), 2 * i + 1 := low8 (regs ! i)])"

definition bytesFromRegisters :: "u16 list \<Rightarrow> u8 list \<Rightarrow> u8 list" where
  "bytesFromRegisters regs block = bytesFromRegisters_loop regs 0 (length regs) block"

lemma length_registersFromBytes [simp]: "length (registersFromBytes n bs) = n"
  by (simp add: registersFromBytes_def)

lemma registersFromBytes_nth [simp]:
  "i < n \<Longrightarrow> registersFromBytes n bs ! i = pack16 (bs ! (2 * i)) (bs ! (2 * i + 1))"
  by (simp add: registersFromBytes_def)

lemma bytesFromRegisters_loop_length [simp]:
  "length (bytesFromRegisters_loop regs i k block) = length block"
  by (induction k arbitrary: i block) simp_all

lemma bytesFromRegisters_loop_nth:
  assumes "2 * (i + k) \<le> length block" and "j < length block"
  shows "bytesFromRegisters_loop regs i k block ! j =
    (if 2 * i \<le> j \<and> j < 2 * (i + k)
     then (if even j then high8 (regs ! (j div 2)) else low8 (regs ! (j div 2)))
     else block ! j)"
  using assms
proof (induction k arbitrary: i block)
  case 0
  then show ?case by auto
next
  case (Suc k)
  let ?b = "block[2 * i := high8 (regs ! i), 2 * i + 1 := low8 (regs ! i)]"
  have "bytesFromRegisters_loop regs (i + 1) k ?b ! j =
    (if 2 * (i + 1) \<le> j \<and> j < 2 * (i + 1 + k)
     then (if even j then high8 (regs ! (j div 2)) else low8 (regs ! (j div 2)))
     else ?b ! j)"
    using Suc.prems by (intro Suc.IH) auto
  also have "?b ! j = (if j = 2 * i then high8 (regs ! i) else if j = 2 * i + 1 then low8 (regs ! i)
      else block ! j)"
    using Suc.prems by (simp add: nth_list_update)
  finally have step: "bytesFromRegisters_loop regs i (Suc k) block ! j =
    (if 2 * i + 2 \<le> j \<and> j < 2 * (i + Suc k)
     then (if even j then high8 (regs ! (j div 2)) else low8 (regs ! (j div 2)))
     else if j = 2 * i then high8 (regs ! i) else if j = 2 * i + 1 then low8 (regs ! i)
     else block ! j)"
    by simp
  show ?case
  proof (cases "j = 2 * i \<or> j = 2 * i + 1")
    case True
    then show ?thesis unfolding step by auto
  next
    case False
    then have "2 * i + 2 \<le> j \<longleftrightarrow> 2 * i \<le> j" by arith
    with False show ?thesis unfolding step by simp
  qed
qed

lemma length_bytesFromRegisters [simp]: "length (bytesFromRegisters regs block) = length block"
  by (simp add: bytesFromRegisters_def)

lemma bytesFromRegisters_nth:
  assumes "2 * length regs \<le> length block" and "j < length block"
  shows "bytesFromRegisters regs block ! j =
    (if j < 2 * length regs
     then (if even j then high8 (regs ! (j div 2)) else low8 (regs ! (j div 2)))
     else block ! j)"
  using assms bytesFromRegisters_loop_nth [of 0 "length regs" block j regs]
  by (simp add: bytesFromRegisters_def)

text \<open>Bytes to registers and back: the packed prefix is recovered, the rest of the block kept.\<close>

lemma bytes_roundtrip:
  assumes "2 * n \<le> length bs" and "2 * n \<le> length block"
  shows "bytesFromRegisters (registersFromBytes n bs) block = take (2 * n) bs @ drop (2 * n) block"
proof (rule nth_equalityI)
  show "length (bytesFromRegisters (registersFromBytes n bs) block) =
      length (take (2 * n) bs @ drop (2 * n) block)"
    using assms by simp
next
  fix j
  assume "j < length (bytesFromRegisters (registersFromBytes n bs) block)"
  then have j: "j < length block" by simp
  have odd_j: "odd j \<Longrightarrow> Suc (2 * (j div 2)) = j" by presburger
  show "bytesFromRegisters (registersFromBytes n bs) block ! j =
      (take (2 * n) bs @ drop (2 * n) block) ! j"
    using assms j odd_j by (simp add: bytesFromRegisters_nth nth_append)
qed

text \<open>Registers to bytes and back.\<close>

lemma registers_roundtrip:
  assumes "2 * length regs \<le> length block"
  shows "registersFromBytes (length regs) (bytesFromRegisters regs block) = regs"
  by (rule nth_equalityI) (use assms in \<open>auto simp: bytesFromRegisters_nth\<close>)

section \<open>Blocks that overlay their bytes\<close>

locale wire_block =
  fixes raw :: "'c \<Rightarrow> u8 list"
    and overlay :: "u8 list \<Rightarrow> 'c"
    and wf :: "'c \<Rightarrow> bool"
  assumes length_raw: "wf c \<Longrightarrow> length (raw c) = 16"
    and overlay_raw: "wf c \<Longrightarrow> overlay (raw c) = c"
    and raw_overlay: "length bs = 16 \<Longrightarrow> raw (overlay bs) = bs"
    and wf_overlay: "length bs = 16 \<Longrightarrow> wf (overlay bs)"
begin

text \<open>Comparing the bytes (\<open>memcmp\<close>) is comparing the blocks.\<close>

lemma memcmp_eq: "wf c \<Longrightarrow> wf d \<Longrightarrow> raw c = raw d \<longleftrightarrow> c = d"
  by (metis overlay_raw)

text \<open>All eight registers of a block carry it whole.\<close>

lemma whole_block_roundtrip:
  assumes "wf c" and "wf d"
  shows "overlay (bytesFromRegisters (registersFromBytes 8 (raw c)) (raw d)) = c"
  using assms by (simp add: bytes_roundtrip length_raw overlay_raw)

text \<open>\<open>n\<close> registers carry the first \<open>2n\<close> bytes; the rest of the receiving block stays.\<close>

lemma prefix_roundtrip:
  assumes "wf c" and "wf d" and "n \<le> 8"
  shows "raw (overlay (bytesFromRegisters (registersFromBytes n (raw c)) (raw d))) =
    take (2 * n) (raw c) @ drop (2 * n) (raw d)"
  using assms by (simp add: bytes_roundtrip length_raw raw_overlay)

text \<open>Writing one byte through \<open>data()[i] = v\<close>.\<close>

lemma raw_poke: "wf c \<Longrightarrow> raw (overlay ((raw c)[i := v])) = (raw c)[i := v]"
  by (simp add: raw_overlay length_raw)

lemma wf_poke: "wf c \<Longrightarrow> wf (overlay ((raw c)[i := v]))"
  by (simp add: wf_overlay length_raw)

end

end
