(* ===== verification/Command.thy ===== *)
theory Command
  imports WireBlock
begin

text \<open>
  The command side: \<open>NamedBitArray\<close> (\<open>Robotiq/detail/named_bit_array.hpp\<close>), the
  action-request byte and the command block (\<open>Robotiq/gripper/command.hpp\<close>). The
  interface \<open>named_bits\<close> states what an enum of bit indices must satisfy for \<open>set\<close>,
  \<open>unset\<close> and \<open>get\<close> to be independent per bit; \<open>action\<close> interprets it for
  \<open>ActionRequestBit\<close>, \<open>command_block\<close> interprets \<open>wire_block\<close> for the block.
\<close>

section \<open>NamedBitArray\<close>

definition nba_mask :: "nat \<Rightarrow> 'w::len word" where
  "nba_mask i = push_bit i 1"

definition nba_get :: "'w::len word \<Rightarrow> nat \<Rightarrow> bool" where
  "nba_get v i \<longleftrightarrow> v AND nba_mask i \<noteq> 0"

definition nba_set :: "'w::len word \<Rightarrow> nat \<Rightarrow> 'w word" where
  "nba_set v i = v OR nba_mask i"

definition nba_unset :: "'w::len word \<Rightarrow> nat \<Rightarrow> 'w word" where
  "nba_unset v i = v AND NOT (nba_mask i)"

definition nba_set_to :: "'w::len word \<Rightarrow> nat \<Rightarrow> bool \<Rightarrow> 'w word" where
  "nba_set_to v i on = (if on then nba_set v i else nba_unset v i)"

lemma nba_get_iff_bit: "i < LENGTH('w) \<Longrightarrow> nba_get (v :: 'w::len word) i \<longleftrightarrow> bit v i"
proof
  assume "i < LENGTH('w)" and "nba_get v i"
  then obtain k where "bit (v AND nba_mask i) k"
    unfolding nba_get_def by (metis bit_eqI bit_0_eq bot_apply bot_bool_def)
  then show "bit v i" by (auto simp: nba_mask_def bit_simps)
next
  assume "i < LENGTH('w)" and "bit v i"
  then have "bit (v AND nba_mask i) i" by (simp add: nba_mask_def bit_simps)
  then show "nba_get v i" unfolding nba_get_def by (metis bit_0_eq bot_apply bot_bool_def)
qed

lemma bit_nba_set_to:
  "bit (nba_set_to (v :: 'w::len word) i on) k \<longleftrightarrow> k < LENGTH('w) \<and> (if k = i then on else bit v k)"
  by (auto simp: nba_set_to_def nba_set_def nba_unset_def nba_mask_def bit_simps dest: bit_imp_le_length)

locale named_bits =
  fixes index :: "'b \<Rightarrow> nat" and width :: "'w::len itself"
  assumes index_bound: "index b < LENGTH('w)"
    and index_inject: "index b = index c \<Longrightarrow> b = c"
begin

lemma get_set_same: "nba_get (nba_set_to (v :: 'w word) (index b) on) (index b) = on"
  by (simp add: nba_get_iff_bit index_bound bit_nba_set_to)

lemma get_set_other:
  "b \<noteq> c \<Longrightarrow> nba_get (nba_set_to (v :: 'w word) (index b) on) (index c) = nba_get v (index c)"
  using index_inject [of b c] by (auto simp: nba_get_iff_bit index_bound bit_nba_set_to)

lemma get_set:
  "nba_get (nba_set_to (v :: 'w word) (index b) on) (index c) = (if b = c then on else nba_get v (index c))"
  using get_set_other by (simp add: get_set_same)

lemma set_idem: "nba_set_to (nba_set_to (v :: 'w word) (index b) x) (index b) on = nba_set_to v (index b) on"
  by (rule bit_word_eqI) (simp add: bit_nba_set_to)

lemma set_commute:
  "b \<noteq> c \<Longrightarrow> nba_set_to (nba_set_to (v :: 'w word) (index b) x) (index c) y
     = nba_set_to (nba_set_to v (index c) y) (index b) x"
  by (rule bit_word_eqI) (use index_inject in \<open>auto simp: bit_nba_set_to\<close>)

lemma set_own_value: "nba_set_to (v :: 'w word) (index b) (nba_get v (index b)) = v"
  by (rule bit_word_eqI) (simp add: bit_nba_set_to nba_get_iff_bit index_bound)

end

section \<open>The action-request byte\<close>

datatype ActionRequestBit = Activate | GoTo | AutoRelease | AutoReleaseOpenDirection

fun action_index :: "ActionRequestBit \<Rightarrow> nat" where
  "action_index Activate = 0"
| "action_index GoTo = 3"
| "action_index AutoRelease = 4"
| "action_index AutoReleaseOpenDirection = 5"

definition action_get :: "u8 \<Rightarrow> ActionRequestBit \<Rightarrow> bool" where
  "action_get a b = nba_get a (action_index b)"

definition action_set :: "u8 \<Rightarrow> ActionRequestBit \<Rightarrow> bool \<Rightarrow> u8" where
  "action_set a b on = nba_set_to a (action_index b) on"

interpretation action: named_bits action_index "TYPE(8)"
proof
  show "action_index b < LENGTH(8)" for b by (cases b) simp_all
  show "action_index b = action_index c \<Longrightarrow> b = c" for b c by (cases b; cases c) simp_all
qed

lemma action_get_set [simp]:
  "action_get (action_set a b on) c = (if b = c then on else action_get a c)"
  unfolding action_get_def action_set_def by (rule action.get_set)

lemma action_get_zero [simp]: "action_get 0 b = False"
  by (simp add: action_get_def nba_get_def)

lemma action_set_idem [simp]: "action_set (action_set a b x) b on = action_set a b on"
  unfolding action_set_def by (rule action.set_idem)

lemma action_set_commute:
  "b \<noteq> c \<Longrightarrow> action_set (action_set a b x) c y = action_set (action_set a c y) b x"
  unfolding action_set_def by (rule action.set_commute)

lemma action_set_own: "action_get a b = on \<Longrightarrow> action_set a b on = a"
  using action.set_own_value [of a b] by (auto simp: action_get_def action_set_def)

section \<open>The command block\<close>

record GripperCommand =
  action :: u8
  cmdReserved1 :: u8
  cmdReserved2 :: u8
  positionRequest :: u8
  speed :: u8
  force :: u8
  cmdReservedTail :: "u8 list"

text \<open>\<open>GripperCommand{}\<close>: every member at its default initialiser.\<close>

definition GripperCommand_init :: GripperCommand where
  "GripperCommand_init =
     \<lparr>action = 0, cmdReserved1 = 0, cmdReserved2 = 0, positionRequest = 0, speed = 0, force = 0,
      cmdReservedTail = replicate (kCommandBlockBytes - kCommandDocumentedBytes) 0\<rparr>"

definition GripperCommand_defaults :: GripperCommand where
  "GripperCommand_defaults =
     GripperCommand_init\<lparr>action := action_set (action GripperCommand_init) Activate True,
       speed := 0xFF, force := 0xFF\<rparr>"

text \<open>\<open>data()\<close>: the block's bytes in the manual's order; \<open>overlay\<close> reads an object back.\<close>

definition command_data :: "GripperCommand \<Rightarrow> u8 list" where
  "command_data c =
     [action c, cmdReserved1 c, cmdReserved2 c, positionRequest c, speed c, force c] @ cmdReservedTail c"

definition command_overlay :: "u8 list \<Rightarrow> GripperCommand" where
  "command_overlay bs =
     \<lparr>action = bs ! 0, cmdReserved1 = bs ! 1, cmdReserved2 = bs ! 2, positionRequest = bs ! 3,
      speed = bs ! 4, force = bs ! 5, cmdReservedTail = drop 6 bs\<rparr>"

text \<open>\<open>operator==\<close> is \<open>memcmp\<close> over the block.\<close>

definition command_eq :: "GripperCommand \<Rightarrow> GripperCommand \<Rightarrow> bool" where
  "command_eq c d \<longleftrightarrow> take kCommandBlockBytes (command_data c) = take kCommandBlockBytes (command_data d)"

definition wf_command :: "GripperCommand \<Rightarrow> bool" where
  "wf_command c \<longleftrightarrow> length (cmdReservedTail c) = kCommandBlockBytes - kCommandDocumentedBytes"

lemma six_then_rest:
  "6 \<le> length bs \<Longrightarrow> [bs ! 0, bs ! 1, bs ! 2, bs ! 3, bs ! 4, bs ! 5] @ drop 6 bs = bs"
  by (rule nth_equalityI) (auto simp: nth_append nth_Cons eval_nat_numeral split: nat.splits)

interpretation command_block: wire_block command_data command_overlay wf_command
proof
  show "wf_command c \<Longrightarrow> length (command_data c) = 16" for c
    by (simp add: wf_command_def command_data_def rm_sizes)
  show "wf_command c \<Longrightarrow> command_overlay (command_data c) = c" for c
    by (simp add: wf_command_def command_data_def command_overlay_def)
  show "length bs = 16 \<Longrightarrow> command_data (command_overlay bs) = bs" for bs
    using six_then_rest [of bs] by (simp add: command_data_def command_overlay_def)
  show "length bs = 16 \<Longrightarrow> wf_command (command_overlay bs)" for bs
    by (simp add: wf_command_def command_overlay_def rm_sizes)
qed

lemma wf_command_init [simp]: "wf_command GripperCommand_init"
  by (simp add: wf_command_def GripperCommand_init_def)

lemma wf_command_defaults [simp]: "wf_command GripperCommand_defaults"
  by (simp add: wf_command_def GripperCommand_defaults_def GripperCommand_init_def)

lemma wf_command_update [simp]:
  "wf_command (c\<lparr>action := a\<rparr>) = wf_command c"
  "wf_command (c\<lparr>positionRequest := p\<rparr>) = wf_command c"
  "wf_command (c\<lparr>speed := p\<rparr>) = wf_command c"
  "wf_command (c\<lparr>force := p\<rparr>) = wf_command c"
  by (simp_all add: wf_command_def)

lemma command_eq_iff: "wf_command c \<Longrightarrow> wf_command d \<Longrightarrow> command_eq c d \<longleftrightarrow> c = d"
  using command_block.memcmp_eq [of c d]
  by (simp add: command_eq_def rm_sizes command_block.length_raw)

lemma command_eq_refl [simp]: "command_eq c c"
  by (simp add: command_eq_def)

end
