(* ===== verification/Status.thy ===== *)
theory Status
  imports WireBlock
begin

text \<open>
  The status side: the decoded enums, the GRIPPER STATUS byte and the status block
  (\<open>Robotiq/gripper/status.hpp\<close>), the FAULT STATUS byte and the severity of a fault
  (\<open>Robotiq/gripper/fault_status.hpp\<close>). An enum class over \<open>uint8_t\<close> holds any byte,
  enumerator or not, so each datatype has one constructor per enumerator and one for the
  bytes no enumerator names; the interface \<open>enum_cast\<close> states that \<open>static_cast\<close> loses
  nothing, and \<open>status_block\<close> interprets \<open>wire_block\<close> for the block.
\<close>

section \<open>Enums over a byte\<close>

locale enum_cast =
  fixes cast :: "u8 \<Rightarrow> 'e" and code :: "'e \<Rightarrow> u8"
  assumes code_cast: "code (cast b) = b"
begin

lemma cast_inject: "cast b = cast c \<longleftrightarrow> b = c"
  by (metis code_cast)

lemma cast_code: "e \<in> range cast \<Longrightarrow> cast (code e) = e"
  using code_cast by auto

end

datatype ActivationState = Reset | InProgress | Reserved | Complete | OtherActivationState u8

definition ActivationState_cast :: "u8 \<Rightarrow> ActivationState" where
  "ActivationState_cast b =
     (if b = kActivationStateReset then Reset
      else if b = kActivationStateInProgress then InProgress
      else if b = kActivationStateReserved then Reserved
      else if b = kActivationStateComplete then Complete
      else OtherActivationState b)"

fun ActivationState_code :: "ActivationState \<Rightarrow> u8" where
  "ActivationState_code Reset = kActivationStateReset"
| "ActivationState_code InProgress = kActivationStateInProgress"
| "ActivationState_code Reserved = kActivationStateReserved"
| "ActivationState_code Complete = kActivationStateComplete"
| "ActivationState_code (OtherActivationState b) = b"

interpretation ActivationState_enum: enum_cast ActivationState_cast ActivationState_code
  by unfold_locales (simp add: ActivationState_cast_def)

datatype ObjectDetection =
  Moving | DetectedWhileOpening | DetectedWhileClosing | AtRequestedPosition | OtherObjectDetection u8

definition ObjectDetection_cast :: "u8 \<Rightarrow> ObjectDetection" where
  "ObjectDetection_cast b =
     (if b = kObjectMoving then Moving
      else if b = kObjectDetectedOpening then DetectedWhileOpening
      else if b = kObjectDetectedClosing then DetectedWhileClosing
      else if b = kObjectAtRequestedPosition then AtRequestedPosition
      else OtherObjectDetection b)"

fun ObjectDetection_code :: "ObjectDetection \<Rightarrow> u8" where
  "ObjectDetection_code Moving = kObjectMoving"
| "ObjectDetection_code DetectedWhileOpening = kObjectDetectedOpening"
| "ObjectDetection_code DetectedWhileClosing = kObjectDetectedClosing"
| "ObjectDetection_code AtRequestedPosition = kObjectAtRequestedPosition"
| "ObjectDetection_code (OtherObjectDetection b) = b"

interpretation ObjectDetection_enum: enum_cast ObjectDetection_cast ObjectDetection_code
  by unfold_locales (simp add: ObjectDetection_cast_def)

datatype GripperFault =
    NoGripperFault | BrakeProblem | BlockedAtStart | ActionDelayed | ActivationRequired
  | OverTemperature | NoCommunication | UnderVoltage | AutomaticReleaseInProgress | InternalFault
  | ActivationFault | Overcurrent | AutomaticReleaseComplete | OtherGripperFault u8

definition GripperFault_cast :: "u8 \<Rightarrow> GripperFault" where
  "GripperFault_cast b =
     (if b = 0x00 then NoGripperFault
      else if b = 0x03 then BrakeProblem
      else if b = 0x04 then BlockedAtStart
      else if b = 0x05 then ActionDelayed
      else if b = 0x07 then ActivationRequired
      else if b = 0x08 then OverTemperature
      else if b = 0x09 then NoCommunication
      else if b = 0x0A then UnderVoltage
      else if b = 0x0B then AutomaticReleaseInProgress
      else if b = 0x0C then InternalFault
      else if b = 0x0D then ActivationFault
      else if b = 0x0E then Overcurrent
      else if b = 0x0F then AutomaticReleaseComplete
      else OtherGripperFault b)"

fun GripperFault_code :: "GripperFault \<Rightarrow> u8" where
  "GripperFault_code NoGripperFault = 0x00"
| "GripperFault_code BrakeProblem = 0x03"
| "GripperFault_code BlockedAtStart = 0x04"
| "GripperFault_code ActionDelayed = 0x05"
| "GripperFault_code ActivationRequired = 0x07"
| "GripperFault_code OverTemperature = 0x08"
| "GripperFault_code NoCommunication = 0x09"
| "GripperFault_code UnderVoltage = 0x0A"
| "GripperFault_code AutomaticReleaseInProgress = 0x0B"
| "GripperFault_code InternalFault = 0x0C"
| "GripperFault_code ActivationFault = 0x0D"
| "GripperFault_code Overcurrent = 0x0E"
| "GripperFault_code AutomaticReleaseComplete = 0x0F"
| "GripperFault_code (OtherGripperFault b) = b"

interpretation GripperFault_enum: enum_cast GripperFault_cast GripperFault_code
  by unfold_locales (simp add: GripperFault_cast_def)

datatype ControllerFault =
    NoControllerFault | Supply24VNotDetected | NoDeviceDetected | CommunicationNotReady
  | EmergencyStop | ControllerOvercurrent | OtherControllerFault u8

definition ControllerFault_cast :: "u8 \<Rightarrow> ControllerFault" where
  "ControllerFault_cast b =
     (if b = 0x00 then NoControllerFault
      else if b = 0x04 then Supply24VNotDetected
      else if b = 0x05 then NoDeviceDetected
      else if b = 0x09 then CommunicationNotReady
      else if b = 0x0C then EmergencyStop
      else if b = 0x0E then ControllerOvercurrent
      else OtherControllerFault b)"

fun ControllerFault_code :: "ControllerFault \<Rightarrow> u8" where
  "ControllerFault_code NoControllerFault = 0x00"
| "ControllerFault_code Supply24VNotDetected = 0x04"
| "ControllerFault_code NoDeviceDetected = 0x05"
| "ControllerFault_code CommunicationNotReady = 0x09"
| "ControllerFault_code EmergencyStop = 0x0C"
| "ControllerFault_code ControllerOvercurrent = 0x0E"
| "ControllerFault_code (OtherControllerFault b) = b"

interpretation ControllerFault_enum: enum_cast ControllerFault_cast ControllerFault_code
  by unfold_locales (simp add: ControllerFault_cast_def)

section \<open>Severity\<close>

datatype FaultSeverity = SeverityNone | SeverityWarning | SeverityMinor | SeverityMajor

fun severity :: "GripperFault \<Rightarrow> FaultSeverity" where
  "severity NoGripperFault = SeverityNone"
| "severity BlockedAtStart = SeverityWarning"
| "severity ActionDelayed = SeverityWarning"
| "severity ActivationRequired = SeverityWarning"
| "severity OverTemperature = SeverityMinor"
| "severity NoCommunication = SeverityMinor"
| "severity BrakeProblem = SeverityMajor"
| "severity UnderVoltage = SeverityMajor"
| "severity AutomaticReleaseInProgress = SeverityMajor"
| "severity InternalFault = SeverityMajor"
| "severity ActivationFault = SeverityMajor"
| "severity Overcurrent = SeverityMajor"
| "severity AutomaticReleaseComplete = SeverityMajor"
| "severity (OtherGripperFault b) = SeverityMajor"

fun controller_severity :: "ControllerFault \<Rightarrow> FaultSeverity" where
  "controller_severity NoControllerFault = SeverityNone"
| "controller_severity Supply24VNotDetected = SeverityWarning"
| "controller_severity NoDeviceDetected = SeverityWarning"
| "controller_severity CommunicationNotReady = SeverityMinor"
| "controller_severity EmergencyStop = SeverityMajor"
| "controller_severity ControllerOvercurrent = SeverityMajor"
| "controller_severity (OtherControllerFault b) = SeverityMajor"

section \<open>The two packed status bytes\<close>

definition activated :: "u8 \<Rightarrow> bool" where
  "activated bits \<longleftrightarrow> bits AND kActivationStatusMask \<noteq> 0"

definition goToEnabled :: "u8 \<Rightarrow> bool" where
  "goToEnabled bits \<longleftrightarrow> bits AND kGoToEchoMask \<noteq> 0"

definition activationState :: "u8 \<Rightarrow> ActivationState" where
  "activationState bits =
     ActivationState_cast (drop_bit kActivationStateShift (bits AND kActivationStateMask))"

definition objectDetection :: "u8 \<Rightarrow> ObjectDetection" where
  "objectDetection bits =
     ObjectDetection_cast (drop_bit kObjectDetectionShift (bits AND kObjectDetectionMask))"

definition gripperFault :: "u8 \<Rightarrow> GripperFault" where
  "gripperFault bits = GripperFault_cast (bits AND kGripperFaultMask)"

definition controllerFault :: "u8 \<Rightarrow> ControllerFault" where
  "controllerFault bits =
     ControllerFault_cast (drop_bit kControllerFaultShift (bits AND kControllerFaultMask))"

section \<open>The status block\<close>

record GripperStatus =
  gripperStatus :: u8
  stReserved1 :: u8
  faultStatus :: u8
  positionRequestEcho :: u8
  position :: u8
  current :: u8
  stReservedTail :: "u8 list"

definition GripperStatus_init :: GripperStatus where
  "GripperStatus_init =
     \<lparr>gripperStatus = 0, stReserved1 = 0, faultStatus = 0, positionRequestEcho = 0, position = 0,
      current = 0, stReservedTail = replicate (kStatusBlockBytes - kStatusDocumentedBytes) 0\<rparr>"

definition status_data :: "GripperStatus \<Rightarrow> u8 list" where
  "status_data s =
     [gripperStatus s, stReserved1 s, faultStatus s, positionRequestEcho s, position s, current s]
       @ stReservedTail s"

definition status_overlay :: "u8 list \<Rightarrow> GripperStatus" where
  "status_overlay bs =
     \<lparr>gripperStatus = bs ! 0, stReserved1 = bs ! 1, faultStatus = bs ! 2,
      positionRequestEcho = bs ! 3, position = bs ! 4, current = bs ! 5, stReservedTail = drop 6 bs\<rparr>"

definition status_eq :: "GripperStatus \<Rightarrow> GripperStatus \<Rightarrow> bool" where
  "status_eq s t \<longleftrightarrow> take kStatusBlockBytes (status_data s) = take kStatusBlockBytes (status_data t)"

definition wf_status :: "GripperStatus \<Rightarrow> bool" where
  "wf_status s \<longleftrightarrow> length (stReservedTail s) = kStatusBlockBytes - kStatusDocumentedBytes"

lemma six_then_rest_status:
  "6 \<le> length bs \<Longrightarrow> [bs ! 0, bs ! 1, bs ! 2, bs ! 3, bs ! 4, bs ! 5] @ drop 6 bs = bs"
  by (rule nth_equalityI) (auto simp: nth_append nth_Cons eval_nat_numeral split: nat.splits)

interpretation status_block: wire_block status_data status_overlay wf_status
proof
  show "wf_status s \<Longrightarrow> length (status_data s) = 16" for s
    by (simp add: wf_status_def status_data_def rm_sizes)
  show "wf_status s \<Longrightarrow> status_overlay (status_data s) = s" for s
    by (simp add: wf_status_def status_data_def status_overlay_def)
  show "length bs = 16 \<Longrightarrow> status_data (status_overlay bs) = bs" for bs
    using six_then_rest_status [of bs] by (simp add: status_data_def status_overlay_def)
  show "length bs = 16 \<Longrightarrow> wf_status (status_overlay bs)" for bs
    by (simp add: wf_status_def status_overlay_def rm_sizes)
qed

lemma wf_status_init [simp]: "wf_status GripperStatus_init"
  by (simp add: wf_status_def GripperStatus_init_def)

lemma wf_status_update [simp]:
  "wf_status (s\<lparr>gripperStatus := b\<rparr>) = wf_status s"
  "wf_status (s\<lparr>faultStatus := b\<rparr>) = wf_status s"
  "wf_status (s\<lparr>positionRequestEcho := b\<rparr>) = wf_status s"
  "wf_status (s\<lparr>position := b\<rparr>) = wf_status s"
  "wf_status (s\<lparr>current := b\<rparr>) = wf_status s"
  by (simp_all add: wf_status_def)

lemma status_eq_iff: "wf_status s \<Longrightarrow> wf_status t \<Longrightarrow> status_eq s t \<longleftrightarrow> s = t"
  using status_block.memcmp_eq [of s t]
  by (simp add: status_eq_def rm_sizes status_block.length_raw)

section \<open>The packed fields are total and cover their bytes\<close>

text \<open>A masked and shifted 2-bit field is one of four values, a nibble one of sixteen.\<close>

lemma two_bit_cases:
  fixes b :: u8
  assumes "unat b < 4"
  shows "b = 0 \<or> b = 1 \<or> b = 2 \<or> b = 3"
proof -
  have b: "b = of_nat (unat b)" by simp
  from assms consider "unat b = 0" | "unat b = 1" | "unat b = 2" | "unat b = 3" by arith
  then show ?thesis by cases (use b in auto)
qed

lemma unat_field_less:
  fixes b m :: u8
  assumes "unat m < k * 2 ^ n"
  shows "unat (drop_bit n (b AND m)) < k"
proof -
  have "unat (b AND m) \<le> unat m" by (simp add: word_and_le1 flip: word_le_nat_alt)
  then have "unat (b AND m) < k * 2 ^ n" using assms by simp
  then show ?thesis
    by (subst unat_drop_bit_eq, subst drop_bit_eq_div) (rule less_mult_imp_div_less)
qed

lemma activationState_named: "activationState bits \<in> {Reset, InProgress, Reserved, Complete}"
proof -
  have "unat (drop_bit kActivationStateShift (bits AND kActivationStateMask)) < 4"
    by (rule unat_field_less) (simp add: rm_defs)
  from two_bit_cases [OF this] show ?thesis
    by (auto simp: activationState_def ActivationState_cast_def rm_defs)
qed

lemma objectDetection_named:
  "objectDetection bits \<in> {Moving, DetectedWhileOpening, DetectedWhileClosing, AtRequestedPosition}"
proof -
  have "unat (drop_bit kObjectDetectionShift (bits AND kObjectDetectionMask)) < 4"
    by (rule unat_field_less) (simp add: rm_defs)
  from two_bit_cases [OF this] show ?thesis
    by (auto simp: objectDetection_def ObjectDetection_cast_def rm_defs)
qed

end
