(* ===== verification/ProcessImage.thy ===== *)
theory ProcessImage
  imports Command Status
begin

text \<open>
  The process image (\<open>src/process_image.cpp\<close>): the command block for the next exchange
  and the record of the last one (\<open>Robotiq/gripper/stamped_exchange.hpp\<close>), behind one
  lock. Every method takes the lock on entry, so each is one atomic transition of the
  record below; \<open>sync\<close>, the one method that blocks, is in theory \<open>Wait\<close>, where the
  environment that runs while it waits is modelled. The interface \<open>atomic_image\<close> is the
  contract the exchange thread and the callers rely on.
\<close>

record ExchangeMetadata =
  exchangeCount :: u64
  timestamp :: time

record StampedExchange =
  metadata :: ExchangeMetadata
  xCommand :: GripperCommand
  xStatus :: GripperStatus

abbreviation countOf :: "StampedExchange \<Rightarrow> u64" where
  "countOf x \<equiv> exchangeCount (metadata x)"

definition StampedExchange_init :: StampedExchange where
  "StampedExchange_init =
     \<lparr>metadata = \<lparr>exchangeCount = 0, timestamp = 0\<rparr>, xCommand = GripperCommand_init,
      xStatus = GripperStatus_init\<rparr>"

record ProcessImage =
  imgCommand :: GripperCommand
  stamped :: StampedExchange
  closed :: bool

text \<open>The constructor refuses a platform that hands out no mutex or no condition variable.\<close>

definition ProcessImage_create :: "bool \<Rightarrow> bool \<Rightarrow> exc + ProcessImage" where
  "ProcessImage_create hasMutex hasCondition =
     (if \<not> hasMutex
      then Inl (DriverException (''a Platform returned a null Mutex '' @ em_dash @ '' the process image has nothing to lock''))
      else if \<not> hasCondition
      then Inl (DriverException (''a Platform returned a null ConditionVariable '' @ em_dash @ '' nothing can wait on the image''))
      else Inr \<lparr>imgCommand = GripperCommand_init, stamped = StampedExchange_init, closed = False\<rparr>)"

definition image_seed :: "GripperStatus \<Rightarrow> time \<Rightarrow> GripperCommand \<Rightarrow> ProcessImage \<Rightarrow> ProcessImage" where
  "image_seed status at command im =
     im\<lparr>stamped := \<lparr>metadata = \<lparr>exchangeCount = 0, timestamp = at\<rparr>, xCommand = command, xStatus = status\<rparr>,
        imgCommand := command\<rparr>"

definition image_setCommand :: "GripperCommand \<Rightarrow> ProcessImage \<Rightarrow> ProcessImage" where
  "image_setCommand command im = im\<lparr>imgCommand := command\<rparr>"

definition image_command :: "ProcessImage \<Rightarrow> GripperCommand" where
  "image_command im = imgCommand im"

definition image_status :: "ProcessImage \<Rightarrow> GripperStatus" where
  "image_status im = xStatus (stamped im)"

definition image_stampedExchange :: "ProcessImage \<Rightarrow> StampedExchange" where
  "image_stampedExchange im = stamped im"

definition image_publish :: "GripperCommand \<Rightarrow> GripperStatus \<Rightarrow> time \<Rightarrow> ProcessImage \<Rightarrow> ProcessImage" where
  "image_publish command status completedAt im =
     im\<lparr>stamped := \<lparr>metadata = \<lparr>exchangeCount = countOf (stamped im) + 1, timestamp = completedAt\<rparr>,
                    xCommand = command, xStatus = status\<rparr>\<rparr>"

definition image_close :: "ProcessImage \<Rightarrow> ProcessImage" where
  "image_close im = im\<lparr>closed := True\<rparr>"

text \<open>The guard of the loop in \<open>sync\<close>: still nothing past \<open>count\<close>, open, before the deadline.\<close>

definition image_waiting :: "u64 \<Rightarrow> time \<Rightarrow> time \<Rightarrow> ProcessImage \<Rightarrow> bool" where
  "image_waiting count deadline now im \<longleftrightarrow> countOf (stamped im) \<le> count \<and> \<not> closed im \<and> now < deadline"

section \<open>The contract of an image\<close>

text \<open>
  A reader sees a whole record; only \<open>publish\<close> replaces it, and it replaces count, stamp,
  command and status together; only \<open>setCommand\<close> and \<open>seed\<close> change the command to send.
\<close>

locale atomic_image =
  fixes set_command :: "GripperCommand \<Rightarrow> 'i \<Rightarrow> 'i"
    and get_command :: "'i \<Rightarrow> GripperCommand"
    and get_record :: "'i \<Rightarrow> StampedExchange"
    and publish :: "GripperCommand \<Rightarrow> GripperStatus \<Rightarrow> time \<Rightarrow> 'i \<Rightarrow> 'i"
    and close :: "'i \<Rightarrow> 'i"
    and is_closed :: "'i \<Rightarrow> bool"
  assumes command_set: "get_command (set_command c i) = c"
    and record_set: "get_record (set_command c i) = get_record i"
    and command_publish: "get_command (publish c s t i) = get_command i"
    and record_publish: "get_record (publish c s t i) =
      \<lparr>metadata = \<lparr>exchangeCount = countOf (get_record i) + 1, timestamp = t\<rparr>, xCommand = c, xStatus = s\<rparr>"
    and command_close: "get_command (close i) = get_command i"
    and record_close: "get_record (close i) = get_record i"
    and closed_close: "is_closed (close i)"
    and closed_set: "is_closed (set_command c i) = is_closed i"
    and closed_publish: "is_closed (publish c s t i) = is_closed i"
begin

lemmas observe =
  command_set record_set command_publish record_publish command_close record_close closed_close
  closed_set closed_publish

lemma publish_command_commute:
  "get_record (publish c s t (set_command d i)) = get_record (set_command d (publish c s t i))"
  "get_command (publish c s t (set_command d i)) = get_command (set_command d (publish c s t i))"
  by (simp_all add: observe)

lemma close_final: "is_closed i \<Longrightarrow> is_closed (publish c s t (set_command d i))"
  by (simp add: observe)

text \<open>A sequence of publishes leaves the last record, and counts each of them.\<close>

lemma publish_many:
  "countOf (get_record (foldl (\<lambda>i (c, s, t). publish c s t i) i rs)) =
     countOf (get_record i) + of_nat (length rs)"
  by (induction rs arbitrary: i) (auto simp: observe)

lemma publish_last:
  assumes "rs \<noteq> []" and "last rs = (c, s, t)"
  shows "xCommand (get_record (foldl (\<lambda>i (c, s, t). publish c s t i) i rs)) = c"
    and "xStatus (get_record (foldl (\<lambda>i (c, s, t). publish c s t i) i rs)) = s"
    and "timestamp (metadata (get_record (foldl (\<lambda>i (c, s, t). publish c s t i) i rs))) = t"
proof -
  from assms have "rs = butlast rs @ [(c, s, t)]" by (metis append_butlast_last_id)
  then have f: "foldl (\<lambda>i (c, s, t). publish c s t i) i rs =
      publish c s t (foldl (\<lambda>i (c, s, t). publish c s t i) i (butlast rs))"
    by (metis (no_types, lifting) case_prod_conv foldl_Cons foldl_Nil foldl_append)
  show "xCommand (get_record (foldl (\<lambda>i (c, s, t). publish c s t i) i rs)) = c"
    and "xStatus (get_record (foldl (\<lambda>i (c, s, t). publish c s t i) i rs)) = s"
    and "timestamp (metadata (get_record (foldl (\<lambda>i (c, s, t). publish c s t i) i rs))) = t"
    unfolding f by (simp_all add: observe)
qed

end

lemmas image_defs =
  image_setCommand_def image_command_def image_status_def image_stampedExchange_def
  image_publish_def image_close_def

interpretation img: atomic_image image_setCommand image_command image_stampedExchange image_publish
    image_close closed
  by unfold_locales (simp_all add: image_defs)

lemmas [image_simps] = img.observe

lemma image_simps_stamped [image_simps]:
  "stamped (image_setCommand c im) = stamped im"
  "stamped (image_close im) = stamped im"
  "imgCommand (image_setCommand c im) = c"
  "imgCommand (image_publish c s t im) = imgCommand im"
  "imgCommand (image_close im) = imgCommand im"
  "stamped (image_publish c s t im) =
     \<lparr>metadata = \<lparr>exchangeCount = countOf (stamped im) + 1, timestamp = t\<rparr>, xCommand = c, xStatus = s\<rparr>"
  "countOf (stamped (image_seed st at c im)) = 0"
  "imgCommand (image_seed st at c im) = c"
  "closed (image_seed st at c im) = closed im"
  by (simp_all add: image_defs image_seed_def)

end
