(* ===== verification/Throttle.thy ===== *)
theory Throttle
  imports Prelude
begin

text \<open>
  The rate limiter of a call site (\<open>Robotiq/detail/throttle.hpp\<close>): \<open>executeIfAllowed\<close> at
  the instant \<open>now\<close> says whether the callable runs and updates the last run.
\<close>

record Throttle =
  throttlePeriod :: time
  lastRun :: time

definition Throttle_create :: "millis \<Rightarrow> Throttle" where
  "Throttle_create p = \<lparr>throttlePeriod = ns_of_ms p, lastRun = 0\<rparr>"

definition executeIfAllowed :: "time \<Rightarrow> Throttle \<Rightarrow> bool \<times> Throttle" where
  "executeIfAllowed now th =
     (if now - lastRun th < throttlePeriod th then (False, th) else (True, th\<lparr>lastRun := now\<rparr>))"

text \<open>The instants, among those of the calls, at which the callable ran.\<close>

fun throttle_runs :: "Throttle \<Rightarrow> time list \<Rightarrow> time list" where
  "throttle_runs th [] = []"
| "throttle_runs th (t # ts) =
     (let (allowed, th') = executeIfAllowed t th
      in if allowed then t # throttle_runs th' ts else throttle_runs th' ts)"

text \<open>Consecutive runs are at least one period apart, and so is the first from \<open>lastRun\<close>.\<close>

fun spaced :: "time \<Rightarrow> time \<Rightarrow> time list \<Rightarrow> bool" where
  "spaced p from [] = True"
| "spaced p from (t # ts) = (from + p \<le> t \<and> spaced p t ts)"

lemma executeIfAllowed_period [simp]: "throttlePeriod (snd (executeIfAllowed now th)) = throttlePeriod th"
  by (simp add: executeIfAllowed_def)

lemma throttle_runs_spaced_from:
  "spaced (throttlePeriod th) (lastRun th) (throttle_runs th ts)"
proof (induction ts arbitrary: th)
  case Nil
  then show ?case by simp
next
  case (Cons t ts)
  show ?case
  proof (cases "t - lastRun th < throttlePeriod th")
    case True
    then show ?thesis using Cons [of th] by (simp add: executeIfAllowed_def)
  next
    case False
    then show ?thesis using Cons [of "th\<lparr>lastRun := t\<rparr>"] by (simp add: executeIfAllowed_def)
  qed
qed

lemma spaced_length:
  assumes "spaced p from ts" and "0 \<le> p" and "\<forall>t \<in> set ts. t \<le> until"
  shows "ts \<noteq> [] \<Longrightarrow> from + int (length ts) * p \<le> until"
  using assms
proof (induction ts arbitrary: "from")
  case Nil
  then show ?case by simp
next
  case (Cons t ts)
  show ?case
  proof (cases "ts = []")
    case True
    with Cons.prems show ?thesis by simp
  next
    case False
    have "t + int (length ts) * p \<le> until" by (rule Cons.IH) (use False Cons.prems in auto)
    with Cons.prems show ?thesis by (simp add: algebra_simps)
  qed
qed

end
