(* ===== verification/Render.thy ===== *)
theory Render
  imports Command Status
begin

text \<open>
  Human-readable rendering (\<open>Robotiq/gripper/to_string.hpp\<close>, \<open>src/to_string.cpp\<close>): the
  names of the enums and the field lists of the command and status blocks.
\<close>

datatype ConnectionState = Disconnected | Connecting | Operational | Faulted

datatype ActivationResult = Activated | AlreadyActive | FaultLatched | Timeout

fun ConnectionState_toString :: "ConnectionState \<Rightarrow> string" where
  "ConnectionState_toString Disconnected = ''Disconnected''"
| "ConnectionState_toString Connecting = ''Connecting''"
| "ConnectionState_toString Operational = ''Operational''"
| "ConnectionState_toString Faulted = ''Faulted''"

fun ActivationResult_toString :: "ActivationResult \<Rightarrow> string" where
  "ActivationResult_toString Activated = ''Activated''"
| "ActivationResult_toString AlreadyActive = ''AlreadyActive''"
| "ActivationResult_toString FaultLatched = ''FaultLatched''"
| "ActivationResult_toString Timeout = ''Timeout''"

fun ActivationState_toString :: "ActivationState \<Rightarrow> string" where
  "ActivationState_toString Reset = ''Reset''"
| "ActivationState_toString InProgress = ''InProgress''"
| "ActivationState_toString Reserved = ''Reserved''"
| "ActivationState_toString Complete = ''Complete''"
| "ActivationState_toString (OtherActivationState b) = ''Unrecognized''"

fun ObjectDetection_toString :: "ObjectDetection \<Rightarrow> string" where
  "ObjectDetection_toString Moving = ''Moving''"
| "ObjectDetection_toString DetectedWhileOpening = ''DetectedWhileOpening''"
| "ObjectDetection_toString DetectedWhileClosing = ''DetectedWhileClosing''"
| "ObjectDetection_toString AtRequestedPosition = ''AtRequestedPosition''"
| "ObjectDetection_toString (OtherObjectDetection b) = ''Unrecognized''"

fun GripperFault_toString :: "GripperFault \<Rightarrow> string" where
  "GripperFault_toString NoGripperFault = ''None''"
| "GripperFault_toString BrakeProblem = ''BrakeProblem''"
| "GripperFault_toString BlockedAtStart = ''BlockedAtStart''"
| "GripperFault_toString ActionDelayed = ''ActionDelayed''"
| "GripperFault_toString ActivationRequired = ''ActivationRequired''"
| "GripperFault_toString OverTemperature = ''OverTemperature''"
| "GripperFault_toString NoCommunication = ''NoCommunication''"
| "GripperFault_toString UnderVoltage = ''UnderVoltage''"
| "GripperFault_toString AutomaticReleaseInProgress = ''AutomaticReleaseInProgress''"
| "GripperFault_toString InternalFault = ''InternalFault''"
| "GripperFault_toString ActivationFault = ''ActivationFault''"
| "GripperFault_toString Overcurrent = ''Overcurrent''"
| "GripperFault_toString AutomaticReleaseComplete = ''AutomaticReleaseComplete''"
| "GripperFault_toString (OtherGripperFault b) = ''Unrecognized''"

fun ControllerFault_toString :: "ControllerFault \<Rightarrow> string" where
  "ControllerFault_toString NoControllerFault = ''None''"
| "ControllerFault_toString Supply24VNotDetected = ''Supply24VNotDetected''"
| "ControllerFault_toString NoDeviceDetected = ''NoDeviceDetected''"
| "ControllerFault_toString CommunicationNotReady = ''CommunicationNotReady''"
| "ControllerFault_toString EmergencyStop = ''EmergencyStop''"
| "ControllerFault_toString ControllerOvercurrent = ''Overcurrent''"
| "ControllerFault_toString (OtherControllerFault b) = ''Unrecognized''"

fun FaultSeverity_toString :: "FaultSeverity \<Rightarrow> string" where
  "FaultSeverity_toString SeverityNone = ''None''"
| "FaultSeverity_toString SeverityWarning = ''Warning''"
| "FaultSeverity_toString SeverityMinor = ''Minor''"
| "FaultSeverity_toString SeverityMajor = ''Major''"

fun Level_toString :: "Level \<Rightarrow> string" where
  "Level_toString Debug = ''Debug''"
| "Level_toString Info = ''Info''"
| "Level_toString Warn = ''Warn''"
| "Level_toString Error = ''Error''"

section \<open>Field lists\<close>

definition appendField :: "string \<Rightarrow> string \<Rightarrow> string \<Rightarrow> string" where
  "appendField out name value = (if out = [] then out else out @ '' '') @ name @ ''='' @ value"

definition appendBit :: "string \<Rightarrow> string \<Rightarrow> bool \<Rightarrow> string" where
  "appendBit out name on = appendField out name (if on then ''1'' else ''0'')"

definition appendByte :: "string \<Rightarrow> string \<Rightarrow> u8 \<Rightarrow> string" where
  "appendByte out name value = appendField out name (to_string (unat value))"

definition appendEnum :: "string \<Rightarrow> string \<Rightarrow> string \<Rightarrow> u8 \<Rightarrow> string" where
  "appendEnum out name text code =
     appendField out name (text @ ''(0x'' @ [''0123456789ABCDEF'' ! unat (code AND 0x0F)] @ '')'')"

definition command_toString :: "GripperCommand \<Rightarrow> string" where
  "command_toString c =
     (let out = appendBit [] ''rACT'' (action_get (action c) Activate);
          out = appendBit out ''rGTO'' (action_get (action c) GoTo);
          out = appendBit out ''rATR'' (action_get (action c) AutoRelease);
          out = appendBit out ''rARD'' (action_get (action c) AutoReleaseOpenDirection);
          out = appendByte out ''rPR'' (positionRequest c);
          out = appendByte out ''rSP'' (speed c);
          out = appendByte out ''rFR'' (force c)
      in out)"

definition flags_toString :: "u8 \<Rightarrow> string" where
  "flags_toString flags =
     (let out = appendBit [] ''gACT'' (activated flags);
          out = appendBit out ''gGTO'' (goToEnabled flags);
          out = appendEnum out ''gSTA'' (ActivationState_toString (activationState flags))
                  (ActivationState_code (activationState flags));
          out = appendEnum out ''gOBJ'' (ObjectDetection_toString (objectDetection flags))
                  (ObjectDetection_code (objectDetection flags))
      in out)"

definition fault_toString :: "u8 \<Rightarrow> string" where
  "fault_toString fault =
     (let out = appendEnum [] ''gFLT'' (GripperFault_toString (gripperFault fault))
                  (GripperFault_code (gripperFault fault));
          out = appendEnum out ''kFLT'' (ControllerFault_toString (controllerFault fault))
                  (ControllerFault_code (controllerFault fault))
      in out)"

definition status_toString :: "GripperStatus \<Rightarrow> string" where
  "status_toString s =
     (let out = flags_toString (gripperStatus s);
          out = out @ '' '';
          out = out @ fault_toString (faultStatus s);
          out = appendByte out ''gPR'' (positionRequestEcho s);
          out = appendByte out ''gPO'' (position s);
          out = appendByte out ''gCU'' (current s)
      in out)"

section \<open>The rendering determines the fields\<close>

text \<open>A value without a blank is delimited by the next blank.\<close>

lemma blank_delimits:
  assumes "CHR '' '' \<notin> set a" and "CHR '' '' \<notin> set b"
    and "a @ CHR '' '' # x = b @ CHR '' '' # y"
  shows "a = b \<and> x = y"
  using assms
proof (induction a arbitrary: b)
  case Nil
  then show ?case by (cases b) auto
next
  case (Cons c a)
  then show ?case by (cases b) auto
qed

lemma digit_not_blank: "d < 10 \<Longrightarrow> digit_char d \<noteq> CHR '' ''"
proof -
  assume "d < 10"
  then have "d \<in> {0,1,2,3,4,5,6,7,8,9}" by auto
  then show ?thesis by (auto simp: digit_char_def)
qed

lemma to_string_no_blank: "CHR '' '' \<notin> set (to_string n)"
proof (induction n rule: to_string.induct)
  case (1 n)
  show ?case
  proof (cases "n < 10")
    case True
    then show ?thesis by (subst to_string.simps) (use digit_not_blank [of n] in auto)
  next
    case False
    with 1 have "CHR '' '' \<notin> set (to_string (n div 10))" by simp
    with False show ?thesis
      by (subst to_string.simps) (use digit_not_blank [of "n mod 10"] in auto)
  qed
qed

lemma command_toString_shape:
  "command_toString c =
     ''rACT='' @ (if action_get (action c) Activate then ''1'' else ''0'') @
     '' rGTO='' @ (if action_get (action c) GoTo then ''1'' else ''0'') @
     '' rATR='' @ (if action_get (action c) AutoRelease then ''1'' else ''0'') @
     '' rARD='' @ (if action_get (action c) AutoReleaseOpenDirection then ''1'' else ''0'') @
     '' rPR='' @ to_string (unat (positionRequest c)) @
     '' rSP='' @ to_string (unat (speed c)) @
     '' rFR='' @ to_string (unat (force c))"
  by (simp add: command_toString_def appendBit_def appendByte_def appendField_def)

lemma command_toString_fields:
  assumes "command_toString c = command_toString d"
  shows "\<forall>b. action_get (action c) b = action_get (action d) b"
    and "positionRequest c = positionRequest d" and "speed c = speed d" and "force c = force d"
proof -
  let ?bit = "\<lambda>c b. (if action_get (action c) b then ''1'' else ''0'')"
  let ?tail = "\<lambda>c. to_string (unat (positionRequest c)) @
     CHR '' '' # ''rSP='' @ to_string (unat (speed c)) @
     CHR '' '' # ''rFR='' @ to_string (unat (force c))"
  from assms have bits: "action_get (action c) Activate = action_get (action d) Activate"
      "action_get (action c) GoTo = action_get (action d) GoTo"
      "action_get (action c) AutoRelease = action_get (action d) AutoRelease"
      "action_get (action c) AutoReleaseOpenDirection = action_get (action d) AutoReleaseOpenDirection"
    and tail: "?tail c = ?tail d"
    unfolding command_toString_shape by (auto split: if_splits)
  show "\<forall>b. action_get (action c) b = action_get (action d) b"
  proof
    fix b show "action_get (action c) b = action_get (action d) b" by (cases b) (use bits in auto)
  qed
  from blank_delimits [OF to_string_no_blank to_string_no_blank tail]
  have p: "positionRequest c = positionRequest d"
    and rest: "to_string (unat (speed c)) @ CHR '' '' # ''rFR='' @ to_string (unat (force c)) =
       to_string (unat (speed d)) @ CHR '' '' # ''rFR='' @ to_string (unat (force d))"
    by (simp_all add: word_unat_eq_iff)
  from p show "positionRequest c = positionRequest d" .
  from blank_delimits [OF to_string_no_blank to_string_no_blank rest]
  show "speed c = speed d" and "force c = force d" by (simp_all add: word_unat_eq_iff)
qed

end
