(* ===== verification/GripperState.thy ===== *)
theory GripperState
  imports ProcessImage Throttle Render
begin

text \<open>
  The link and the exchange thread behind \<open>Gripper\<close> (\<open>src/gripper_state.cpp\<close>). The
  Modbus client is the state \<open>'l\<close> of type \<open>client\<close> with its two operations \<open>readStatus\<close>
  and \<open>exchange\<close>, passed as arguments; each returns what the client returned or threw.
  The thread's body is given twice: as the code is written (\<open>exchangeOnce\<close>), and step by
  step, one step per access to state that other threads see (\<open>thread_step\<close>), which is
  what the interleavings below are made of. \<open>exchangeOnce_refines\<close> connects the two.
\<close>

section \<open>State\<close>

text \<open>Where the exchange thread stands, with its local variables.\<close>

datatype thread_pc =
    NotStarted
  | CheckRunning
  | LatchCommand
  | OnWire GripperCommand
  | ExchangeFailed exc
  | CycleFailed exc
  | Answered GripperCommand GripperStatus time
  | Publishing GripperCommand GripperStatus time bool
  | Published bool
  | Pacing
  | Sleeping
  | Finished

record 'l GripperState =
  client :: 'l
  cyclePeriod :: time
  img :: ProcessImage
  connectionState :: ConnectionState
  running :: bool
  consecutiveFailures :: u32
  failureLogThrottle :: Throttle
  logLines :: "log_line list"
  pc :: thread_pc
  nextCycle :: time

type_synonym 'l read_op = "'l \<Rightarrow> (exc + GripperStatus) \<times> 'l"
type_synonym 'l exchange_op = "'l \<Rightarrow> GripperCommand \<Rightarrow> (exc + GripperStatus) \<times> 'l"

definition kFaultThreshold :: nat where "kFaultThreshold = 3"
definition kInitialReadAttempts :: nat where "kInitialReadAttempts = 3"

definition add_log :: "Level \<Rightarrow> string \<Rightarrow> 'l GripperState \<Rightarrow> 'l GripperState" where
  "add_log lv msg g = g\<lparr>logLines := logLines g @ [(lv, msg)]\<rparr>"

definition GripperState_create :: "'l \<Rightarrow> time \<Rightarrow> ProcessImage \<Rightarrow> 'l GripperState" where
  "GripperState_create l exchangePeriod im =
     \<lparr>client = l, cyclePeriod = exchangePeriod, img = im, connectionState = Connecting,
      running = False, consecutiveFailures = 0, failureLogThrottle = Throttle_create 1000,
      logLines = [], pc = NotStarted, nextCycle = 0\<rparr>"

section \<open>Seeding the image\<close>

text \<open>The status echoes of the gripper become the first command.\<close>

definition seed_command :: "GripperStatus \<Rightarrow> GripperCommand" where
  "seed_command fresh =
     (let command = GripperCommand_defaults;
          command = command\<lparr>action := action_set (action command) Activate (activated (gripperStatus fresh))\<rparr>;
          command = command\<lparr>action := action_set (action command) GoTo (goToEnabled (gripperStatus fresh))\<rparr>
      in command\<lparr>positionRequest := positionRequestEcho fresh\<rparr>)"

text \<open>
  The retry loop: \<open>left\<close> counts the attempts that remain, so attempt number
  \<open>kInitialReadAttempts - left\<close> is the one that just failed in the second equation. Only a
  \<open>std::exception\<close> is caught; \<open>now\<close> is the clock when the loop ends.
\<close>

definition log_read_failure :: "nat \<Rightarrow> exc \<Rightarrow> 'l GripperState \<Rightarrow> 'l GripperState" where
  "log_read_failure left e g =
     add_log Warn (''initial status read attempt '' @ to_string (kInitialReadAttempts - left)
       @ '' of '' @ to_string kInitialReadAttempts @ '' failed: '' @ exc_what e) g"

fun initial_read :: "'l read_op \<Rightarrow> nat \<Rightarrow> 'l GripperState \<Rightarrow> (exc + GripperStatus) \<times> 'l GripperState" where
  "initial_read rd 0 g = (Inl UnknownException, g)"
| "initial_read rd (Suc left) g =
     (case rd (client g) of
        (Inr fresh, l) \<Rightarrow> (Inr fresh, g\<lparr>client := l\<rparr>)
      | (Inl UnknownException, l) \<Rightarrow> (Inl UnknownException, g\<lparr>client := l\<rparr>)
      | (Inl e, l) \<Rightarrow>
          if left = 0
          then (Inl (DriverException
                  (''no gripper answered the initial status read (is it powered, and do its baud ''
                   @ ''rate and Modbus slave address match this connection?) '' @ em_dash @ '' last attempt: ''
                   @ exc_what e)), g\<lparr>client := l\<rparr>)
          else initial_read rd left (log_read_failure left e (g\<lparr>client := l\<rparr>)))"

definition initializeImage :: "'l read_op \<Rightarrow> time \<Rightarrow> 'l GripperState \<Rightarrow> (exc + unit) \<times> 'l GripperState" where
  "initializeImage rd now g =
     (case initial_read rd kInitialReadAttempts g of
        (Inl e, g1) \<Rightarrow> (Inl e, g1)
      | (Inr fresh, g1) \<Rightarrow>
          (Inr (), g1\<lparr>img := image_seed fresh now (seed_command fresh) (img g1),
                     connectionState := Operational\<rparr>))"

section \<open>One exchange\<close>

text \<open>The \<open>catch(...)\<close> block of \<open>exchangeOnce\<close>; the exception then propagates.\<close>

definition note_failure :: "'l GripperState \<Rightarrow> 'l GripperState" where
  "note_failure g =
     (let n = consecutiveFailures g + 1; g1 = g\<lparr>consecutiveFailures := n\<rparr>
      in if kFaultThreshold \<le> unat n
         then let g2 = g1\<lparr>connectionState := Faulted\<rparr>
              in if connectionState g1 \<noteq> Faulted
                 then add_log Warn (''link faulted after '' @ to_string kFaultThreshold
                        @ '' consecutive failed exchanges; the process image is now stale'') g2
                 else g2
         else g1)"

definition note_success :: "'l GripperState \<Rightarrow> bool \<times> 'l GripperState" where
  "note_success g =
     (connectionState g = Faulted, g\<lparr>consecutiveFailures := 0, connectionState := Operational\<rparr>)"

definition log_recovered :: "bool \<Rightarrow> 'l GripperState \<Rightarrow> 'l GripperState" where
  "log_recovered recovered g =
     (if recovered then add_log Info ''link recovered; the process image is live again'' g else g)"

definition exchangeOnce ::
  "'l exchange_op \<Rightarrow> time \<Rightarrow> 'l GripperState \<Rightarrow> (exc + unit) \<times> 'l GripperState" where
  "exchangeOnce xchg now g =
     (let commandCopy = image_command (img g)
      in case xchg (client g) commandCopy of
           (Inl e, l) \<Rightarrow> (Inl e, note_failure (g\<lparr>client := l\<rparr>))
         | (Inr freshStatus, l) \<Rightarrow>
             let completedAt = now;
                 (recovered, g1) = note_success (g\<lparr>client := l\<rparr>);
                 g2 = g1\<lparr>img := image_publish commandCopy freshStatus completedAt (img g1)\<rparr>
             in (Inr (), log_recovered recovered g2))"

text \<open>The handlers of the loop in \<open>start\<close>, through the throttle.\<close>

definition log_cycle_failure :: "time \<Rightarrow> exc \<Rightarrow> 'l GripperState \<Rightarrow> 'l GripperState" where
  "log_cycle_failure now e g =
     (let (allowed, th) = executeIfAllowed now (failureLogThrottle g);
          g1 = g\<lparr>failureLogThrottle := th\<rparr>
      in if allowed
         then add_log Warn (''exchange cycle failed: ''
                @ (case e of UnknownException \<Rightarrow> ''unknown exception'' | _ \<Rightarrow> exc_what e)) g1
         else g1)"

section \<open>The thread, step by step\<close>

definition start :: "time \<Rightarrow> 'l GripperState \<Rightarrow> 'l GripperState" where
  "start now g = g\<lparr>running := True, pc := CheckRunning, nextCycle := now\<rparr>"

text \<open>\<open>None\<close>: the thread is not started, asleep before its deadline, or done.\<close>

definition thread_step :: "'l exchange_op \<Rightarrow> time \<Rightarrow> 'l GripperState \<Rightarrow> 'l GripperState option" where
  "thread_step xchg now g =
     (case pc g of
        NotStarted \<Rightarrow> None
      | CheckRunning \<Rightarrow> Some (if running g then g\<lparr>pc := LatchCommand\<rparr> else g\<lparr>pc := Finished\<rparr>)
      | LatchCommand \<Rightarrow> Some (g\<lparr>pc := OnWire (image_command (img g))\<rparr>)
      | OnWire c \<Rightarrow>
          (case xchg (client g) c of
             (Inl e, l) \<Rightarrow> Some (g\<lparr>client := l, pc := ExchangeFailed e\<rparr>)
           | (Inr s, l) \<Rightarrow> Some (g\<lparr>client := l, pc := Answered c s now\<rparr>))
      | ExchangeFailed e \<Rightarrow> Some ((note_failure g)\<lparr>pc := CycleFailed e\<rparr>)
      | CycleFailed e \<Rightarrow> Some ((log_cycle_failure now e g)\<lparr>pc := Pacing\<rparr>)
      | Answered c s t \<Rightarrow> (let (recovered, g1) = note_success g in Some (g1\<lparr>pc := Publishing c s t recovered\<rparr>))
      | Publishing c s t recovered \<Rightarrow>
          Some (g\<lparr>img := image_publish c s t (img g), pc := Published recovered\<rparr>)
      | Published recovered \<Rightarrow> Some ((log_recovered recovered g)\<lparr>pc := Pacing\<rparr>)
      | Pacing \<Rightarrow> Some (g\<lparr>nextCycle := max (nextCycle g + cyclePeriod g) now, pc := Sleeping\<rparr>)
      | Sleeping \<Rightarrow> if nextCycle g \<le> now then Some (g\<lparr>pc := CheckRunning\<rparr>) else None
      | Finished \<Rightarrow> None)"

section \<open>The other operations\<close>

definition gs_setCommand :: "GripperCommand \<Rightarrow> 'l GripperState \<Rightarrow> 'l GripperState" where
  "gs_setCommand c g = g\<lparr>img := image_setCommand c (img g)\<rparr>"

definition gs_command :: "'l GripperState \<Rightarrow> GripperCommand" where
  "gs_command g = image_command (img g)"

definition gs_status :: "'l GripperState \<Rightarrow> GripperStatus" where
  "gs_status g = image_status (img g)"

definition gs_stampedExchange :: "'l GripperState \<Rightarrow> StampedExchange" where
  "gs_stampedExchange g = image_stampedExchange (img g)"

text \<open>\<open>stop()\<close> up to the join: two stores other threads can see apart.\<close>

definition stop_running :: "'l GripperState \<Rightarrow> 'l GripperState" where
  "stop_running g = g\<lparr>running := False\<rparr>"

definition stop_close :: "'l GripperState \<Rightarrow> 'l GripperState" where
  "stop_close g = g\<lparr>img := image_close (img g)\<rparr>"

section \<open>The code's sequence and the steps agree\<close>

lemma log_read_failure_frame [simp]:
  "client (log_read_failure k e g) = client g" "img (log_read_failure k e g) = img g"
  "cyclePeriod (log_read_failure k e g) = cyclePeriod g"
  "consecutiveFailures (log_read_failure k e g) = consecutiveFailures g"
  "connectionState (log_read_failure k e g) = connectionState g"
  "length (logLines (log_read_failure k e g)) = Suc (length (logLines g))"
  by (simp_all add: log_read_failure_def add_log_def)

fun thread_steps :: "'l exchange_op \<Rightarrow> time \<Rightarrow> nat \<Rightarrow> 'l GripperState \<Rightarrow> 'l GripperState option" where
  "thread_steps xchg now 0 g = Some g"
| "thread_steps xchg now (Suc n) g =
     (case thread_step xchg now g of None \<Rightarrow> None | Some g' \<Rightarrow> thread_steps xchg now n g')"

lemmas thread_defs =
  thread_step_def note_success_def log_recovered_def add_log_def Let_def

lemma note_failure_frame [simp]:
  "pc (note_failure g) = pc g" "img (note_failure g) = img g" "client (note_failure g) = client g"
  "running (note_failure g) = running g" "nextCycle (note_failure g) = nextCycle g"
  "cyclePeriod (note_failure g) = cyclePeriod g"
  "failureLogThrottle (note_failure g) = failureLogThrottle g"
  by (simp_all add: note_failure_def add_log_def Let_def)

lemma log_cycle_failure_frame [simp]:
  "pc (log_cycle_failure now e g) = pc g" "img (log_cycle_failure now e g) = img g"
  "client (log_cycle_failure now e g) = client g" "running (log_cycle_failure now e g) = running g"
  "nextCycle (log_cycle_failure now e g) = nextCycle g"
  "cyclePeriod (log_cycle_failure now e g) = cyclePeriod g"
  "connectionState (log_cycle_failure now e g) = connectionState g"
  "consecutiveFailures (log_cycle_failure now e g) = consecutiveFailures g"
  by (simp_all add: log_cycle_failure_def add_log_def Let_def split_beta)

lemma log_recovered_frame [simp]:
  "pc (log_recovered r g) = pc g" "img (log_recovered r g) = img g"
  "client (log_recovered r g) = client g" "running (log_recovered r g) = running g"
  "nextCycle (log_recovered r g) = nextCycle g" "cyclePeriod (log_recovered r g) = cyclePeriod g"
  "connectionState (log_recovered r g) = connectionState g"
  "consecutiveFailures (log_recovered r g) = consecutiveFailures g"
  by (simp_all add: log_recovered_def add_log_def)

lemma note_success_frame [simp]:
  "pc (snd (note_success g)) = pc g" "img (snd (note_success g)) = img g"
  "client (snd (note_success g)) = client g" "running (snd (note_success g)) = running g"
  "nextCycle (snd (note_success g)) = nextCycle g" "cyclePeriod (snd (note_success g)) = cyclePeriod g"
  "connectionState (snd (note_success g)) = Operational"
  "consecutiveFailures (snd (note_success g)) = 0"
  by (simp_all add: note_success_def)

lemma note_failure_pc: "note_failure (g\<lparr>pc := p\<rparr>) = (note_failure g)\<lparr>pc := p\<rparr>"
  by (cases g) (simp add: note_failure_def add_log_def Let_def)

end
