(* ===== verification/Exchange.thy ===== *)
theory Exchange
  imports GripperState
begin

text \<open>
  The gripper object among its threads. A world is the monotonic clock and the state of
  \<open>GripperState\<close>; a step is one step of the exchange thread, time passing, a commander's
  \<open>setCommand\<close>, or one of the two stores of \<open>stop\<close>. \<open>fire\<close> runs one event, \<open>wstep\<close> is the
  same as a relation, which also counts the exchanges completed, and \<open>runs\<close> is its
  closure. The invariants of every run follow, and the interface \<open>exchange_link\<close>: what a
  link promises of its answers holds of every record any reader sees.
\<close>

record 'l world =
  clock :: time
  gs :: "'l GripperState"

datatype event =
    ThreadStep
  | Tick nat
  | CommanderSets GripperCommand
  | StopRunning
  | StopClose

fun fire :: "'l exchange_op \<Rightarrow> event \<Rightarrow> 'l world \<Rightarrow> 'l world option" where
  "fire xchg ThreadStep w = map_option (\<lambda>g. w\<lparr>gs := g\<rparr>) (thread_step xchg (clock w) (gs w))"
| "fire xchg (Tick d) w = Some (w\<lparr>clock := clock w + int d\<rparr>)"
| "fire xchg (CommanderSets c) w = Some (w\<lparr>gs := gs_setCommand c (gs w)\<rparr>)"
| "fire xchg StopRunning w = Some (w\<lparr>gs := stop_running (gs w)\<rparr>)"
| "fire xchg StopClose w = Some (w\<lparr>gs := stop_close (gs w)\<rparr>)"

text \<open>The exchange a thread step completes, if it does.\<close>

fun completes :: "thread_pc \<Rightarrow> nat" where
  "completes (Publishing c s t r) = 1"
| "completes _ = 0"

inductive wstep :: "'l exchange_op \<Rightarrow> 'l world \<Rightarrow> event \<Rightarrow> nat \<Rightarrow> 'l world \<Rightarrow> bool" for xchg where
  thread: "thread_step xchg (clock w) (gs w) = Some g \<Longrightarrow>
     wstep xchg w ThreadStep (completes (pc (gs w))) (w\<lparr>gs := g\<rparr>)"
| tick: "wstep xchg w (Tick d) 0 (w\<lparr>clock := clock w + int d\<rparr>)"
| sets: "wstep xchg w (CommanderSets c) 0 (w\<lparr>gs := gs_setCommand c (gs w)\<rparr>)"
| stop_run: "wstep xchg w StopRunning 0 (w\<lparr>gs := stop_running (gs w)\<rparr>)"
| stop_cls: "wstep xchg w StopClose 0 (w\<lparr>gs := stop_close (gs w)\<rparr>)"

inductive_cases wstep_threadE: "wstep xchg w ThreadStep n w'"
inductive_cases wstep_tickE: "wstep xchg w (Tick d) n w'"
inductive_cases wstep_setsE: "wstep xchg w (CommanderSets c) n w'"
inductive_cases wstep_runE: "wstep xchg w StopRunning n w'"
inductive_cases wstep_clsE: "wstep xchg w StopClose n w'"
lemmas wstep_cases = wstep_threadE wstep_tickE wstep_setsE wstep_runE wstep_clsE

inductive runs :: "'l exchange_op \<Rightarrow> (event \<Rightarrow> bool) \<Rightarrow> 'l world \<Rightarrow> nat \<Rightarrow> 'l world \<Rightarrow> bool"
  for xchg and ok and w where
  refl: "runs xchg ok w 0 w"
| step: "runs xchg ok w n v \<Longrightarrow> wstep xchg v e k u \<Longrightarrow> ok e \<Longrightarrow> runs xchg ok w (n + k) u"

abbreviation any_event :: "event \<Rightarrow> bool" where
  "any_event \<equiv> (\<lambda>_. True)"

fun no_commander :: "event \<Rightarrow> bool" where
  "no_commander (CommanderSets c) = False"
| "no_commander _ = True"

lemma fire_wstep: "fire xchg e w = Some w' \<longleftrightarrow> (\<exists>n. wstep xchg w e n w')"
  by (cases e) (auto elim: wstep_cases intro: wstep.intros)

section \<open>One thread step, by where the thread stands\<close>

lemmas step_defs = thread_step_def note_success_def Let_def

lemma thread_step_image:
  assumes "thread_step xchg now g = Some g'"
  shows "img g' = (case pc g of Publishing c s t r \<Rightarrow> image_publish c s t (img g) | _ \<Rightarrow> img g)"
  using assms by (auto simp: step_defs split: thread_pc.splits prod.splits sum.splits if_splits)

lemma thread_step_running:
  "thread_step xchg now g = Some g' \<Longrightarrow> running g' = running g"
  by (auto simp: step_defs split: thread_pc.splits prod.splits sum.splits if_splits)

lemma thread_step_period:
  "thread_step xchg now g = Some g' \<Longrightarrow> cyclePeriod g' = cyclePeriod g"
  by (auto simp: step_defs split: thread_pc.splits prod.splits sum.splits if_splits)

lemma other_ops_frame [simp]:
  "pc (gs_setCommand c g) = pc g" "pc (stop_running g) = pc g" "pc (stop_close g) = pc g"
  "connectionState (gs_setCommand c g) = connectionState g"
  "connectionState (stop_running g) = connectionState g"
  "connectionState (stop_close g) = connectionState g"
  "consecutiveFailures (gs_setCommand c g) = consecutiveFailures g"
  "consecutiveFailures (stop_running g) = consecutiveFailures g"
  "consecutiveFailures (stop_close g) = consecutiveFailures g"
  "nextCycle (gs_setCommand c g) = nextCycle g" "nextCycle (stop_running g) = nextCycle g"
  "nextCycle (stop_close g) = nextCycle g"
  "cyclePeriod (gs_setCommand c g) = cyclePeriod g" "cyclePeriod (stop_running g) = cyclePeriod g"
  "cyclePeriod (stop_close g) = cyclePeriod g"
  "client (gs_setCommand c g) = client g" "client (stop_running g) = client g"
  "client (stop_close g) = client g"
  "running (gs_setCommand c g) = running g" "running (stop_running g) = False"
  "running (stop_close g) = running g"
  "stamped (img (gs_setCommand c g)) = stamped (img g)"
  "stamped (img (stop_running g)) = stamped (img g)"
  "stamped (img (stop_close g)) = stamped (img g)"
  "imgCommand (img (gs_setCommand c g)) = c"
  "imgCommand (img (stop_running g)) = imgCommand (img g)"
  "imgCommand (img (stop_close g)) = imgCommand (img g)"
  by (simp_all add: gs_setCommand_def stop_running_def stop_close_def image_simps)

section \<open>Counting\<close>

abbreviation record_of :: "'l world \<Rightarrow> StampedExchange" where
  "record_of w \<equiv> stamped (img (gs w))"

lemma wstep_count: "wstep xchg w e n w' \<Longrightarrow> countOf (record_of w') = countOf (record_of w) + of_nat n"
  by (induction rule: wstep.induct)
     (auto simp: image_simps dest!: thread_step_image split: thread_pc.splits)

lemma runs_count: "runs xchg ok w n w' \<Longrightarrow> countOf (record_of w') = countOf (record_of w) + of_nat n"
  by (induction rule: runs.induct) (auto simp: wstep_count)

lemma wstep_clock: "wstep xchg w e n w' \<Longrightarrow> clock w \<le> clock w'"
  by (induction rule: wstep.induct) auto

lemma runs_clock: "runs xchg ok w n w' \<Longrightarrow> clock w \<le> clock w'"
  by (induction rule: runs.induct) (auto dest: wstep_clock)

lemma wstep_period: "wstep xchg w e n w' \<Longrightarrow> cyclePeriod (gs w') = cyclePeriod (gs w)"
  by (induction rule: wstep.induct) (auto dest: thread_step_period)

section \<open>The connection state\<close>

text \<open>
  Once construction has seeded the image the link is Operational or Faulted, it is
  Operational only with fewer than three failures in a row, and a thread about to publish,
  or that just did, has already turned the state.
\<close>

definition connection_inv :: "'l GripperState \<Rightarrow> bool" where
  "connection_inv g \<longleftrightarrow>
     connectionState g \<in> {Operational, Faulted} \<and>
     (connectionState g = Operational \<longrightarrow> unat (consecutiveFailures g) < kFaultThreshold) \<and>
     (case pc g of Publishing c s t r \<Rightarrow> connectionState g = Operational
      | Published r \<Rightarrow> connectionState g = Operational | _ \<Rightarrow> True)"

lemma note_failure_connection:
  "connectionState (note_failure g) =
     (if kFaultThreshold \<le> unat (consecutiveFailures g + 1) then Faulted else connectionState g)"
  "consecutiveFailures (note_failure g) = consecutiveFailures g + 1"
  by (simp_all add: note_failure_def add_log_def Let_def)

lemma thread_step_connection:
  assumes "thread_step xchg now g = Some g'" and "connection_inv g"
  shows "connection_inv g'"
proof (cases "pc g")
  case (ExchangeFailed e)
  with assms show ?thesis
    by (cases "kFaultThreshold \<le> unat (consecutiveFailures g + 1)")
       (auto simp: connection_inv_def step_defs note_failure_connection not_le)
next
  case (OnWire c)
  with assms show ?thesis
    by (auto simp: connection_inv_def step_defs split: prod.splits sum.splits)
qed (use assms in \<open>auto simp: connection_inv_def step_defs kFaultThreshold_def split: if_splits\<close>)

lemma wstep_connection: "wstep xchg w e n w' \<Longrightarrow> connection_inv (gs w) \<Longrightarrow> connection_inv (gs w')"
proof (induction rule: wstep.induct)
  case (thread w g)
  then show ?case by (simp add: thread_step_connection)
qed (auto simp: connection_inv_def split: thread_pc.splits)

lemma runs_connection:
  "runs xchg ok w n w' \<Longrightarrow> connection_inv (gs w) \<Longrightarrow> connection_inv (gs w')"
  by (induction rule: runs.induct) (auto intro: wstep_connection)

section \<open>Time stamps\<close>

definition stamp_inv :: "'l world \<Rightarrow> bool" where
  "stamp_inv w \<longleftrightarrow>
     timestamp (metadata (record_of w)) \<le> clock w \<and>
     (case pc (gs w) of
        Answered c s t \<Rightarrow> timestamp (metadata (record_of w)) \<le> t \<and> t \<le> clock w
      | Publishing c s t r \<Rightarrow> timestamp (metadata (record_of w)) \<le> t \<and> t \<le> clock w
      | _ \<Rightarrow> True)"

lemma wstep_stamp: "wstep xchg w e n w' \<Longrightarrow> stamp_inv w \<Longrightarrow> stamp_inv w'"
proof (induction rule: wstep.induct)
  case (thread w g)
  then show ?case
    by (auto simp: stamp_inv_def step_defs image_simps
        split: thread_pc.splits prod.splits sum.splits if_splits)
qed (auto simp: stamp_inv_def split: thread_pc.splits)

lemma wstep_stamp_mono:
  "wstep xchg w e n w' \<Longrightarrow> stamp_inv w \<Longrightarrow>
     timestamp (metadata (record_of w)) \<le> timestamp (metadata (record_of w'))"
  by (induction rule: wstep.induct)
     (auto simp: stamp_inv_def image_simps dest!: thread_step_image split: thread_pc.splits)

lemma runs_stamp: "runs xchg ok w n w' \<Longrightarrow> stamp_inv w \<Longrightarrow> stamp_inv w'"
  by (induction rule: runs.induct) (auto intro: wstep_stamp)

lemma runs_stamp_mono:
  assumes "runs xchg ok w n w'" and "stamp_inv w"
  shows "timestamp (metadata (record_of w)) \<le> timestamp (metadata (record_of w'))"
  using assms
proof (induction rule: runs.induct)
  case (step n v e k u)
  then show ?case using runs_stamp [of xchg ok w n v] wstep_stamp_mono [of xchg v e k u] by auto
qed simp

section \<open>Pacing\<close>

text \<open>Exchanges completed since the thread started at \<open>t0\<close>, against its schedule.\<close>

definition pace_inv :: "time \<Rightarrow> nat \<Rightarrow> 'l world \<Rightarrow> bool" where
  "pace_inv t0 n w \<longleftrightarrow>
     0 \<le> cyclePeriod (gs w) \<and>
     (case pc (gs w) of NotStarted \<Rightarrow> False | _ \<Rightarrow> True) \<and>
     t0 + (int n - (case pc (gs w) of Published r \<Rightarrow> 1 | Pacing \<Rightarrow> 1 | _ \<Rightarrow> 0)) * cyclePeriod (gs w)
       \<le> nextCycle (gs w) \<and>
     nextCycle (gs w) \<le> clock w + (case pc (gs w) of Sleeping \<Rightarrow> cyclePeriod (gs w)
                                    | Finished \<Rightarrow> cyclePeriod (gs w) | _ \<Rightarrow> 0)"

lemma wstep_pace:
  "wstep xchg w e k w' \<Longrightarrow> pace_inv t0 n w \<Longrightarrow> pace_inv t0 (n + k) w'"
proof (induction rule: wstep.induct)
  case (thread w g)
  then show ?case
    by (cases "pc (gs w)")
       (auto simp: pace_inv_def step_defs image_simps algebra_simps
        split: prod.splits sum.splits if_splits)
qed (auto simp: pace_inv_def split: thread_pc.splits)

lemma runs_pace:
  assumes "runs xchg ok w n w'" and "pace_inv t0 k w"
  shows "pace_inv t0 (k + n) w'"
  using assms
proof (induction rule: runs.induct)
  case (step n v e j u)
  then show ?case using wstep_pace [of xchg v e j u t0 "k + n"] by (simp add: add.assoc)
qed simp

section \<open>The written sequence and the steps\<close>

lemma exchangeOnce_steps_success:
  assumes "pc g = LatchCommand" and "exchangeOnce xchg now g = (Inr (), g')"
  shows "thread_steps xchg now 5 g = Some (g'\<lparr>pc := Pacing\<rparr>)"
proof -
  from assms(2) obtain s l where x: "xchg (client g) (image_command (img g)) = (Inr s, l)"
    by (auto simp: exchangeOnce_def Let_def split: prod.splits sum.splits)
  with assms(2) have g': "g' = log_recovered (connectionState g = Faulted)
      (g\<lparr>client := l, consecutiveFailures := 0, connectionState := Operational,
         img := image_publish (image_command (img g)) s now (img g)\<rparr>)"
    by (simp add: exchangeOnce_def note_success_def Let_def)
  have p: "log_recovered r (h\<lparr>pc := q\<rparr>) = (log_recovered r h)\<lparr>pc := q\<rparr>"
    for r and h :: "'a GripperState" and q
    by (cases h) (simp add: log_recovered_def add_log_def)
  have q: "(log_recovered r h)\<lparr>pc := q\<rparr> = log_recovered r (h\<lparr>pc := q\<rparr>)"
    for r and h :: "'a GripperState" and q
    by (simp add: p)
  from assms(1) show ?thesis
    by (simp add: x g' numeral_eq_Suc step_defs q)
qed

lemma exchangeOnce_steps_failure:
  assumes "pc g = LatchCommand" and "exchangeOnce xchg now g = (Inl e, g')"
  shows "thread_steps xchg now 4 g = Some ((log_cycle_failure now e g')\<lparr>pc := Pacing\<rparr>)"
proof -
  from assms(2) obtain l where x: "xchg (client g) (image_command (img g)) = (Inl e, l)"
    by (auto simp: exchangeOnce_def Let_def split: prod.splits sum.splits)
  with assms(2) have g': "g' = note_failure (g\<lparr>client := l\<rparr>)" by (simp add: exchangeOnce_def)
  have p: "log_cycle_failure now e (h\<lparr>pc := q\<rparr>) = (log_cycle_failure now e h)\<lparr>pc := q\<rparr>"
    for h :: "'a GripperState" and q
    by (cases h) (simp add: log_cycle_failure_def add_log_def Let_def split_beta)
  from assms(1) show ?thesis
    by (simp add: x g' numeral_eq_Suc step_defs note_failure_pc p)
qed

section \<open>Faulted exactly after three failures in a row\<close>

text \<open>One cycle after another, at the instants given; \<open>True\<close> for each that succeeded.\<close>

fun cycles :: "'l exchange_op \<Rightarrow> time list \<Rightarrow> 'l GripperState \<Rightarrow> bool list \<times> 'l GripperState" where
  "cycles xchg [] g = ([], g)"
| "cycles xchg (t # ts) g =
     (case exchangeOnce xchg t g of
        (Inr u, g1) \<Rightarrow> (let (os, g2) = cycles xchg ts g1 in (True # os, g2))
      | (Inl e, g1) \<Rightarrow> (let (os, g2) = cycles xchg ts (log_cycle_failure t e g1) in (False # os, g2)))"

text \<open>How many of the latest outcomes are failures, counting on from \<open>k\<close>.\<close>

definition failures_in_a_row :: "nat \<Rightarrow> bool list \<Rightarrow> nat" where
  "failures_in_a_row k os = foldl (\<lambda>n ok. if ok then 0 else n + 1) k os"

definition fault_count :: "nat \<Rightarrow> 'l GripperState \<Rightarrow> bool" where
  "fault_count k g \<longleftrightarrow>
     consecutiveFailures g = of_nat k \<and>
     connectionState g = (if kFaultThreshold \<le> k then Faulted else Operational)"

lemma exchangeOnce_fault_count:
  assumes "fault_count k g"
  shows "exchangeOnce xchg t g = (Inr u, g1) \<Longrightarrow> fault_count 0 g1"
    and "exchangeOnce xchg t g = (Inl e, g1) \<Longrightarrow> fault_count (k + 1) (log_cycle_failure t e g1)"
proof -
  assume "exchangeOnce xchg t g = (Inr u, g1)"
  then show "fault_count 0 g1"
    by (auto simp: exchangeOnce_def note_success_def fault_count_def kFaultThreshold_def Let_def
        split: prod.splits sum.splits)
next
  assume "exchangeOnce xchg t g = (Inl e, g1)"
  then obtain l where g1: "g1 = note_failure (g\<lparr>client := l\<rparr>)"
    by (auto simp: exchangeOnce_def Let_def split: prod.splits sum.splits)
  have w: "unat (of_nat (k + 1) :: u32) = k + 1" if "k < 3"
  proof -
    from that have "k = 0 \<or> k = 1 \<or> k = 2" by arith
    then show ?thesis by auto
  qed
  show "fault_count (k + 1) (log_cycle_failure t e g1)"
  proof (cases "k < 3")
    case True
    with assms w [OF True] show ?thesis
      by (simp add: g1 fault_count_def note_failure_connection kFaultThreshold_def add.commute)
  next
    case False
    with assms show ?thesis
      by (simp add: g1 fault_count_def note_failure_connection kFaultThreshold_def)
  qed
qed

lemma cycles_fault_count:
  assumes "fault_count k g" and "cycles xchg ts g = (os, g')"
  shows "fault_count (failures_in_a_row k os) g'"
  using assms
proof (induction ts arbitrary: k g os)
  case Nil
  then show ?case by (simp add: failures_in_a_row_def)
next
  case (Cons t ts)
  show ?case
  proof (cases "exchangeOnce xchg t g")
    case (Pair r g1)
    show ?thesis
    proof (cases r)
      case (Inl e)
      with Cons.prems Pair obtain os' where
        c: "cycles xchg ts (log_cycle_failure t e g1) = (os', g')" and os: "os = False # os'"
        by (auto split: prod.splits)
      have "fault_count (k + 1) (log_cycle_failure t e g1)"
        using exchangeOnce_fault_count(2) [OF Cons.prems(1)] Pair Inl by simp
      from Cons.IH [OF this c] show ?thesis by (simp add: os failures_in_a_row_def)
    next
      case (Inr u)
      with Cons.prems Pair obtain os' where
        c: "cycles xchg ts g1 = (os', g')" and os: "os = True # os'"
        by (auto split: prod.splits)
      have "fault_count 0 g1"
        using exchangeOnce_fault_count(1) [OF Cons.prems(1)] Pair Inr by simp
      from Cons.IH [OF this c] show ?thesis by (simp add: os failures_in_a_row_def)
    qed
  qed
qed

section \<open>A command reaches the wire within two exchanges\<close>

text \<open>
  With no other commander, \<open>k\<close> exchanges after the image took \<open>c\<close>: from the first on, what
  is in flight is \<open>c\<close>; from the second on, the record carries it.
\<close>

definition carried :: "GripperCommand \<Rightarrow> nat \<Rightarrow> 'l world \<Rightarrow> bool" where
  "carried c k w \<longleftrightarrow>
     imgCommand (img (gs w)) = c \<and>
     (1 \<le> k \<longrightarrow> (case pc (gs w) of OnWire d \<Rightarrow> d = c | Answered d s t \<Rightarrow> d = c
                  | Publishing d s t r \<Rightarrow> d = c | _ \<Rightarrow> True)) \<and>
     (2 \<le> k \<longrightarrow> xCommand (record_of w) = c)"

lemma wstep_carried:
  "wstep xchg w e n w' \<Longrightarrow> no_commander e \<Longrightarrow> carried c k w \<Longrightarrow> carried c (k + n) w'"
proof (induction rule: wstep.induct)
  case (thread w g)
  then show ?case
    by (cases "pc (gs w)")
       (auto simp: carried_def step_defs image_simps image_command_def
        split: prod.splits sum.splits if_splits)
qed (auto simp: carried_def split: thread_pc.splits)

lemma runs_carried:
  assumes "runs xchg no_commander w n w'" and "carried c k w"
  shows "carried c (k + n) w'"
  using assms
proof (induction rule: runs.induct)
  case (step n v e j u)
  then show ?case using wstep_carried [of xchg v e j u c "k + n"] by (simp add: add.assoc)
qed simp

section \<open>Stopping\<close>

fun stop_rank :: "thread_pc \<Rightarrow> nat" where
  "stop_rank NotStarted = 0"
| "stop_rank Finished = 0"
| "stop_rank CheckRunning = 1"
| "stop_rank Sleeping = 2"
| "stop_rank Pacing = 3"
| "stop_rank (Published r) = 4"
| "stop_rank (CycleFailed e) = 4"
| "stop_rank (Publishing c s t r) = 5"
| "stop_rank (ExchangeFailed e) = 5"
| "stop_rank (Answered c s t) = 6"
| "stop_rank (OnWire c) = 7"
| "stop_rank LatchCommand = 8"

lemma stop_rank_le: "stop_rank p \<le> 8"
  by (cases p) auto

lemma thread_step_stop_rank:
  assumes "thread_step xchg now g = Some g'" and "\<not> running g"
  shows "stop_rank (pc g') < stop_rank (pc g)"
  using assms
  by (cases "pc g") (auto simp: step_defs split: prod.splits sum.splits if_splits)

lemma thread_step_blocked:
  assumes "thread_step xchg now g = None"
  shows "pc g \<in> {NotStarted, Finished} \<or> pc g = Sleeping \<and> now < nextCycle g"
  using assms
  by (cases "pc g") (auto simp: step_defs split: prod.splits sum.splits if_splits)

lemma thread_step_next:
  assumes "thread_step xchg now g = Some g'"
  shows "pc g' \<noteq> NotStarted"
    and "nextCycle g' = (if pc g = Pacing then max (nextCycle g + cyclePeriod g) now else nextCycle g)"
    and "pc g = Pacing \<longleftrightarrow> pc g' = Sleeping"
  using assms
  by (cases "pc g"; auto simp: step_defs split: prod.splits sum.splits if_splits)+

lemma stopping_thread:
  assumes "\<not> running g" and "pc g \<noteq> NotStarted"
  shows "\<exists>n g'. n \<le> stop_rank (pc g) \<and> thread_steps xchg now n g = Some g' \<and>
           (pc g' = Finished \<or> pc g' = Sleeping \<and> now < nextCycle g')"
  using assms
proof (induction "stop_rank (pc g)" arbitrary: g rule: less_induct)
  case less
  show ?case
  proof (cases "thread_step xchg now g")
    case None
    from thread_step_blocked [OF None] less.prems(2) show ?thesis
      by (intro exI [of _ 0] exI [of _ g]) auto
  next
    case (Some h)
    note rank = thread_step_stop_rank [OF Some less.prems(1)]
    obtain n g' where n: "n \<le> stop_rank (pc h)" and run: "thread_steps xchg now n h = Some g'"
      and e: "pc g' = Finished \<or> pc g' = Sleeping \<and> now < nextCycle g'"
      using less.hyps [OF rank] less.prems(1) thread_step_running [OF Some] thread_step_next(1) [OF Some]
      by auto
    from n rank run e show ?thesis
      by (intro exI [of _ "Suc n"] exI [of _ g']) (simp add: Some)
  qed
qed

section \<open>What a link promises\<close>

text \<open>
  \<open>R c s\<close> holds of every answer \<open>s\<close> to a command \<open>c\<close>, as long as the link's own invariant
  does, and the exchange keeps that invariant. Then \<open>R\<close> holds of every record after the seed.
\<close>

locale exchange_link =
  fixes xchg :: "'l exchange_op" and linv :: "'l \<Rightarrow> bool"
    and R :: "GripperCommand \<Rightarrow> GripperStatus \<Rightarrow> bool"
  assumes keeps: "linv l \<Longrightarrow> linv (snd (xchg l c))"
    and answers: "linv l \<Longrightarrow> xchg l c = (Inr s, l') \<Longrightarrow> R c s"
begin

definition link_inv :: "'l world \<Rightarrow> bool" where
  "link_inv w \<longleftrightarrow>
     linv (client (gs w)) \<and>
     (case pc (gs w) of Answered c s t \<Rightarrow> R c s | Publishing c s t r \<Rightarrow> R c s | _ \<Rightarrow> True) \<and>
     (countOf (record_of w) \<noteq> 0 \<longrightarrow> R (xCommand (record_of w)) (xStatus (record_of w)))"

lemma wstep_link: "wstep xchg w e n w' \<Longrightarrow> link_inv w \<Longrightarrow> link_inv w'"
proof (induction rule: wstep.induct)
  case (thread w g)
  show ?case
  proof (cases "pc (gs w)")
    case (OnWire c)
    with thread keeps [of "client (gs w)" c] show ?thesis
      by (auto simp: link_inv_def step_defs split: prod.splits sum.splits dest: answers)
  qed (use thread in \<open>auto simp: link_inv_def step_defs image_simps
         split: if_splits\<close>)
qed (auto simp: link_inv_def split: thread_pc.splits)

lemma runs_link: "runs xchg ok w n w' \<Longrightarrow> link_inv w \<Longrightarrow> link_inv w'"
  by (induction rule: runs.induct) (auto intro: wstep_link)

lemma record_answers:
  assumes "runs xchg ok w n w'" and "link_inv w" and "countOf (record_of w') \<noteq> 0"
  shows "R (xCommand (record_of w')) (xStatus (record_of w'))"
  using runs_link [OF assms(1,2)] assms(3) by (simp add: link_inv_def)

end

section \<open>The world a constructor leaves\<close>

text \<open>\<open>Gripper::Gripper\<close> once the client exists: seed the image, then start the thread.\<close>

definition launch :: "'l read_op \<Rightarrow> time \<Rightarrow> time \<Rightarrow> 'l GripperState \<Rightarrow> exc + 'l world" where
  "launch rd seeded started g =
     (case initializeImage rd seeded g of
        (Inl e, g1) \<Rightarrow> Inl e
      | (Inr u, g1) \<Rightarrow> Inr \<lparr>clock = started, gs = start started g1\<rparr>)"

lemma initial_read_frame:
  "initial_read rd n g = (r, g') \<Longrightarrow>
     cyclePeriod g' = cyclePeriod g \<and> consecutiveFailures g' = consecutiveFailures g \<and> img g' = img g \<and>
     connectionState g' = connectionState g"
  by (induction rd n g rule: initial_read.induct)
     (auto split: prod.splits sum.splits exc.splits if_splits)

lemma launch_start:
  assumes "launch rd seeded started (GripperState_create l p im) = Inr w"
  shows "\<exists>fresh. clock w = started \<and>
     pc (gs w) = CheckRunning \<and> running (gs w) \<and> nextCycle (gs w) = started \<and>
     cyclePeriod (gs w) = p \<and> consecutiveFailures (gs w) = 0 \<and>
     connectionState (gs w) = Operational \<and>
     img (gs w) = image_seed fresh seeded (seed_command fresh) im"
proof -
  from assms obtain fresh g1 where
    r: "initial_read rd kInitialReadAttempts (GripperState_create l p im) = (Inr fresh, g1)"
    and w: "w = \<lparr>clock = started,
       gs = start started (g1\<lparr>img := image_seed fresh seeded (seed_command fresh) (img g1),
                     connectionState := Operational\<rparr>)\<rparr>"
    by (auto simp: launch_def initializeImage_def split: prod.splits sum.splits)
  from initial_read_frame [OF r] show ?thesis
    by (intro exI [of _ fresh]) (simp add: w start_def GripperState_create_def)
qed

section \<open>The retried first read\<close>

text \<open>The answer to read number \<open>k\<close> of a row of reads.\<close>

fun nth_read :: "'l read_op \<Rightarrow> nat \<Rightarrow> 'l \<Rightarrow> (exc + GripperStatus) \<times> 'l" where
  "nth_read rd 0 l = rd l"
| "nth_read rd (Suc k) l = nth_read rd k (snd (rd l))"

text \<open>Reads \<open>0\<close> to \<open>k - 1\<close> fail with an exception the loop catches.\<close>

fun reads_fail :: "'l read_op \<Rightarrow> nat \<Rightarrow> 'l \<Rightarrow> bool" where
  "reads_fail rd 0 l = True"
| "reads_fail rd (Suc k) l =
     ((case fst (rd l) of Inl e \<Rightarrow> e \<noteq> UnknownException | Inr s \<Rightarrow> False) \<and> reads_fail rd k (snd (rd l)))"

text \<open>What the log says of a failed attempt, and the exception after the last one.\<close>

definition read_error :: "'l read_op \<Rightarrow> 'l \<Rightarrow> nat \<Rightarrow> string" where
  "read_error rd l i = (case fst (nth_read rd i l) of Inl e \<Rightarrow> exc_what e | Inr s \<Rightarrow> [])"

definition attempt_line :: "nat \<Rightarrow> string \<Rightarrow> log_line" where
  "attempt_line k e = (Warn, ''initial status read attempt '' @ to_string k @ '' of 3 failed: '' @ e)"

definition no_answer :: "string \<Rightarrow> exc" where
  "no_answer e = DriverException
     (''no gripper answered the initial status read (is it powered, and do its baud rate and Modbus slave ''
      @ ''address match this connection?) '' @ em_dash @ '' last attempt: '' @ e)"

lemma initial_read_result:
  assumes "initial_read rd n g = (r, g')" and "0 < n"
  shows "\<exists>k a. k < n \<and> reads_fail rd k (client g) \<and> nth_read rd k (client g) = (a, client g') \<and>
    logLines g' = logLines g @
      map (\<lambda>i. attempt_line (kInitialReadAttempts - (n - Suc i)) (read_error rd (client g) i)) [0..<k] \<and>
    (case a of
       Inr fresh \<Rightarrow> r = Inr fresh
     | Inl e \<Rightarrow> if e = UnknownException then r = Inl UnknownException
               else k = n - 1 \<and> r = Inl (no_answer (exc_what e)))"
  using assms
proof (induction rd n g rule: initial_read.induct)
  case (2 rd left g)
  obtain a l where rd: "rd (client g) = (a, l)" by (cases "rd (client g)")
  show ?case
  proof (cases "\<exists>e. a = Inl e \<and> e \<noteq> UnknownException \<and> left \<noteq> 0")
    case False
    have "nth_read rd 0 (client g) = (a, l) \<and> client g' = l \<and> logLines g' = logLines g \<and>
      (case a of Inr fresh \<Rightarrow> r = Inr fresh
       | Inl e \<Rightarrow> if e = UnknownException then r = Inl UnknownException
                 else 0 = left \<and> r = Inl (no_answer (exc_what e)))"
      using 2 rd False
      by (auto simp: no_answer_def split: sum.splits exc.splits if_splits)
    then show ?thesis by (intro exI [of _ 0] exI [of _ a]) (auto split: sum.splits)
  next
    case True
    then obtain e where e: "a = Inl e" "e \<noteq> UnknownException" "left \<noteq> 0" by blast
    define h where "h = log_read_failure left e (g\<lparr>client := l\<rparr>)"
    have three: "to_string kInitialReadAttempts = ''3''"
      by (simp add: kInitialReadAttempts_def to_string_digit digit_char_def)
    have h: "client h = l"
      "logLines h = logLines g @ [attempt_line (kInitialReadAttempts - left) (read_error rd (client g) 0)]"
      using rd e three by (simp_all add: h_def log_read_failure_def add_log_def attempt_line_def read_error_def)
    have run: "initial_read rd left h = (r, g')"
      using 2 rd e by (cases e) (auto simp: h_def)
    have "\<exists>k b. k < left \<and> reads_fail rd k (client h) \<and> nth_read rd k (client h) = (b, client g') \<and>
      logLines g' = logLines h @
         map (\<lambda>i. attempt_line (kInitialReadAttempts - (left - Suc i)) (read_error rd (client h) i)) [0..<k] \<and>
      (case b of Inr fresh \<Rightarrow> r = Inr fresh
       | Inl e \<Rightarrow> if e = UnknownException then r = Inl UnknownException
                 else k = left - 1 \<and> r = Inl (no_answer (exc_what e)))" (is ?ih)
    proof -
      have "0 < left" using e(3) by simp
      show ?ih
      proof (cases e)
        case (DriverException d)
        show ?thesis
          by (rule "2.IH"(1) [OF rd [symmetric] e(1) DriverException e(3), folded DriverException e(1), OF run [unfolded h_def]
                \<open>0 < left\<close>, folded h_def])
      next
        case (SerialIOException d)
        show ?thesis
          by (rule "2.IH"(2) [OF rd [symmetric] e(1) SerialIOException e(3), folded SerialIOException e(1), OF run [unfolded h_def]
                \<open>0 < left\<close>, folded h_def])
      qed (use e(2) in simp)
    qed
    then obtain k b where k: "k < left" "reads_fail rd k l" "nth_read rd k l = (b, client g')"
      "logLines g' = logLines h @
         map (\<lambda>i. attempt_line (kInitialReadAttempts - (left - Suc i)) (read_error rd l i)) [0..<k]"
      "case b of Inr fresh \<Rightarrow> r = Inr fresh
       | Inl e \<Rightarrow> if e = UnknownException then r = Inl UnknownException
                 else k = left - 1 \<and> r = Inl (no_answer (exc_what e))"
      unfolding h(1) by blast
    have err: "read_error rd (client g) (Suc i) = read_error rd l i" for i
      by (simp add: read_error_def rd)
    have upt: "[0..<Suc k] = 0 # map Suc [0..<k]" by (simp add: map_Suc_upt upt_conv_Cons)
    have "logLines g' = logLines g @
        map (\<lambda>i. attempt_line (kInitialReadAttempts - (Suc left - Suc i)) (read_error rd (client g) i)) [0..<Suc k]"
      unfolding upt by (simp add: k(4) h(2) err comp_def)
    moreover have "reads_fail rd (Suc k) (client g)" "nth_read rd (Suc k) (client g) = (b, client g')"
      using k(2,3) rd e(1,2) by simp_all
    moreover have "case b of Inr fresh \<Rightarrow> r = Inr fresh
       | Inl e \<Rightarrow> if e = UnknownException then r = Inl UnknownException
                 else Suc k = Suc left - 1 \<and> r = Inl (no_answer (exc_what e))"
      using k(1,5) by (cases b) (auto split: if_splits)
    moreover have "Suc k < Suc left" using k(1) by simp
    ultimately show ?thesis by blast
  qed
qed simp

end
