(* ===== verification/Schedule.thy ===== *)
theory Schedule
  imports Exchange "HOL-Library.Sublist"
begin

text \<open>
  A caller among the threads. The caller runs against a schedule: a list of blocks, each the
  events of the other threads and of the clock between two of the caller's accesses to shared
  state. Every access (a lock taken, the clock read) consumes one block first; a caller that
  is still blocked or looping when the schedule ends has not returned, and its value is
  \<open>None\<close>. A block may be empty and may hold any events, so every interleaving of the code is
  a schedule; an event that is not enabled when its turn comes is skipped.
\<close>

type_synonym 'l sched_run = "'l world \<times> event list list"

fun run_block :: "'l exchange_op \<Rightarrow> event list \<Rightarrow> 'l world \<Rightarrow> 'l world" where
  "run_block xchg [] w = w"
| "run_block xchg (e # es) w =
     run_block xchg es (case fire xchg e w of None \<Rightarrow> w | Some w' \<Rightarrow> w')"

fun env :: "'l exchange_op \<Rightarrow> 'l sched_run \<Rightarrow> 'l sched_run option" where
  "env xchg (w, []) = None"
| "env xchg (w, b # bs) = Some (run_block xchg b w, bs)"

text \<open>The exchanges a block completes.\<close>

fun block_exchanges :: "'l exchange_op \<Rightarrow> event list \<Rightarrow> 'l world \<Rightarrow> nat" where
  "block_exchanges xchg [] w = 0"
| "block_exchanges xchg (e # es) w =
     (case fire xchg e w of
        None \<Rightarrow> block_exchanges xchg es w
      | Some w' \<Rightarrow> (if e = ThreadStep then completes (pc (gs w)) else 0) + block_exchanges xchg es w')"

section \<open>What the blocks allow\<close>

definition sched_ok :: "(event \<Rightarrow> bool) \<Rightarrow> 'l sched_run \<Rightarrow> bool" where
  "sched_ok ok r \<longleftrightarrow> list_all (list_all ok) (snd r)"

definition progress :: "'l exchange_op \<Rightarrow> (event \<Rightarrow> bool) \<Rightarrow> 'l sched_run \<Rightarrow> 'l sched_run \<Rightarrow> bool" where
  "progress xchg ok r r' \<longleftrightarrow>
     (\<exists>n. runs xchg ok (fst r) n (fst r') \<and> n + length (concat (snd r')) \<le> length (concat (snd r))) \<and>
     suffix (snd r') (snd r)"

text \<open>The exchange counter has room for every event that is left.\<close>

definition room :: "'l sched_run \<Rightarrow> bool" where
  "room r \<longleftrightarrow> unat (countOf (record_of (fst r))) + length (concat (snd r)) + 1 < 2 ^ 64"

lemma runs_trans:
  assumes "runs xchg ok v m u" and "runs xchg ok w n v"
  shows "runs xchg ok w (n + m) u"
  using assms
proof (induction rule: runs.induct)
  case (step m v' e k u)
  then have "runs xchg ok w (n + m) v'" by simp
  from runs.step [OF this step.hyps(2,3)] show ?case by (simp add: add.assoc)
qed simp

lemma runs_single: "wstep xchg w e n w' \<Longrightarrow> ok e \<Longrightarrow> runs xchg ok w n w'"
  using runs.step [of xchg ok w 0 w e n w'] by (simp add: runs.refl)

lemma runs_mono: "runs xchg ok w n v \<Longrightarrow> (\<And>e. ok e \<Longrightarrow> ok' e) \<Longrightarrow> runs xchg ok' w n v"
  by (induction rule: runs.induct) (auto intro: runs.intros)

lemma progress_refl [simp, intro]: "progress xchg ok r r"
  by (auto simp: progress_def intro!: exI [of _ 0] runs.refl)

lemma progress_trans [trans]:
  "progress xchg ok r s \<Longrightarrow> progress xchg ok s t \<Longrightarrow> progress xchg ok r t"
proof -
  assume "progress xchg ok r s" and "progress xchg ok s t"
  then obtain n m where n: "runs xchg ok (fst r) n (fst s)"
    "n + length (concat (snd s)) \<le> length (concat (snd r))" "suffix (snd s) (snd r)"
    and m: "runs xchg ok (fst s) m (fst t)"
    "m + length (concat (snd t)) \<le> length (concat (snd s))" "suffix (snd t) (snd s)"
    by (auto simp: progress_def)
  from runs_trans [OF m(1) n(1)] n(2,3) m(2,3) show "progress xchg ok r t"
    unfolding progress_def by (intro conjI exI [of _ "n + m"]) (auto intro: suffix_order.trans)
qed

lemma progress_mono:
  "progress xchg ok r r' \<Longrightarrow> (\<And>e. ok e \<Longrightarrow> ok' e) \<Longrightarrow> progress xchg ok' r r'"
  unfolding progress_def by (blast intro: runs_mono)

lemma progress_sched_ok: "progress xchg ok r r' \<Longrightarrow> sched_ok ok' r \<Longrightarrow> sched_ok ok' r'"
  by (auto simp: progress_def sched_ok_def suffix_def)

lemma sched_ok_any [simp]: "sched_ok any_event r"
  by (simp add: sched_ok_def list_all_iff)

lemma completes_le: "completes p \<le> 1"
  by (cases p) auto

lemma fire_runs:
  assumes "fire xchg e w = Some w'" and "ok e"
  shows "runs xchg ok w (if e = ThreadStep then completes (pc (gs w)) else 0) w'"
proof -
  from assms(1) obtain n where n: "wstep xchg w e n w'" by (auto simp: fire_wstep)
  then have "n = (if e = ThreadStep then completes (pc (gs w)) else 0)" by cases simp_all
  with runs_single [of xchg w e n w' ok] n assms(2) show ?thesis by simp
qed

lemma run_block_counts:
  "list_all ok b \<Longrightarrow> runs xchg ok w (block_exchanges xchg b w) (run_block xchg b w)"
proof (induction b arbitrary: w)
  case Nil
  show ?case by (auto intro: runs.refl)
next
  case (Cons e es)
  show ?case
  proof (cases "fire xchg e w")
    case None
    with Cons show ?thesis by simp
  next
    case (Some v)
    have a: "runs xchg ok w (if e = ThreadStep then completes (pc (gs w)) else 0) v"
      by (rule fire_runs [OF Some]) (use Cons.prems in simp)
    have "runs xchg ok v (block_exchanges xchg es v) (run_block xchg es v)"
      by (rule Cons.IH) (use Cons.prems in simp)
    from runs_trans [OF this a] show ?thesis unfolding run_block.simps block_exchanges.simps Some by simp
  qed
qed

lemma block_exchanges_le: "block_exchanges xchg b w \<le> length b"
proof (induction b arbitrary: w)
  case (Cons e es)
  show ?case
  proof (cases "fire xchg e w")
    case None
    with Cons [of w] show ?thesis by simp
  next
    case (Some v)
    with Cons [of v] completes_le [of "pc (gs w)"] show ?thesis by simp
  qed
qed simp

lemma run_block_runs:
  "list_all ok b \<Longrightarrow> \<exists>n \<le> length b. runs xchg ok w n (run_block xchg b w)"
  using run_block_counts block_exchanges_le by blast

lemma env_progress: "env xchg r = Some r' \<Longrightarrow> sched_ok ok r \<Longrightarrow> progress xchg ok r r'"
proof (cases "(xchg, r)" rule: env.cases)
  case (2 xchg' w b bs)
  moreover assume "env xchg r = Some r'" and "sched_ok ok r"
  moreover from run_block_runs [of ok b xchg w] 2 \<open>sched_ok ok r\<close> obtain n where
    "n \<le> length b" "runs xchg ok w n (run_block xchg b w)" by (auto simp: sched_ok_def)
  ultimately show ?thesis by (auto simp: progress_def suffix_def)
qed auto

lemma env_length: "env xchg r = Some r' \<Longrightarrow> length (snd r) = Suc (length (snd r'))"
  by (cases "(xchg, r)" rule: env.cases) auto

lemma progress_clock: "progress xchg ok r r' \<Longrightarrow> clock (fst r) \<le> clock (fst r')"
  by (auto simp: progress_def dest: runs_clock)

lemma progress_count:
  assumes "progress xchg ok r r'" and "room r"
  shows "countOf (record_of (fst r)) \<le> countOf (record_of (fst r'))" and "room r'"
proof -
  from assms(1) obtain n where n: "runs xchg ok (fst r) n (fst r')"
    and l: "n + length (concat (snd r')) \<le> length (concat (snd r))" by (auto simp: progress_def)
  have "unat (countOf (record_of (fst r)) + of_nat n) = unat (countOf (record_of (fst r))) + n"
    using assms(2) l by (simp add: room_def unat_word_ariths unat_of_nat take_bit_nat_eq_self)
  with runs_count [OF n] l assms(2)
  show "countOf (record_of (fst r)) \<le> countOf (record_of (fst r'))" and "room r'"
    by (simp_all add: room_def word_le_nat_alt)
qed

lemma progress_length: "progress xchg ok r r' \<Longrightarrow> length (snd r') \<le> length (snd r)"
  by (auto simp: progress_def suffix_def)

lemma wstep_closed: "wstep xchg w e n w' \<Longrightarrow> closed (img (gs w)) \<Longrightarrow> closed (img (gs w'))"
  by (induction rule: wstep.induct)
     (auto simp: gs_setCommand_def stop_running_def stop_close_def image_simps
       dest!: thread_step_image split: thread_pc.splits)

lemma runs_closed: "runs xchg ok w n w' \<Longrightarrow> closed (img (gs w)) \<Longrightarrow> closed (img (gs w'))"
  by (induction rule: runs.induct) (auto intro: wstep_closed)

lemma no_commander_command:
  "runs xchg no_commander w n w' \<Longrightarrow> imgCommand (img (gs w')) = imgCommand (img (gs w))"
  using runs_carried [of xchg w n w' "imgCommand (img (gs w))" 0] by (simp add: carried_def)

lemma progress_command:
  "progress xchg no_commander r r' \<Longrightarrow> imgCommand (img (gs (fst r'))) = imgCommand (img (gs (fst r)))"
  by (auto simp: progress_def dest: no_commander_command)

text \<open>A run without a new exchange leaves the record as it was.\<close>

lemma wstep_same_record: "wstep xchg w e n w' \<Longrightarrow> n = 0 \<Longrightarrow> record_of w' = record_of w"
  by (induction rule: wstep.induct)
     (auto dest!: thread_step_image split: thread_pc.splits)

lemma runs_same_record: "runs xchg ok w n w' \<Longrightarrow> n = 0 \<Longrightarrow> record_of w' = record_of w"
  by (induction rule: runs.induct) (auto dest: wstep_same_record)

lemma progress_same_record:
  assumes "progress xchg ok r r'" and "room r"
    and "countOf (record_of (fst r')) \<le> countOf (record_of (fst r))"
  shows "record_of (fst r') = record_of (fst r)"
proof -
  from assms(1) obtain n where n: "runs xchg ok (fst r) n (fst r')"
    and l: "n + length (concat (snd r')) \<le> length (concat (snd r))" by (auto simp: progress_def)
  have "unat (countOf (record_of (fst r)) + of_nat n) = unat (countOf (record_of (fst r))) + n"
    using assms(2) l by (simp add: room_def unat_word_ariths unat_of_nat take_bit_nat_eq_self)
  with runs_count [OF n] assms(3) have "n = 0" by (simp add: word_le_nat_alt)
  with runs_same_record [OF n] show ?thesis by simp
qed

section \<open>The caller's accesses\<close>

definition clock_now :: "'l exchange_op \<Rightarrow> 'l sched_run \<Rightarrow> (time \<times> 'l sched_run) option" where
  "clock_now xchg r = do { r \<leftarrow> env xchg r; Some (clock (fst r), r) }"

definition Gripper_setCommand ::
  "'l exchange_op \<Rightarrow> GripperCommand \<Rightarrow> 'l sched_run \<Rightarrow> 'l sched_run option" where
  "Gripper_setCommand xchg c r =
     do { (w, bs) \<leftarrow> env xchg r; Some (w\<lparr>gs := gs_setCommand c (gs w)\<rparr>, bs) }"

definition Gripper_getCommand ::
  "'l exchange_op \<Rightarrow> 'l sched_run \<Rightarrow> (GripperCommand \<times> 'l sched_run) option" where
  "Gripper_getCommand xchg r = do { r \<leftarrow> env xchg r; Some (gs_command (gs (fst r)), r) }"

definition Gripper_getStatus ::
  "'l exchange_op \<Rightarrow> 'l sched_run \<Rightarrow> (GripperStatus \<times> 'l sched_run) option" where
  "Gripper_getStatus xchg r = do { r \<leftarrow> env xchg r; Some (gs_status (gs (fst r)), r) }"

definition Gripper_getMostRecentStampedExchange ::
  "'l exchange_op \<Rightarrow> 'l sched_run \<Rightarrow> (StampedExchange \<times> 'l sched_run) option" where
  "Gripper_getMostRecentStampedExchange xchg r =
     do { r \<leftarrow> env xchg r; Some (gs_stampedExchange (gs (fst r)), r) }"

definition Gripper_connectionState ::
  "'l exchange_op \<Rightarrow> 'l sched_run \<Rightarrow> (ConnectionState \<times> 'l sched_run) option" where
  "Gripper_connectionState xchg r =
     do { r \<leftarrow> env xchg r; Some (connectionState (gs (fst r)), r) }"

text \<open>\<open>ProcessImage::sync\<close>: the lock, then the guard, a wait that lets the others run, the guard.\<close>

fun sync_loop ::
  "'l exchange_op \<Rightarrow> u64 \<Rightarrow> time \<Rightarrow> 'l world \<Rightarrow> event list list \<Rightarrow> (StampedExchange \<times> 'l sched_run) option" where
  "sync_loop xchg count deadline w [] =
     (if image_waiting count deadline (clock w) (img (gs w)) then None
      else Some (stamped (img (gs w)), (w, [])))"
| "sync_loop xchg count deadline w (b # bs) =
     (if image_waiting count deadline (clock w) (img (gs w))
      then sync_loop xchg count deadline (run_block xchg b w) bs
      else Some (stamped (img (gs w)), (w, b # bs)))"

definition image_sync ::
  "'l exchange_op \<Rightarrow> u64 \<Rightarrow> time \<Rightarrow> 'l sched_run \<Rightarrow> (StampedExchange \<times> 'l sched_run) option" where
  "image_sync xchg count deadline r =
     do { (w, bs) \<leftarrow> env xchg r; sync_loop xchg count deadline w bs }"

lemma sync_loop_spec:
  assumes "sync_loop xchg count deadline w bs = Some (x, r')" and "list_all (list_all ok) bs"
  shows "progress xchg ok (w, bs) r' \<and> x = record_of (fst r') \<and>
         \<not> image_waiting count deadline (clock (fst r')) (img (gs (fst r')))"
  using assms
proof (induction bs arbitrary: w)
  case Nil
  then show ?case by (auto split: if_splits)
next
  case (Cons b bs)
  show ?case
  proof (cases "image_waiting count deadline (clock w) (img (gs w))")
    case True
    have "progress xchg ok (w, b # bs) (run_block xchg b w, bs)"
      by (rule env_progress) (use Cons.prems in \<open>simp_all add: sched_ok_def\<close>)
    with True Cons show ?thesis by (auto intro: progress_trans)
  next
    case False
    with Cons.prems show ?thesis by auto
  qed
qed

lemma image_sync_spec:
  assumes "image_sync xchg count deadline r = Some (x, r')" and "sched_ok ok r"
  shows "progress xchg ok r r' \<and> x = record_of (fst r') \<and>
         \<not> image_waiting count deadline (clock (fst r')) (img (gs (fst r')))"
proof -
  from assms(1) obtain v where v: "env xchg r = Some v"
    and s: "sync_loop xchg count deadline (fst v) (snd v) = Some (x, r')"
    by (auto simp: image_sync_def bind_eq_Some_conv)
  have p: "progress xchg ok r v" by (rule env_progress [OF v assms(2)])
  from progress_sched_ok [OF p assms(2)] have "list_all (list_all ok) (snd v)"
    by (simp add: sched_ok_def)
  from sync_loop_spec [OF s this] p show ?thesis by (auto intro: progress_trans)
qed

lemma access_progress:
  assumes "sched_ok ok r"
  shows "clock_now xchg r = Some (t, r') \<Longrightarrow> progress xchg ok r r' \<and> t = clock (fst r')"
    and "Gripper_getCommand xchg r = Some (c, r') \<Longrightarrow> progress xchg ok r r' \<and> c = imgCommand (img (gs (fst r')))"
    and "Gripper_getMostRecentStampedExchange xchg r = Some (x, r') \<Longrightarrow>
       progress xchg ok r r' \<and> x = record_of (fst r')"
  using assms
  by (auto simp: clock_now_def Gripper_getCommand_def Gripper_getMostRecentStampedExchange_def
      gs_command_def gs_stampedExchange_def image_command_def image_stampedExchange_def
      bind_eq_Some_conv intro: env_progress)

lemma setCommand_progress:
  assumes "Gripper_setCommand xchg c r = Some r'" and "sched_ok ok r" and "ok (CommanderSets c)"
  shows "progress xchg ok r r'" and "imgCommand (img (gs (fst r'))) = c"
proof -
  from assms(1) obtain w bs where v: "env xchg r = Some (w, bs)"
    and r': "r' = (w\<lparr>gs := gs_setCommand c (gs w)\<rparr>, bs)"
    by (auto simp: Gripper_setCommand_def bind_eq_Some_conv)
  have "progress xchg ok (w, bs) r'"
    using runs_single [of xchg, OF wstep.sets, of ok c w] assms(3)
    by (auto simp: r' progress_def intro!: exI [of _ 0])
  with env_progress [OF v assms(2)] show "progress xchg ok r r'" by (rule progress_trans)
  show "imgCommand (img (gs (fst r'))) = c" by (simp add: r')
qed

text \<open>
  A run in which the caller sets exactly the commands \<open>cs\<close>, in this order, and nobody else sets one.
\<close>

definition commanded :: "GripperCommand \<Rightarrow> 'l sched_run \<Rightarrow> 'l sched_run" where
  "commanded c r = ((fst r)\<lparr>gs := gs_setCommand c (gs (fst r))\<rparr>, snd r)"

primrec commands :: "'l exchange_op \<Rightarrow> GripperCommand list \<Rightarrow> 'l sched_run \<Rightarrow> 'l sched_run \<Rightarrow> bool" where
  "commands xchg [] r r' = progress xchg no_commander r r'"
| "commands xchg (c # cs) r r' = (\<exists>m. progress xchg no_commander r m \<and> commands xchg cs (commanded c m) r')"

lemma progress_commands:
  "progress xchg no_commander r m \<Longrightarrow> commands xchg cs m r' \<Longrightarrow> commands xchg cs r r'"
  by (cases cs) (auto intro: progress_trans)

lemma setCommand_commands:
  assumes "Gripper_setCommand xchg c r = Some m" and "sched_ok no_commander r" and "commands xchg cs m r'"
  shows "commands xchg (c # cs) r r'"
proof -
  obtain v where v: "env xchg r = Some v" and m: "m = commanded c v"
    using assms(1) by (auto simp: Gripper_setCommand_def commanded_def bind_eq_Some_conv)
  from env_progress [OF v assms(2)] assms(3) m show ?thesis unfolding commands.simps by blast
qed

section \<open>Time passing, and a dead link\<close>

fun ticks :: "event list \<Rightarrow> nat" where
  "ticks [] = 0"
| "ticks (Tick d # es) = d + ticks es"
| "ticks (_ # es) = ticks es"

text \<open>Every block lets at least \<open>d\<close> nanoseconds pass.\<close>

definition ticking :: "nat \<Rightarrow> event list list \<Rightarrow> bool" where
  "ticking d bs \<longleftrightarrow> list_all (\<lambda>b. d \<le> ticks b) bs"

text \<open>Every exchange fails, and none that succeeded is still to be published.\<close>

definition dead_link :: "'l exchange_op \<Rightarrow> bool" where
  "dead_link xchg \<longleftrightarrow> (\<forall>l c. \<exists>e. fst (xchg l c) = Inl e)"

fun silent :: "thread_pc \<Rightarrow> bool" where
  "silent (Answered c s t) = False"
| "silent (Publishing c s t r) = False"
| "silent _ = True"

lemma run_block_clock: "clock (run_block xchg b w) = clock w + int (ticks b)"
proof (induction b arbitrary: w)
  case (Cons e es)
  then show ?case
    by (cases e) (auto split: option.splits)
qed simp

lemma thread_step_silent:
  assumes "thread_step xchg now g = Some g'" and "dead_link xchg" and "silent (pc g)"
  shows "silent (pc g') \<and> completes (pc g) = 0"
proof (cases "pc g")
  case (OnWire c)
  obtain e where "fst (xchg (client g) c) = Inl e" using assms(2) by (auto simp: dead_link_def)
  with assms OnWire show ?thesis by (auto simp: step_defs split: prod.splits)
qed (use assms in \<open>auto simp: step_defs split: if_splits\<close>)

lemma wstep_silent:
  "wstep xchg w e n w' \<Longrightarrow> dead_link xchg \<Longrightarrow> silent (pc (gs w)) \<Longrightarrow> silent (pc (gs w')) \<and> n = 0"
  by (induction rule: wstep.induct) (auto dest: thread_step_silent)

lemma runs_silent:
  "runs xchg ok w n w' \<Longrightarrow> dead_link xchg \<Longrightarrow> silent (pc (gs w)) \<Longrightarrow> silent (pc (gs w')) \<and> n = 0"
  by (induction rule: runs.induct) (auto dest: wstep_silent)

lemma progress_silent:
  assumes "progress xchg ok r r'" and "dead_link xchg" and "silent (pc (gs (fst r)))"
  shows "silent (pc (gs (fst r')))" and "countOf (record_of (fst r')) = countOf (record_of (fst r))"
proof -
  from assms(1) obtain n where n: "runs xchg ok (fst r) n (fst r')" by (auto simp: progress_def)
  from runs_silent [OF n assms(2,3)] runs_count [OF n]
  show "silent (pc (gs (fst r')))" and "countOf (record_of (fst r')) = countOf (record_of (fst r))"
    by auto
qed

lemma progress_ticking: "progress xchg ok r r' \<Longrightarrow> ticking d (snd r) \<Longrightarrow> ticking d (snd r')"
  by (auto simp: progress_def ticking_def suffix_def)

lemma env_returns:
  assumes "snd r \<noteq> []"
  obtains r' where "env xchg r = Some r'" "progress xchg any_event r r'" "length (snd r) = Suc (length (snd r'))"
proof -
  from assms obtain w b bs where "r = (w, b # bs)" by (metis list.exhaust surj_pair snd_conv)
  then show ?thesis using that [of "(run_block xchg b w, bs)"] env_progress [of xchg r _ any_event] by auto
qed

lemma sync_loop_returns:
  assumes "ticking d bs" and "k \<le> length bs" and "deadline \<le> clock w + int (k * d)"
  shows "\<exists>x r'. sync_loop xchg count deadline w bs = Some (x, r') \<and> length bs \<le> length (snd r') + k"
  using assms
proof (induction bs arbitrary: w k)
  case Nil
  then show ?case by (auto simp: image_waiting_def)
next
  case (Cons b bs)
  show ?case
  proof (cases "image_waiting count deadline (clock w) (img (gs w))")
    case False
    then show ?thesis by simp
  next
    case True
    with Cons.prems(3) obtain j where k: "k = Suc j" by (cases k) (auto simp: image_waiting_def)
    have "\<exists>x r'. sync_loop xchg count deadline (run_block xchg b w) bs = Some (x, r') \<and>
            length bs \<le> length (snd r') + j"
    proof (rule Cons.IH)
      show "deadline \<le> clock (run_block xchg b w) + int (j * d)"
        using Cons.prems by (simp add: run_block_clock k ticking_def algebra_simps)
    qed (use Cons.prems k in \<open>auto simp: ticking_def\<close>)
    with True k show ?thesis by auto
  qed
qed

end
