(* ===== verification/Demo.thy ===== *)
theory Demo
  imports Schedule
begin

text \<open>
  Concrete inputs on which the properties are applied: a link that activates as soon as rACT
  is set, a link on which every exchange times out, the worlds a construction over each
  leaves, and blocks in which the exchange thread runs one cycle.
\<close>

definition demo_link :: "unit exchange_op" where
  "demo_link l c =
     (Inr (GripperStatus_init\<lparr>gripperStatus := if action_get (action c) Activate then 0x31 else 0,
                              positionRequestEcho := positionRequest c\<rparr>), l)"

definition demo_read :: "unit read_op" where
  "demo_read l = (Inr GripperStatus_init, l)"

definition lost_link :: "unit exchange_op" where
  "lost_link l c = (Inl (DriverException ''exchange failed: timeout''), l)"

definition demo_image :: ProcessImage where
  "demo_image = \<lparr>imgCommand = GripperCommand_init, stamped = StampedExchange_init, closed = False\<rparr>"

text \<open>A period of one microsecond; the clock stands at zero throughout construction.\<close>

definition demo_world :: "unit world" where
  "demo_world =
     \<lparr>clock = 0, gs = start 0 ((snd (initializeImage demo_read 0 (GripperState_create () 1000 demo_image))))\<rparr>"

definition demo_cycle :: "event list" where
  "demo_cycle = Tick 1000 # replicate 8 ThreadStep"

definition demo_command :: GripperCommand where
  "demo_command = GripperCommand_defaults\<lparr>positionRequest := 0x80\<rparr>"

lemma demo_launch: "launch demo_read 0 0 (GripperState_create () 1000 demo_image) = Inr demo_world"
  by code_simp

lemma dead_lost_link: "dead_link lost_link"
  by (simp add: dead_link_def lost_link_def)

text \<open>A caller's schedule: the thread runs a cycle in every seventh block.\<close>

definition demo_run :: "unit sched_run" where
  "demo_run =
     (demo_world, concat (replicate 6 (replicate 6 [] @ [demo_cycle])) @ replicate 10 [])"

lemma demo_world_count: "countOf (record_of demo_world) = 0"
  by code_simp

lemma length_demo_cycle: "length demo_cycle = 9"
  by (simp add: demo_cycle_def)

lemma length_concat_replicate:
  "length (concat (replicate n xs)) = n * length xs"
  "length (concat (concat (replicate n xss))) = n * length (concat xss)"
  by (induction n) simp_all

lemma demo_run_counts: "length (concat (snd demo_run)) = 54" "countOf (record_of (fst demo_run)) = 0"
  by (simp_all add: demo_run_def length_demo_cycle demo_world_count length_concat_replicate)

lemma demo_run_room: "room demo_run"
  unfolding room_def demo_run_counts by simp

lemma demo_run_no_commander: "sched_ok no_commander demo_run"
  by (simp add: sched_ok_def demo_run_def demo_cycle_def list_all_iff)

text \<open>A caller's schedule on the lost link: every block lets a millisecond pass.\<close>

definition lost_run :: "unit sched_run" where
  "lost_run = (demo_world, replicate 9 (Tick 1000000 # demo_cycle))"

lemma lost_run_counts: "length (concat (snd lost_run)) = 90" "countOf (record_of (fst lost_run)) = 0"
  "length (snd lost_run) = 9"
  by (simp_all add: lost_run_def length_demo_cycle demo_world_count length_concat_replicate)

lemma lost_run_room: "room lost_run"
  unfolding room_def lost_run_counts by simp

lemma lost_run_ticking: "ticking 1000000 (snd lost_run)"
  by (simp add: ticking_def lost_run_def list_all_iff)

lemma lost_run_silent: "silent (pc (gs (fst lost_run)))"
  by (simp add: lost_run_def demo_world_def start_def)

end
