(* ===== verification/StatusWriter.thy ===== *)
theory StatusWriter
  imports Status
begin

text \<open>
  The writers of the packed status fields (\<open>src/fake/status_writer.cpp\<close>), which the fake
  device uses to author a status. Each reaches the byte through \<open>data()[i]\<close>, so each is an
  overlay of the poked bytes; the lemmas show what the named readers then see.
\<close>

definition kStatusFlagsByte :: nat where "kStatusFlagsByte = 0"
definition kFaultByte :: nat where "kFaultByte = 2"

definition withField :: "u8 \<Rightarrow> u8 \<Rightarrow> u8 \<Rightarrow> u8" where
  "withField bits m value = (bits AND NOT m) OR (value AND m)"

definition withFlag :: "u8 \<Rightarrow> u8 \<Rightarrow> bool \<Rightarrow> u8" where
  "withFlag bits m on = (if on then bits OR m else bits AND NOT m)"

definition poke_status :: "nat \<Rightarrow> (u8 \<Rightarrow> u8) \<Rightarrow> GripperStatus \<Rightarrow> GripperStatus" where
  "poke_status i f s = status_overlay ((status_data s)[i := f (status_data s ! i)])"

definition setActivated :: "GripperStatus \<Rightarrow> bool \<Rightarrow> GripperStatus" where
  "setActivated s on = poke_status kStatusFlagsByte (\<lambda>bits. withFlag bits kActivationStatusMask on) s"

definition setGoToEnabled :: "GripperStatus \<Rightarrow> bool \<Rightarrow> GripperStatus" where
  "setGoToEnabled s on = poke_status kStatusFlagsByte (\<lambda>bits. withFlag bits kGoToEchoMask on) s"

definition setActivationState :: "GripperStatus \<Rightarrow> ActivationState \<Rightarrow> GripperStatus" where
  "setActivationState s st = poke_status kStatusFlagsByte
     (\<lambda>bits. withField bits kActivationStateMask
        (push_bit kActivationStateShift (ActivationState_code st))) s"

definition setObjectDetection :: "GripperStatus \<Rightarrow> ObjectDetection \<Rightarrow> GripperStatus" where
  "setObjectDetection s d = poke_status kStatusFlagsByte
     (\<lambda>bits. withField bits kObjectDetectionMask
        (push_bit kObjectDetectionShift (ObjectDetection_code d))) s"

definition setGripperFault :: "GripperStatus \<Rightarrow> GripperFault \<Rightarrow> GripperStatus" where
  "setGripperFault s f = poke_status kFaultByte
     (\<lambda>bits. withField bits kGripperFaultMask (GripperFault_code f)) s"

definition setStatusFlagsByte :: "GripperStatus \<Rightarrow> u8 \<Rightarrow> GripperStatus" where
  "setStatusFlagsByte s b = poke_status kStatusFlagsByte (\<lambda>_. b) s"

definition setFaultStatusByte :: "GripperStatus \<Rightarrow> u8 \<Rightarrow> GripperStatus" where
  "setFaultStatusByte s b = poke_status kFaultByte (\<lambda>_. b) s"

section \<open>The writers as member updates\<close>

lemma poke_flags [simp]: "poke_status kStatusFlagsByte f s = s\<lparr>gripperStatus := f (gripperStatus s)\<rparr>"
  by (simp add: poke_status_def kStatusFlagsByte_def status_data_def status_overlay_def)

lemma poke_fault [simp]: "poke_status kFaultByte f s = s\<lparr>faultStatus := f (faultStatus s)\<rparr>"
  by (simp add: poke_status_def kFaultByte_def status_data_def status_overlay_def)

lemmas writer_defs =
  setActivated_def setGoToEnabled_def setActivationState_def setObjectDetection_def
  setGripperFault_def setStatusFlagsByte_def setFaultStatusByte_def

lemmas reader_defs =
  activated_def goToEnabled_def activationState_def objectDetection_def gripperFault_def controllerFault_def

lemma wf_writers [simp]:
  "wf_status (setActivated s a) = wf_status s"
  "wf_status (setGoToEnabled s a) = wf_status s"
  "wf_status (setActivationState s st) = wf_status s"
  "wf_status (setObjectDetection s d) = wf_status s"
  "wf_status (setGripperFault s f) = wf_status s"
  "wf_status (setStatusFlagsByte s b) = wf_status s"
  "wf_status (setFaultStatusByte s b) = wf_status s"
  by (simp_all add: writer_defs)

section \<open>What the readers see after a write\<close>

lemma activated_after [simp]:
  "activated (gripperStatus (setActivated s a)) = a"
  "activated (gripperStatus (setGoToEnabled s g)) = activated (gripperStatus s)"
  "activated (gripperStatus (setActivationState s st)) = activated (gripperStatus s)"
  "activated (gripperStatus (setObjectDetection s d)) = activated (gripperStatus s)"
  by (simp_all add: writer_defs activated_def withFlag_def withField_def field_simps_w)

lemma goToEnabled_after [simp]:
  "goToEnabled (gripperStatus (setActivated s a)) = goToEnabled (gripperStatus s)"
  "goToEnabled (gripperStatus (setGoToEnabled s g)) = g"
  "goToEnabled (gripperStatus (setActivationState s st)) = goToEnabled (gripperStatus s)"
  "goToEnabled (gripperStatus (setObjectDetection s d)) = goToEnabled (gripperStatus s)"
  by (simp_all add: writer_defs goToEnabled_def withFlag_def withField_def field_simps_w)

lemma activationState_field:
  "st \<in> {Reset, InProgress, Reserved, Complete} \<Longrightarrow>
   ActivationState_cast (drop_bit kActivationStateShift
     (push_bit kActivationStateShift (ActivationState_code st) AND kActivationStateMask)) = st"
  by (auto simp: rm_defs ActivationState_cast_def)

lemma objectDetection_field:
  "d \<in> {Moving, DetectedWhileOpening, DetectedWhileClosing, AtRequestedPosition} \<Longrightarrow>
   ObjectDetection_cast (drop_bit kObjectDetectionShift
     (push_bit kObjectDetectionShift (ObjectDetection_code d) AND kObjectDetectionMask)) = d"
  by (auto simp: rm_defs ObjectDetection_cast_def)

lemma activationState_after [simp]:
  "activationState (gripperStatus (setActivated s a)) = activationState (gripperStatus s)"
  "activationState (gripperStatus (setGoToEnabled s g)) = activationState (gripperStatus s)"
  "st \<in> {Reset, InProgress, Reserved, Complete} \<Longrightarrow>
     activationState (gripperStatus (setActivationState s st)) = st"
  "activationState (gripperStatus (setObjectDetection s d)) = activationState (gripperStatus s)"
  using activationState_field [of st]
  by (simp_all add: writer_defs activationState_def withFlag_def withField_def field_simps_w
      del: drop_bit_and drop_bit_or)

lemma objectDetection_after [simp]:
  "objectDetection (gripperStatus (setActivated s a)) = objectDetection (gripperStatus s)"
  "objectDetection (gripperStatus (setGoToEnabled s g)) = objectDetection (gripperStatus s)"
  "objectDetection (gripperStatus (setActivationState s st)) = objectDetection (gripperStatus s)"
  "d \<in> {Moving, DetectedWhileOpening, DetectedWhileClosing, AtRequestedPosition} \<Longrightarrow>
     objectDetection (gripperStatus (setObjectDetection s d)) = d"
  using objectDetection_field [of d]
  by (simp_all add: writer_defs objectDetection_def withFlag_def withField_def field_simps_w
      del: drop_bit_and drop_bit_or)

lemma fault_after [simp]:
  "faultStatus (setActivated s a) = faultStatus s"
  "faultStatus (setGoToEnabled s g) = faultStatus s"
  "faultStatus (setActivationState s st) = faultStatus s"
  "faultStatus (setObjectDetection s d) = faultStatus s"
  "faultStatus (setFaultStatusByte s b) = b"
  "gripperStatus (setFaultStatusByte s b) = gripperStatus s"
  "gripperStatus (setGripperFault s f) = gripperStatus s"
  by (simp_all add: writer_defs)

lemma measured_after [simp]:
  "position (setActivated s a) = position s" "current (setActivated s a) = current s"
  "position (setGoToEnabled s a) = position s" "current (setGoToEnabled s a) = current s"
  "position (setActivationState s st) = position s" "current (setActivationState s st) = current s"
  "position (setObjectDetection s d) = position s" "current (setObjectDetection s d) = current s"
  by (simp_all add: writer_defs)

end
