(* ===== verification/RegisterModel.thy ===== *)
theory RegisterModel
  imports Command StatusWriter
begin

text \<open>
  The fake device (\<open>src/fake/register_model.cpp\<close>): its register file, the rACT edge
  tracking and the status it computes for a command. The register file is the function
  from register addresses to values; the guards of \<open>read\<close> and \<open>write\<close> keep every access
  below \<open>kRegisterCount\<close>. The \<open>assert\<close>s are compiled out here: the guard behind each
  handles the same condition.
\<close>

definition kBlockRegisters :: nat where "kBlockRegisters = 8"
definition kReportedCurrent :: u8 where "kReportedCurrent = 0x2A"
definition kRegisterCount :: nat where "kRegisterCount = unat kStatusAddress + kBlockRegisters"

record RegisterModel =
  registers :: "nat \<Rightarrow> u16"
  previousActivateBit :: bool
  activationDone :: bool
  modelLog :: "log_line list"

definition RegisterModel_init :: RegisterModel where
  "RegisterModel_init =
     \<lparr>registers = (\<lambda>_. 0), previousActivateBit = False, activationDone = False, modelLog = []\<rparr>"

definition containsRange :: "u16 \<Rightarrow> u16 \<Rightarrow> bool" where
  "containsRange address quantity =
     (let last = (ucast address :: u32) + ucast quantity - 1 in unat last < kRegisterCount)"

definition outOfRange :: "string \<Rightarrow> u16 \<Rightarrow> u16 \<Rightarrow> string" where
  "outOfRange access address quantity =
     access @ '' of '' @ to_string (unat quantity) @ '' registers at '' @ to_string (unat address)
       @ '' reaches past the register file ('' @ to_string kRegisterCount @ ''); refused''"

definition inCommandBlock :: "u16 \<Rightarrow> bool" where
  "inCommandBlock reg \<longleftrightarrow>
     unat kCommandAddress \<le> unat reg \<and> unat reg < unat kCommandAddress + kBlockRegisters"

text \<open>\<open>read\<close> fills the caller's buffer; a refused read leaves it and logs.\<close>

definition model_read :: "RegisterModel \<Rightarrow> u16 \<Rightarrow> u16 \<Rightarrow> u16 list \<Rightarrow> u16 list \<times> RegisterModel" where
  "model_read m address quantity out =
     (if \<not> containsRange address quantity
      then (out, m\<lparr>modelLog := modelLog m @ [(Error, outOfRange ''read'' address quantity)]\<rparr>)
      else (map (\<lambda>i. let reg = address + of_nat i
                     in if inCommandBlock reg then 0 else registers m (unat reg)) [0..<unat quantity]
              @ drop (unat quantity) out, m))"

definition model_command :: "RegisterModel \<Rightarrow> GripperCommand" where
  "model_command m =
     (let block = slice (registers m) (unat kCommandAddress) kBlockRegisters
      in command_overlay (bytesFromRegisters block (command_data GripperCommand_init)))"

definition model_status :: "RegisterModel \<Rightarrow> GripperStatus" where
  "model_status m =
     (let block = slice (registers m) (unat kStatusAddress) kBlockRegisters
      in status_overlay (bytesFromRegisters block (status_data GripperStatus_init)))"

definition model_setStatus :: "GripperStatus \<Rightarrow> RegisterModel \<Rightarrow> RegisterModel" where
  "model_setStatus s m =
     m\<lparr>registers := copy_into (registers m) (unat kStatusAddress)
         (registersFromBytes kBlockRegisters (status_data s))\<rparr>"

text \<open>\<open>processCommand\<close>: the next status, and the rACT edge tracking it updates.\<close>

definition processCommand ::
  "GripperCommand \<Rightarrow> GripperStatus \<Rightarrow> RegisterModel \<Rightarrow> GripperStatus \<times> RegisterModel" where
  "processCommand command currentStatus m =
    (let activateBit = action_get (action command) Activate;
         fault = faultStatus currentStatus;
         m1 = (if activateBit \<and> \<not> previousActivateBit m then m\<lparr>activationDone := True\<rparr> else m);
         (fault, m2) = (if \<not> activateBit then (0, m1\<lparr>activationDone := False\<rparr>) else (fault, m1));
         m3 = m2\<lparr>previousActivateBit := activateBit\<rparr>;
         s1 = setFaultStatusByte GripperStatus_init fault;
         s2 = setActivated s1 activateBit;
         s3 = (if activateBit \<and> activationDone m3
               then let s = setActivationState s2 Complete
                    in if action_get (action command) GoTo
                       then setObjectDetection (setGoToEnabled s True) AtRequestedPosition
                       else s
               else s2);
         s4 = s3\<lparr>positionRequestEcho := positionRequest command\<rparr>;
         s5 = s4\<lparr>position := positionRequest command\<rparr>
     in (s5\<lparr>current := kReportedCurrent\<rparr>, m3))"

definition model_write :: "RegisterModel \<Rightarrow> u16 \<Rightarrow> u16 \<Rightarrow> u16 list \<Rightarrow> RegisterModel" where
  "model_write m address quantity values =
     (if \<not> containsRange address quantity
      then m\<lparr>modelLog := modelLog m @ [(Error, outOfRange ''write'' address quantity)]\<rparr>
      else let m1 = m\<lparr>registers :=
                        copy_into (registers m) (unat address) (take (unat quantity) values)\<rparr>;
               (s, m2) = processCommand (model_command m1) (model_status m1) m1
           in model_setStatus s m2)"

text \<open>\<open>at()\<close>: \<open>std::array::at\<close> throws \<open>std::out_of_range\<close> past the end.\<close>

definition model_at :: "RegisterModel \<Rightarrow> u16 \<Rightarrow> exc + u16" where
  "model_at m address =
     (if unat address < kRegisterCount then Inr (registers m (unat address)) else Inl UnknownException)"

section \<open>The register map\<close>

lemmas model_consts = kBlockRegisters_def kReportedCurrent_def kRegisterCount_def mc_defs rm_sizes

lemma containsRange_iff:
  "containsRange a q \<longleftrightarrow>
     (if a = 0 \<and> q = 0 then False else unat a + unat q - 1 < kRegisterCount)"
proof (cases "a = 0 \<and> q = 0")
  case True
  then show ?thesis by (simp add: containsRange_def model_consts unsigned_minus_1_eq_mask mask_eq_exp_minus_1)
next
  case False
  then have pos: "0 < unat a + unat q" by (auto simp: unat_gt_0)
  have "unat a < 2 ^ LENGTH(16)" "unat q < 2 ^ LENGTH(16)" by (rule unsigned_less)+
  then have bounds: "unat a < 2 ^ 16" "unat q < 2 ^ 16" by simp_all
  have sum: "(ucast a :: u32) + ucast q - 1 = of_nat (unat a + unat q - 1)"
  proof -
    have "(of_nat (unat a + unat q - 1) :: u32) = of_nat (unat a + unat q) - of_nat 1"
      using pos by (intro of_nat_diff) arith
    then show ?thesis by simp
  qed
  have "unat a + unat q - 1 < 2 ^ LENGTH(32)" using bounds by simp
  then have "unat ((ucast a :: u32) + ucast q - 1) = unat a + unat q - 1"
    unfolding sum by (simp add: unat_of_nat take_bit_nat_eq_self)
  with False show ?thesis by (auto simp: containsRange_def)
qed

lemma model_status_setStatus: "wf_status s \<Longrightarrow> model_status (model_setStatus s m) = s"
  by (simp add: model_status_def model_setStatus_def slice_copy_into_same
      kBlockRegisters_def status_block.whole_block_roundtrip)

lemma model_command_setStatus [simp]: "model_command (model_setStatus s m) = model_command m"
  by (simp add: model_command_def model_setStatus_def slice_copy_into_disjoint model_consts)

lemma model_flags_setStatus [simp]:
  "previousActivateBit (model_setStatus s m) = previousActivateBit m"
  "activationDone (model_setStatus s m) = activationDone m"
  "modelLog (model_setStatus s m) = modelLog m"
  by (simp_all add: model_setStatus_def)

lemma model_command_frame [simp]:
  "model_command (m\<lparr>activationDone := a\<rparr>) = model_command m"
  "model_command (m\<lparr>previousActivateBit := b\<rparr>) = model_command m"
  by (simp_all add: model_command_def)

lemma wf_model_command [simp]: "wf_command (model_command m)"
  by (simp add: model_command_def command_block.wf_overlay command_block.length_raw)

lemma wf_model_status [simp]: "wf_status (model_status m)"
  by (simp add: model_status_def status_block.wf_overlay status_block.length_raw)

section \<open>What the device does with a command\<close>

lemma processCommand_model:
  "snd (processCommand c s m) =
     m\<lparr>activationDone := action_get (action c) Activate \<and> (activationDone m \<or> \<not> previousActivateBit m),
       previousActivateBit := action_get (action c) Activate\<rparr>"
  by (cases m) (simp add: processCommand_def Let_def)

lemma processCommand_wf [simp]: "wf_status (fst (processCommand c s m))"
  by (simp add: processCommand_def Let_def)

lemma processCommand_activated [simp]:
  "activated (gripperStatus (fst (processCommand c s m))) = action_get (action c) Activate"
  by (simp add: processCommand_def Let_def)

lemma processCommand_echo [simp]:
  "positionRequestEcho (fst (processCommand c s m)) = positionRequest c"
  "position (fst (processCommand c s m)) = positionRequest c"
  "current (fst (processCommand c s m)) = kReportedCurrent"
  by (simp_all add: processCommand_def Let_def)

lemma processCommand_fault [simp]:
  "faultStatus (fst (processCommand c s m)) =
     (if action_get (action c) Activate then faultStatus s else 0)"
  by (simp add: processCommand_def Let_def)

lemma fresh_flags [simp]: "gripperStatus GripperStatus_init = 0"
  by (simp add: GripperStatus_init_def)

lemma zero_flags [simp]:
  "activationState 0 = Reset" "objectDetection 0 = Moving" "goToEnabled 0 = False" "activated 0 = False"
  by (simp_all add: reader_defs ActivationState_cast_def ObjectDetection_cast_def rm_defs)

lemma processCommand_state:
  "activationState (gripperStatus (fst (processCommand c s m))) =
     (if activationDone (snd (processCommand c s m)) then Complete else Reset)"
  by (simp add: processCommand_def Let_def)

lemma processCommand_motion:
  "goToEnabled (gripperStatus (fst (processCommand c s m))) =
     (activationDone (snd (processCommand c s m)) \<and> action_get (action c) GoTo)"
  "objectDetection (gripperStatus (fst (processCommand c s m))) =
     (if activationDone (snd (processCommand c s m)) \<and> action_get (action c) GoTo
      then AtRequestedPosition else Moving)"
  by (simp_all add: processCommand_def Let_def)

section \<open>Writes\<close>

text \<open>An accepted write stores the values and makes the status answer the stored command.\<close>

lemma model_write_status:
  fixes m :: RegisterModel
  assumes "containsRange a q" and "length vs = unat q"
  defines "m1 \<equiv> m\<lparr>registers := copy_into (registers m) (unat a) vs\<rparr>"
  shows "model_status (model_write m a q vs) = fst (processCommand (model_command m1) (model_status m1) m1)"
    and "model_command (model_write m a q vs) = model_command m1"
    and "activationDone (model_write m a q vs) =
      activationDone (snd (processCommand (model_command m1) (model_status m1) m1))"
    and "previousActivateBit (model_write m a q vs) = action_get (action (model_command m1)) Activate"
proof -
  let ?p = "processCommand (model_command m1) (model_status m1) m1"
  have w: "model_write m a q vs = model_setStatus (fst ?p) (snd ?p)"
    using assms by (simp add: model_write_def Let_def split_beta)
  show "model_status (model_write m a q vs) = fst ?p"
    by (simp add: w model_status_setStatus)
  show "model_command (model_write m a q vs) = model_command m1"
    by (simp add: w processCommand_model)
  show "activationDone (model_write m a q vs) = activationDone (snd ?p)"
    by (simp add: w)
  show "previousActivateBit (model_write m a q vs) = action_get (action (model_command m1)) Activate"
    by (simp add: w processCommand_model)
qed

end
