(* ===== verification/Device.thy ===== *)
theory Device
  imports Exchange RegisterModel
begin

text \<open>
  What a Modbus exchange with the fake device amounts to, frames left aside: the command
  registers are written, then the status registers are read (the order of
  \<open>handle_read_write_registers\<close> in nanomodbus.c), through the register-level interface of the
  fake device. The interpretation \<open>device\<close> of \<open>exchange_link\<close> gives what every record then
  satisfies.
\<close>

definition device_readStatus :: "RegisterModel \<Rightarrow> (exc + GripperStatus) \<times> RegisterModel" where
  "device_readStatus m =
     (let (regs, m) = model_read m kStatusAddress (of_nat kStatusRegisterCount) (replicate kStatusRegisterCount 0)
      in (Inr (status_overlay (bytesFromRegisters regs (status_data GripperStatus_init))), m))"

definition device_exchange :: "RegisterModel \<Rightarrow> GripperCommand \<Rightarrow> (exc + GripperStatus) \<times> RegisterModel" where
  "device_exchange m c =
     device_readStatus (model_write m kCommandAddress (of_nat kCommandRegisterCount)
       (registersFromBytes kCommandRegisterCount (command_data c)))"

text \<open>Three registers, six bytes: the documented part of each block is what crosses the wire.\<close>

definition documented_status :: "GripperStatus \<Rightarrow> GripperStatus" where
  "documented_status s =
     GripperStatus_init\<lparr>gripperStatus := gripperStatus s, stReserved1 := stReserved1 s,
       faultStatus := faultStatus s, positionRequestEcho := positionRequestEcho s,
       position := position s, current := current s\<rparr>"

definition same_documented :: "GripperCommand \<Rightarrow> GripperCommand \<Rightarrow> bool" where
  "same_documented c d \<longleftrightarrow> action c = action d \<and> cmdReserved1 c = cmdReserved1 d \<and>
     cmdReserved2 c = cmdReserved2 d \<and> positionRequest c = positionRequest d \<and>
     speed c = speed d \<and> force c = force d"

lemma block_ranges [simp]:
  "containsRange kStatusAddress (of_nat kStatusRegisterCount)"
  "containsRange kCommandAddress (of_nat kCommandRegisterCount)"
  by (simp_all add: containsRange_iff model_consts)

lemma status_block_read:
  "model_read m kStatusAddress (of_nat kStatusRegisterCount) (replicate kStatusRegisterCount 0) =
     (slice (registers m) (unat kStatusAddress) kStatusRegisterCount, m)"
proof -
  have q: "unat (of_nat kStatusRegisterCount :: u16) = kStatusRegisterCount" by (simp add: model_consts)
  have r: "(let reg = kStatusAddress + of_nat i in if inCommandBlock reg then 0 else registers m (unat reg)) =
      registers m (unat kStatusAddress + i)" if "i < kStatusRegisterCount" for i
  proof -
    have "unat (kStatusAddress + of_nat i :: u16) = unat kStatusAddress + i"
      using that by (simp add: unat_word_ariths unat_of_nat take_bit_nat_eq_self model_consts)
    then show ?thesis by (simp add: inCommandBlock_def model_consts)
  qed
  show ?thesis
    by (simp add: model_read_def q slice_def r)
qed

text \<open>A byte of a block read through its registers.\<close>

lemma block_byte:
  assumes "length block = 16" and "j < 2 * n" and "n \<le> 8"
  shows "bytesFromRegisters (slice f at n) block ! j =
    (if even j then high8 (f (at + j div 2)) else low8 (f (at + j div 2)))"
  using assms by (simp add: bytesFromRegisters_nth less_mult_imp_div_less mult.commute)

lemma block_tail:
  assumes "length block = 16"
  shows "drop 6 (bytesFromRegisters (slice f at 3) block) = drop 6 block"
  by (rule nth_equalityI) (use assms in \<open>auto simp: bytesFromRegisters_nth\<close>)

lemma init_lengths [simp]:
  "length (status_data GripperStatus_init) = 16" "length (command_data GripperCommand_init) = 16"
  by (simp_all add: status_block.length_raw command_block.length_raw)

lemma documented_fields [simp]:
  "gripperStatus (documented_status s) = gripperStatus s" "faultStatus (documented_status s) = faultStatus s"
  "stReserved1 (documented_status s) = stReserved1 s"
  "positionRequestEcho (documented_status s) = positionRequestEcho s"
  "position (documented_status s) = position s" "current (documented_status s) = current s"
  "stReservedTail (documented_status s) = stReservedTail GripperStatus_init"
  "wf_status (documented_status s)"
  by (simp_all add: documented_status_def wf_status_def GripperStatus_init_def)

lemma device_readStatus_eq [simp]:
  "device_readStatus m = (Inr (documented_status (model_status m)), m)"
proof -
  have n: "kStatusRegisterCount = 3" by (simp add: model_consts)
  have d: "drop 6 (status_data GripperStatus_init) = stReservedTail GripperStatus_init"
    by (simp add: status_data_def)
  have "status_overlay (bytesFromRegisters (slice (registers m) (unat kStatusAddress) 3)
      (status_data GripperStatus_init)) = documented_status (model_status m)"
    by (rule GripperStatus.equality)
       (simp_all add: model_status_def status_overlay_def block_byte block_tail d kBlockRegisters_def)
  then show ?thesis unfolding device_readStatus_def status_block_read by (simp add: n)
qed

lemma processCommand_flags:
  assumes "previousActivateBit m = previousActivateBit m'" and "activationDone m = activationDone m'"
  shows "fst (processCommand c s m) = fst (processCommand c s m')"
    and "activationDone (snd (processCommand c s m)) = activationDone (snd (processCommand c s m'))"
  using assms by (simp_all add: processCommand_def Let_def)

text \<open>The next status depends on the command through its action byte and its position only.\<close>

lemma processCommand_documented:
  assumes "same_documented c d"
  shows "processCommand c s m = processCommand d s m"
  using assms by (simp add: processCommand_def same_documented_def Let_def)

lemma device_exchange_eq:
  fixes m :: RegisterModel and c :: GripperCommand
  assumes "wf_command c"
  defines "m' \<equiv> model_write m kCommandAddress (of_nat kCommandRegisterCount)
       (registersFromBytes kCommandRegisterCount (command_data c))"
  shows "device_exchange m c = (Inr (documented_status (model_status m')), m')"
    and "same_documented (model_command m') c"
    and "model_status m' = fst (processCommand c (model_status m) m)"
    and "previousActivateBit m' = action_get (action c) Activate"
    and "activationDone m' = activationDone (snd (processCommand c (model_status m) m))"
proof -
  define regs where "regs = registersFromBytes kCommandRegisterCount (command_data c)"
  define m1 where "m1 = m\<lparr>registers := copy_into (registers m) (unat kCommandAddress) regs\<rparr>"
  have n: "kCommandRegisterCount = 3" by (simp add: model_consts)
  have len: "length regs = 3" by (simp add: regs_def n)
  have q: "length regs = unat (of_nat kCommandRegisterCount :: u16)" by (simp add: len n)
  note w = model_write_status [OF block_ranges(2) q, of m, folded m1_def, folded m'_def [folded regs_def]]
  have "16 = length (command_data c)" using assms(1) by (simp add: command_block.length_raw)
  then have six: "command_data c ! 0 = action c" "command_data c ! 1 = cmdReserved1 c"
      "command_data c ! 2 = cmdReserved2 c" "command_data c ! 3 = positionRequest c"
      "command_data c ! 4 = speed c" "command_data c ! 5 = force c"
    by (simp_all add: command_data_def eval_nat_numeral)
  have c1: "same_documented (model_command m1) c"
    using six
    by (simp add: same_documented_def m1_def model_command_def command_overlay_def block_byte
        kBlockRegisters_def copy_into_def len regs_def n)
  have s1: "model_status m1 = model_status m"
    by (simp add: m1_def model_status_def slice_copy_into_disjoint len model_consts)
  have f: "previousActivateBit m1 = previousActivateBit m" "activationDone m1 = activationDone m"
    by (simp_all add: m1_def)
  note p = processCommand_documented [OF c1]
  show "device_exchange m c = (Inr (documented_status (model_status m')), m')"
    by (simp add: device_exchange_def m'_def)
  show "same_documented (model_command m') c" using c1 by (simp add: w)
  show "model_status m' = fst (processCommand c (model_status m) m)"
    by (simp add: w p s1 processCommand_flags(1) [OF f])
  show "previousActivateBit m' = action_get (action c) Activate"
    using c1 by (simp add: w same_documented_def)
  show "activationDone m' = activationDone (snd (processCommand c (model_status m) m))"
    by (simp add: w p s1 processCommand_flags(2) [OF f])
qed

section \<open>The contract of the device's answers\<close>

text \<open>The status the device gives to a command: it activates on the first exchange with rACT.\<close>

definition device_answer :: "GripperCommand \<Rightarrow> GripperStatus \<Rightarrow> bool" where
  "device_answer c s \<longleftrightarrow>
     (wf_command c \<longrightarrow>
       (let act = action_get (action c) Activate; go = action_get (action c) GoTo
        in activated (gripperStatus s) = act \<and>
           activationState (gripperStatus s) = (if act then Complete else Reset) \<and>
           goToEnabled (gripperStatus s) = (act \<and> go) \<and>
           objectDetection (gripperStatus s) = (if act \<and> go then AtRequestedPosition else Moving) \<and>
           positionRequestEcho s = positionRequest c \<and> position s = positionRequest c \<and>
           current s = kReportedCurrent \<and> (\<not> act \<longrightarrow> faultStatus s = 0)))"

text \<open>Whatever block was stored, the edge flags agree after an exchange.\<close>

definition device_inv :: "RegisterModel \<Rightarrow> bool" where
  "device_inv m \<longleftrightarrow> activationDone m = previousActivateBit m"

lemma device_answers:
  assumes "device_inv m" and "wf_command c"
  shows "device_answer c (fst (processCommand c s m))"
  using assms
  by (simp add: device_answer_def device_inv_def Let_def processCommand_state processCommand_motion
      processCommand_model)

lemma device_write_inv:
  assumes "device_inv m" and "containsRange a q" and "length vs = unat q"
  shows "device_inv (model_write m a q vs)"
  using model_write_status(3,4) [OF assms(2,3), of m] assms(1)
  by (simp add: device_inv_def processCommand_model)

lemma device_keeps: "device_inv m \<Longrightarrow> device_inv (snd (device_exchange m c))"
  unfolding device_exchange_def device_readStatus_eq snd_conv
  by (rule device_write_inv [OF _ block_ranges(2)]) (simp_all add: model_consts)

interpretation device: exchange_link device_exchange device_inv device_answer
proof
  show "device_inv l \<Longrightarrow> device_inv (snd (device_exchange l c))" for l c by (rule device_keeps)
next
  fix l c s l'
  assume i: "device_inv l" and x: "device_exchange l c = (Inr s, l')"
  show "device_answer c s"
  proof (cases "wf_command c")
    case True
    have "s = documented_status (fst (processCommand c (model_status l) l))"
      using x device_exchange_eq(1,3) [OF True, of l] by simp
    with device_answers [OF i True, of "model_status l"] True show ?thesis
      by (simp add: device_answer_def)
  qed (simp add: device_answer_def)
qed

lemma device_inv_init [simp]: "device_inv RegisterModel_init"
  by (simp add: device_inv_def RegisterModel_init_def)

text \<open>
  The device injects no fault: from a status without one, no exchange reports one. A second contract of
  the same link, for any command.
\<close>

definition device_healthy :: "RegisterModel \<Rightarrow> bool" where
  "device_healthy m \<longleftrightarrow> faultStatus (model_status m) = 0"

definition no_fault :: "GripperCommand \<Rightarrow> GripperStatus \<Rightarrow> bool" where
  "no_fault c s \<longleftrightarrow> faultStatus s = 0"

lemma healthy_write:
  assumes "device_healthy m"
  shows "device_healthy (model_write m kCommandAddress (of_nat kCommandRegisterCount)
       (registersFromBytes kCommandRegisterCount (command_data c)))"
proof -
  define regs where "regs = registersFromBytes kCommandRegisterCount (command_data c)"
  define m1 where "m1 = m\<lparr>registers := copy_into (registers m) (unat kCommandAddress) regs\<rparr>"
  have len: "length regs = 3" by (simp add: regs_def model_consts)
  then have q: "length regs = unat (of_nat kCommandRegisterCount :: u16)" by (simp add: model_consts)
  have "model_status m1 = model_status m"
    by (simp add: m1_def model_status_def slice_copy_into_disjoint len model_consts)
  with model_write_status(1) [OF block_ranges(2) q, of m, folded m1_def] assms show ?thesis
    by (simp add: device_healthy_def regs_def [symmetric])
qed

interpretation healthy: exchange_link device_exchange device_healthy no_fault
  by unfold_locales (auto simp: device_exchange_def no_fault_def device_healthy_def intro: healthy_write [unfolded device_healthy_def])

lemma device_healthy_init [simp]: "device_healthy RegisterModel_init"
  by code_simp

end
