(* ===== verification/ExchangeProperties.thy ===== *)
theory ExchangeProperties
  imports Demo Device
begin

text \<open>
  Properties of the exchange thread and the link: construction, the thread against its step
  relation, fault detection, pacing, the records readers see, commands reaching the wire,
  and stopping.
\<close>

section \<open>Construction\<close>

text \<open>C15: \<open>initializeImage\<close> reads the first status up to three times. Read number \<open>k\<close> decides, the first
  one that does not throw a \<open>std::exception\<close>, or the third: a status is seeded into the image, with
  the clock and the command it asks for, and the link turns Operational; an exception that is no
  \<open>std::exception\<close> leaves as it is; on the third failure a \<open>DriverException\<close> names it. An exception
  leaves image and state untouched, and in every case the log has exactly one line for each failed
  read before the one that decides, with its number and its \<open>what()\<close>.\<close>

theorem initializeImage_retries:
  assumes "initializeImage rd now g = (r, g')"
  shows "\<exists>k a. k < 3 \<and> reads_fail rd k (client g) \<and> nth_read rd k (client g) = (a, client g') \<and>
    logLines g' = logLines g @ map (\<lambda>i. attempt_line (Suc i) (read_error rd (client g) i)) [0..<k] \<and>
    (case a of
       Inr fresh \<Rightarrow> r = Inr () \<and> connectionState g' = Operational \<and>
         img g' = (img g)\<lparr>imgCommand := seed_command fresh,
           stamped := \<lparr>metadata = \<lparr>exchangeCount = 0, timestamp = now\<rparr>, xCommand = seed_command fresh, xStatus = fresh\<rparr>\<rparr>
     | Inl e \<Rightarrow> img g' = img g \<and> connectionState g' = connectionState g \<and>
         (if e = UnknownException then r = Inl UnknownException
          else k = 2 \<and> r = Inl (no_answer (exc_what e))))"
proof -
  obtain b h where i: "initial_read rd kInitialReadAttempts g = (b, h)"
    by (cases "initial_read rd kInitialReadAttempts g")
  have g': "client g' = client h" "logLines g' = logLines h"
    using assms i by (auto simp: initializeImage_def split: sum.splits)
  have "0 < kInitialReadAttempts" and three: "kInitialReadAttempts = 3" by (simp_all add: kInitialReadAttempts_def)
  from initial_read_result [OF i this(1)] obtain k a where k: "k < 3" "reads_fail rd k (client g)"
    "nth_read rd k (client g) = (a, client g')"
    and log: "logLines g' = logLines g @ map (\<lambda>i. attempt_line (3 - (3 - Suc i)) (read_error rd (client g) i)) [0..<k]"
    and a: "case a of Inr fresh \<Rightarrow> b = Inr fresh
       | Inl e \<Rightarrow> if e = UnknownException then b = Inl UnknownException
                 else k = 3 - 1 \<and> b = Inl (no_answer (exc_what e))"
    unfolding g' three by blast
  have "logLines g' = logLines g @ map (\<lambda>i. attempt_line (Suc i) (read_error rd (client g) i)) [0..<k]"
    using k(1) unfolding log by simp
  moreover have "case a of
       Inr fresh \<Rightarrow> r = Inr () \<and> connectionState g' = Operational \<and>
         img g' = (img g)\<lparr>imgCommand := seed_command fresh,
           stamped := \<lparr>metadata = \<lparr>exchangeCount = 0, timestamp = now\<rparr>, xCommand = seed_command fresh, xStatus = fresh\<rparr>\<rparr>
     | Inl e \<Rightarrow> img g' = img g \<and> connectionState g' = connectionState g \<and>
         (if e = UnknownException then r = Inl UnknownException
          else k = 2 \<and> r = Inl (no_answer (exc_what e)))"
    using a assms i initial_read_frame [OF i]
    by (cases a) (auto simp: initializeImage_def image_seed_def split: if_splits)
  ultimately show ?thesis using k by blast
qed

definition flaky_read :: "nat read_op" where
  "flaky_read n = (if n < 2 then Inl (DriverException ''readStatus failed: timeout'')
                   else Inr GripperStatus_init, n + 1)"

theorem initializeImage_retries_witness:
  "fst (initializeImage flaky_read 0 (GripperState_create 0 1000 demo_image)) = Inr () \<and>
   (\<exists>k. k < 3 \<and> reads_fail flaky_read k 0 \<and>
      logLines (snd (initializeImage flaky_read 0 (GripperState_create 0 1000 demo_image))) =
        map (\<lambda>i. attempt_line (Suc i) (read_error flaky_read 0 i)) [0..<k])"
proof -
  have r: "fst (initializeImage flaky_read 0 (GripperState_create 0 1000 demo_image)) = Inr ()"
    by code_simp
  from initializeImage_retries [of flaky_read 0 "GripperState_create 0 1000 demo_image", OF surjective_pairing]
  show ?thesis using r by (auto simp: GripperState_create_def)
qed

text \<open>The command a construction seeds asks for what the gripper already reports: rACT and
  rGTO are its gACT and gGTO, the position request is its echo, automatic release is off; so
  the first exchanges do not move the gripper.\<close>

theorem seed_command_keeps_state:
  "action_get (action (seed_command s)) Activate = activated (gripperStatus s) \<and>
   action_get (action (seed_command s)) GoTo = goToEnabled (gripperStatus s) \<and>
   \<not> action_get (action (seed_command s)) AutoRelease \<and>
   \<not> action_get (action (seed_command s)) AutoReleaseOpenDirection \<and>
   positionRequest (seed_command s) = positionRequestEcho s \<and> wf_command (seed_command s)"
  by (simp add: seed_command_def Let_def GripperCommand_defaults_def GripperCommand_init_def wf_command_def)

section \<open>The thread\<close>

text \<open>What others can see of the link, and what one cycle does to it, said without the operations of the
  code: the record and the command, the failures in a row, the connection state, and the log.\<close>

record link_view =
  v_record :: StampedExchange
  v_command :: GripperCommand
  v_failures :: u32
  v_state :: ConnectionState
  v_logged_at :: time
  v_log :: "log_line list"

definition view :: "'l GripperState \<Rightarrow> link_view" where
  "view g = \<lparr>v_record = stamped (img g), v_command = imgCommand (img g), v_failures = consecutiveFailures g,
     v_state = connectionState g, v_logged_at = lastRun (failureLogThrottle g), v_log = logLines g\<rparr>"

fun cycle_seen :: "time \<Rightarrow> time \<Rightarrow> exc + GripperStatus \<Rightarrow> link_view \<Rightarrow> link_view" where
  "cycle_seen quiet now (Inr s) v =
     v\<lparr>v_record := \<lparr>metadata = \<lparr>exchangeCount = countOf (v_record v) + 1, timestamp = now\<rparr>,
                    xCommand = v_command v, xStatus = s\<rparr>,
       v_failures := 0, v_state := Operational,
       v_log := v_log v @ (if v_state v = Faulted
         then [(Info, ''link recovered; the process image is live again'')] else [])\<rparr>"
| "cycle_seen quiet now (Inl e) v =
     (let fault = 3 \<le> unat (v_failures v + 1); loud = (v_logged_at v + quiet \<le> now)
      in v\<lparr>v_failures := v_failures v + 1, v_state := (if fault then Faulted else v_state v),
           v_logged_at := (if loud then now else v_logged_at v),
           v_log := v_log v
             @ (if fault \<and> v_state v \<noteq> Faulted
                then [(Warn, ''link faulted after 3 consecutive failed exchanges; the process image is now stale'')] else [])
             @ (if loud
                then [(Warn, ''exchange cycle failed: '' @ (if e = UnknownException then ''unknown exception'' else exc_what e))]
                else [])\<rparr>)"

lemma view_success:
  "view (log_recovered (connectionState g = Faulted)
      (g\<lparr>client := l, consecutiveFailures := 0, connectionState := Operational,
         img := image_publish (image_command (img g)) s now (img g)\<rparr>))
   = cycle_seen (throttlePeriod (failureLogThrottle g)) now (Inr s) (view g)"
  by (simp add: view_def log_recovered_def add_log_def image_defs)

lemma view_failure:
  "view (log_cycle_failure now e (note_failure (g\<lparr>client := l\<rparr>)))
   = cycle_seen (throttlePeriod (failureLogThrottle g)) now (Inl e) (view g)"
proof -
  have three: "to_string kFaultThreshold = ''3''"
    by (simp add: kFaultThreshold_def to_string_digit digit_char_def)
  have what: "(case e of UnknownException \<Rightarrow> ''unknown exception'' | _ \<Rightarrow> exc_what e) =
      (if e = UnknownException then ''unknown exception'' else exc_what e)"
    by (cases e) simp_all
  show ?thesis
    by (simp add: view_def log_cycle_failure_def note_failure_def add_log_def executeIfAllowed_def three what Let_def)
       (simp add: kFaultThreshold_def algebra_simps not_less)
qed

text \<open>C10: One cycle of the exchange thread, from the command it latches to the pacing sleep, does what
  others are promised of it. On an answer: a new record of the latched command and the answer, one
  count further, stamped with the clock; no failure in a row; Operational; a line if the link was
  faulted. On a failure: one more in a row, Faulted from the third on with one line when it turns,
  the record as it was, and a throttled line with the exception. The steps of the thread (five or four), each
  one access to shared state, and \<open>exchangeOnce\<close> with the handler in \<open>start\<close>, as the code writes
  them, both leave this view.\<close>

theorem exchangeOnce_refines:
  assumes "pc g = LatchCommand" and "xchg (client g) (imgCommand (img g)) = (answer, l)"
    and "v = cycle_seen (throttlePeriod (failureLogThrottle g)) now answer (view g)"
  shows "(\<exists>g'. thread_steps xchg now (case answer of Inr s \<Rightarrow> 5 | Inl e \<Rightarrow> 4) g = Some g' \<and>
      pc g' = Pacing \<and> client g' = l \<and> view g' = v) \<and>
    (\<exists>g'. exchangeOnce xchg now g = (map_sum id (\<lambda>s. ()) answer, g') \<and> client g' = l \<and>
      view (case answer of Inr s \<Rightarrow> g' | Inl e \<Rightarrow> log_cycle_failure now e g') = v)"
proof -
  have view_pc: "view (h\<lparr>pc := q\<rparr>) = view h" for h :: "'a GripperState" and q by (simp add: view_def)
  have x: "xchg (client g) (image_command (img g)) = (answer, l)" using assms(2) by (simp add: image_command_def)
  obtain r g1 where once: "exchangeOnce xchg now g = (r, g1)" by (cases "exchangeOnce xchg now g")
  have both: "r = map_sum id (\<lambda>s. ()) answer \<and> client g1 = l \<and>
      view (case answer of Inr s \<Rightarrow> g1 | Inl e \<Rightarrow> log_cycle_failure now e g1) = v"
  proof (cases answer)
    case (Inl e)
    then show ?thesis using once x view_failure [where g = g and l = l and e = e and now = now] by (auto simp: exchangeOnce_def assms(3))
  next
    case (Inr s)
    then show ?thesis
      using once x view_success [where g = g and l = l and s = s and now = now] by (auto simp: exchangeOnce_def note_success_def assms(3) Let_def)
  qed
  have "\<exists>g'. thread_steps xchg now (case answer of Inr s \<Rightarrow> 5 | Inl e \<Rightarrow> 4) g = Some g' \<and>
      pc g' = Pacing \<and> client g' = l \<and> view g' = v"
  proof (cases answer)
    case (Inl e)
    with both once exchangeOnce_steps_failure [OF assms(1), of xchg now e g1] show ?thesis
      by (auto simp: view_pc)
  next
    case (Inr s)
    with both once exchangeOnce_steps_success [OF assms(1), of xchg now g1] show ?thesis
      by (auto simp: view_pc)
  qed
  with both once show ?thesis by blast
qed

theorem exchangeOnce_refines_witness:
  "\<exists>g'. thread_steps demo_link 7 5 ((gs demo_world)\<lparr>pc := LatchCommand\<rparr>) = Some g' \<and> pc g' = Pacing \<and>
     countOf (v_record (view g')) = 1 \<and> v_failures (view g') = 0"
proof -
  obtain answer l where x: "demo_link () (imgCommand (img (gs demo_world))) = (answer, l)" by (metis surj_pair)
  obtain s where s: "answer = Inr s" using x by (auto simp: demo_link_def Let_def)
  have n: "countOf (stamped (img (gs demo_world))) = 0" by (rule demo_world_count)
  have "pc ((gs demo_world)\<lparr>pc := LatchCommand\<rparr>) = LatchCommand" by simp
  from exchangeOnce_refines [OF this, of demo_link answer l _ 7, OF _ HOL.refl] x n
  show ?thesis by (auto simp: view_def s)
qed

text \<open>C9: \<open>connectionState\<close> is Faulted exactly when the last three exchanges, or more, all
  failed, over any sequence of cycles from a fresh Operational link: no earlier, no later, and
  also past a wrap-around of the 32-bit failure counter.\<close>

theorem faulted_after_three:
  assumes "connectionState g = Operational" and "consecutiveFailures g = 0"
    and "cycles xchg ts g = (os, g')"
  shows "connectionState g' = (if 3 \<le> failures_in_a_row 0 os then Faulted else Operational)"
  using cycles_fault_count [of 0 g xchg ts os g'] assms
  by (simp add: fault_count_def kFaultThreshold_def)

definition drops_two :: "nat exchange_op" where
  "drops_two n c = (if n mod 4 = 3 then Inr GripperStatus_init else Inl UnknownException, n + 1)"

theorem faulted_after_three_witness:
  "let g = (GripperState_create 0 1000 demo_image)\<lparr>connectionState := Operational\<rparr>
   in connectionState (snd (cycles drops_two [1, 2, 3] g)) = Faulted \<and>
      connectionState (snd (cycles drops_two [1, 2, 3, 4] g)) = Operational"
proof -
  define g where "g = (GripperState_create (0::nat) 1000 demo_image)\<lparr>connectionState := Operational\<rparr>"
  have g: "connectionState g = Operational" "consecutiveFailures g = 0"
    by (simp_all add: g_def GripperState_create_def)
  have "failures_in_a_row 0 (fst (cycles drops_two [1, 2, 3] g)) = 3"
    "failures_in_a_row 0 (fst (cycles drops_two [1, 2, 3, 4] g)) = 0"
    unfolding g_def by code_simp+
  with faulted_after_three [OF g surjective_pairing, of drops_two "[1, 2, 3]"]
    faulted_after_three [OF g surjective_pairing, of drops_two "[1, 2, 3, 4]"]
  show ?thesis by (simp add: g_def Let_def del: cycles.simps)
qed

section \<open>Every run\<close>

text \<open>C13: In every interleaving of the thread, of time and of the callers, the exchange counter
  has grown by exactly the exchanges completed, the record's stamp never goes back nor ahead of
  the clock, and the connection state is Operational or Faulted.\<close>

theorem run_invariants:
  assumes "launch rd seeded started (GripperState_create l p im) = Inr w" and "seeded \<le> started"
    and "runs xchg any_event w n w'"
  shows "countOf (record_of w') = of_nat n \<and>
    timestamp (metadata (record_of w)) \<le> timestamp (metadata (record_of w')) \<and>
    timestamp (metadata (record_of w')) \<le> clock w' \<and>
    connectionState (gs w') \<in> {Operational, Faulted}"
proof -
  from launch_start [OF assms(1)] obtain fresh where w: "clock w = started" "pc (gs w) = CheckRunning"
    "consecutiveFailures (gs w) = 0" "connectionState (gs w) = Operational"
    "img (gs w) = image_seed fresh seeded (seed_command fresh) im"
    by auto
  have s: "stamp_inv w" using w assms(2) by (simp add: stamp_inv_def image_seed_def)
  have c: "connection_inv (gs w)" using w by (simp add: connection_inv_def kFaultThreshold_def)
  show ?thesis
    using runs_count [OF assms(3)] runs_stamp [OF assms(3) s] runs_stamp_mono [OF assms(3) s]
      runs_connection [OF assms(3) c] w
    by (simp add: image_simps stamp_inv_def connection_inv_def)
qed

theorem run_invariants_witness:
  "countOf (record_of (run_block demo_link (demo_cycle @ demo_cycle) demo_world)) = 2 \<and>
   connectionState (gs (run_block demo_link (demo_cycle @ demo_cycle) demo_world)) \<in> {Operational, Faulted}"
proof -
  have n: "block_exchanges demo_link (demo_cycle @ demo_cycle) demo_world = 2" by code_simp
  have r: "runs demo_link any_event demo_world 2 (run_block demo_link (demo_cycle @ demo_cycle) demo_world)"
    using run_block_counts [of any_event "demo_cycle @ demo_cycle" demo_link demo_world] unfolding n
    by (simp add: list_all_iff)
  from run_invariants [OF demo_launch _ r] show ?thesis by simp
qed

text \<open>C12: The exchange rate is bounded: \<open>n\<close> exchanges since the thread started take at least
  \<open>n - 1\<close> periods, in every run, bursts after an overrun included.\<close>

theorem exchange_rate:
  assumes "launch rd seeded started (GripperState_create l p im) = Inr w" and "0 \<le> p"
    and "runs xchg any_event w n w'"
  shows "(int n - 1) * p \<le> clock w' - started"
proof -
  from launch_start [OF assms(1)] have w: "clock w = started" "pc (gs w) = CheckRunning"
    "nextCycle (gs w) = started" "cyclePeriod (gs w) = p" by auto
  have "pace_inv started 0 w" using w assms(2) by (simp add: pace_inv_def)
  from runs_pace [OF assms(3) this] have i: "pace_inv started n w'" by simp
  have "cyclePeriod (gs w') = p"
    using assms(3) w(4) by (induction rule: runs.induct) (simp_all add: wstep_period)
  with i show ?thesis
    by (cases "pc (gs w')") (auto simp: pace_inv_def algebra_simps)
qed

theorem exchange_rate_witness:
  "(1::int) * 1000 \<le> clock (run_block demo_link (demo_cycle @ demo_cycle) demo_world) - 0"
proof -
  have n: "block_exchanges demo_link (demo_cycle @ demo_cycle) demo_world = 2" by code_simp
  have r: "runs demo_link any_event demo_world 2 (run_block demo_link (demo_cycle @ demo_cycle) demo_world)"
    using run_block_counts [of any_event "demo_cycle @ demo_cycle" demo_link demo_world] unfolding n
    by (simp add: list_all_iff)
  from exchange_rate [OF demo_launch _ r] show ?thesis by simp
qed

text \<open>C11: A command nobody overwrites reaches the gripper: in any run with no other commander,
  the second exchange to complete, and every later one, carried the command the image held.\<close>

theorem command_carried_by_second_exchange:
  assumes "runs xchg no_commander w n w'" and "2 \<le> n"
  shows "xCommand (gs_stampedExchange (gs w')) = gs_command (gs w)"
  using runs_carried [OF assms(1), of "gs_command (gs w)" 0] assms(2)
  by (simp add: carried_def gs_stampedExchange_def image_stampedExchange_def gs_command_def image_command_def)

theorem command_carried_by_second_exchange_witness:
  "let w = demo_world\<lparr>gs := gs_setCommand demo_command (gs demo_world)\<rparr>
   in xCommand (gs_stampedExchange (gs (run_block demo_link (demo_cycle @ demo_cycle) w))) = demo_command"
proof -
  define w where "w = demo_world\<lparr>gs := gs_setCommand demo_command (gs demo_world)\<rparr>"
  have n: "block_exchanges demo_link (demo_cycle @ demo_cycle) w = 2" unfolding w_def by code_simp
  have "list_all no_commander (demo_cycle @ demo_cycle)" by (simp add: demo_cycle_def list_all_iff)
  from run_block_counts [OF this, of demo_link w] have
    r: "runs demo_link no_commander w 2 (run_block demo_link (demo_cycle @ demo_cycle) w)" unfolding n .
  have "gs_command (gs w) = demo_command" by (simp add: w_def gs_command_def gs_setCommand_def image_command_def image_simps)
  with command_carried_by_second_exchange [OF r] show ?thesis by (simp add: w_def Let_def)
qed

text \<open>On the fake device every record after the seed answers its own command: the echoes are
  those of the command in the same record, the activation is complete exactly when rACT is
  set, and no record mixes two exchanges, in every interleaving.\<close>

theorem fake_records_answer:
  assumes "launch device_readStatus seeded started (GripperState_create RegisterModel_init p im) = Inr w"
    and "runs device_exchange any_event w n w'" and "countOf (record_of w') \<noteq> 0"
  shows "device_answer (xCommand (record_of w')) (xStatus (record_of w'))"
proof -
  have i: "initial_read device_readStatus kInitialReadAttempts (GripperState_create RegisterModel_init p im) =
      (Inr (documented_status (model_status RegisterModel_init)), GripperState_create RegisterModel_init p im)"
    by (simp add: kInitialReadAttempts_def numeral_eq_Suc GripperState_create_def)
  then have w: "device_inv (client (gs w))" "pc (gs w) = CheckRunning" "countOf (record_of w) = 0"
    using assms(1)
    by (auto simp: launch_def initializeImage_def start_def GripperState_create_def image_simps)
  have "device.link_inv w" using w by (simp add: device.link_inv_def)
  from device.record_answers [OF assms(2) this assms(3)] show ?thesis .
qed

definition fake_world :: "RegisterModel world" where
  "fake_world =
     \<lparr>clock = 0, gs = start 0 (snd (initializeImage device_readStatus 0
        (GripperState_create RegisterModel_init 1000 demo_image)))\<rparr>"

theorem fake_records_answer_witness:
  "let w = run_block device_exchange demo_cycle fake_world
   in device_answer (xCommand (record_of w)) (xStatus (record_of w))"
proof -
  have l: "launch device_readStatus 0 0 (GripperState_create RegisterModel_init 1000 demo_image) = Inr fake_world"
    by (simp add: launch_def fake_world_def initializeImage_def kInitialReadAttempts_def
        numeral_eq_Suc GripperState_create_def)
  have n: "countOf (record_of (run_block device_exchange demo_cycle fake_world)) \<noteq> 0"
    by code_simp
  have "list_all any_event demo_cycle" by (simp add: list_all_iff)
  from fake_records_answer [OF l run_block_counts [OF this] n] show ?thesis by (simp add: Let_def)
qed

section \<open>Stopping\<close>

text \<open>After \<open>stop\<close> has stored its two flags the thread finishes by itself: wherever it was,
  within eight of its own steps it is done, or asleep until its next deadline, from which two
  more steps end it; so the join returns.\<close>

theorem stop_ends_the_thread:
  assumes "pc g \<noteq> NotStarted"
  shows "\<exists>n \<le> 8. \<exists>g'. thread_steps xchg now n (stop_close (stop_running g)) = Some g' \<and>
    (pc g' = Finished \<or>
     (pc g' = Sleeping \<and> now < nextCycle g' \<and>
      (\<forall>later \<ge> nextCycle g'. \<exists>g''. thread_steps xchg later 2 g' = Some g'' \<and> pc g'' = Finished)))"
proof -
  let ?g = "stop_close (stop_running g)"
  have run: "thread_steps xchg now n a = Some b \<Longrightarrow> running b = running a" for n a b
    by (induction n arbitrary: a) (auto split: option.splits dest: thread_step_running)
  obtain n g' where n: "n \<le> stop_rank (pc ?g)" and s: "thread_steps xchg now n ?g = Some g'"
    and e: "pc g' = Finished \<or> pc g' = Sleeping \<and> now < nextCycle g'"
    using stopping_thread [of ?g xchg now] assms by auto
  have "\<not> running g'" using run [OF s] by simp
  then have "pc g' = Sleeping \<Longrightarrow>
      (\<forall>later \<ge> nextCycle g'. \<exists>g''. thread_steps xchg later 2 g' = Some g'' \<and> pc g'' = Finished)"
    by (simp add: numeral_eq_Suc thread_step_def)
  with n s e stop_rank_le [of "pc ?g"] show ?thesis by (meson order_trans)
qed

theorem stop_ends_the_thread_witness:
  "\<exists>n \<le> 8. \<exists>g'. thread_steps demo_link 0 n (stop_close (stop_running (gs demo_world))) = Some g' \<and>
     (pc g' = Finished \<or> pc g' = Sleeping)"
proof -
  have "pc (gs demo_world) \<noteq> NotStarted" by (simp add: demo_world_def start_def)
  from stop_ends_the_thread [OF this, of demo_link 0] show ?thesis by blast
qed

end
