(* ===== verification/Wait.thy ===== *)
theory Wait
  imports Schedule
begin

text \<open>
  Waiting (\<open>Robotiq/gripper/wait.hpp\<close>, \<open>src/wait.cpp\<close>, and the waiting methods of \<open>Gripper\<close>
  and \<open>GripperState\<close>): from \<open>sync\<close> up to \<open>waitForMotionEnd\<close>, each over a schedule. A result
  \<open>Some (None, r)\<close> is the code's empty optional; \<open>None\<close> means the schedule ended while the
  code was still waiting. The lemmas give what a returned exchange satisfies, that an empty
  result means the deadline passed or the gripper stopped, and that a link on which nothing
  completes any more makes every wait return empty once its deadline has passed.
\<close>

section \<open>Deadlines\<close>

definition longest :: millis where
  "longest = trunc_div (trunc_div (2 ^ 63 - 1) 1000000) 2"

definition deadlineAfter :: "'l exchange_op \<Rightarrow> millis \<Rightarrow> 'l sched_run \<Rightarrow> (time \<times> 'l sched_run) option" where
  "deadlineAfter xchg timeout r =
     do { (t, r) \<leftarrow> clock_now xchg r; Some (t + ns_of_ms (min timeout longest), r) }"

text \<open>The time left, rounded up to a millisecond; the same text in wait.hpp and gripper.cpp.\<close>

definition remaining_at :: "time \<Rightarrow> time \<Rightarrow> millis" where
  "remaining_at deadline t = (if deadline > t then ceil_ms (deadline - t) else 0)"

section \<open>Waiting for a count\<close>

definition gs_waitForExchange ::
  "'l exchange_op \<Rightarrow> u64 \<Rightarrow> time \<Rightarrow> 'l sched_run \<Rightarrow> (StampedExchange \<times> 'l sched_run) option" where
  "gs_waitForExchange xchg desired deadline r =
     (if desired = 0 then Gripper_getMostRecentStampedExchange xchg r
      else image_sync xchg (desired - 1) deadline r)"

definition Gripper_waitForExchangeCount ::
  "'l exchange_op \<Rightarrow> u64 \<Rightarrow> millis \<Rightarrow> 'l sched_run \<Rightarrow> (StampedExchange option \<times> 'l sched_run) option" where
  "Gripper_waitForExchangeCount xchg desired timeout r =
     do { (deadline, r) \<leftarrow> deadlineAfter xchg timeout r;
          (fresh, r) \<leftarrow> gs_waitForExchange xchg desired deadline r;
          Some (if countOf fresh < desired then None else Some fresh, r) }"

definition Gripper_waitForExchange ::
  "'l exchange_op \<Rightarrow> millis \<Rightarrow> 'l sched_run \<Rightarrow> (StampedExchange option \<times> 'l sched_run) option" where
  "Gripper_waitForExchange xchg timeout r =
     do { (x, r) \<leftarrow> Gripper_getMostRecentStampedExchange xchg r;
          Gripper_waitForExchangeCount xchg (countOf x + 1) timeout r }"

lemma deadlineAfter_progress:
  assumes "deadlineAfter xchg timeout r = Some (d, r')" and "sched_ok ok r"
  shows "progress xchg ok r r'" and "d = clock (fst r') + ns_of_ms (min timeout longest)"
  using assms access_progress(1) [OF assms(2)]
  by (auto simp: deadlineAfter_def bind_eq_Some_conv)

lemma desired_minus_1:
  assumes "desired \<noteq> 0"
  shows "(x :: u64) \<le> desired - 1 \<longleftrightarrow> x < desired"
  using assms unat_minus_one [OF assms] unat_gt_0 [of desired]
  by (auto simp: word_le_nat_alt word_less_nat_alt)

lemma gs_waitForExchange_spec:
  assumes "gs_waitForExchange xchg desired deadline r = Some (x, r')" and "sched_ok ok r"
  shows "progress xchg ok r r' \<and> x = record_of (fst r') \<and>
         (countOf x < desired \<longrightarrow> closed (img (gs (fst r'))) \<or> deadline \<le> clock (fst r'))"
proof (cases "desired = 0")
  case True
  with assms(1) access_progress(3) [OF assms(2)] show ?thesis
    by (auto simp: gs_waitForExchange_def)
next
  case False
  with assms(1) have "image_sync xchg (desired - 1) deadline r = Some (x, r')"
    by (simp add: gs_waitForExchange_def)
  from image_sync_spec [OF this assms(2)] show ?thesis
    by (auto simp: image_waiting_def desired_minus_1 [OF False])
qed

lemma waitForExchangeCount_spec:
  assumes "Gripper_waitForExchangeCount xchg desired timeout r = Some (res, r')" and "sched_ok ok r"
  shows "progress xchg ok r r' \<and>
    (case res of
       Some x \<Rightarrow> x = record_of (fst r') \<and> desired \<le> countOf x
     | None \<Rightarrow> countOf (record_of (fst r')) < desired \<and>
         (closed (img (gs (fst r'))) \<or>
          clock (fst r) + ns_of_ms (min timeout longest) \<le> clock (fst r')))"
proof -
  from assms(1) obtain d r1 x where d: "deadlineAfter xchg timeout r = Some (d, r1)"
    and w: "gs_waitForExchange xchg desired d r1 = Some (x, r')"
    and res: "res = (if countOf x < desired then None else Some x)"
    by (auto simp: Gripper_waitForExchangeCount_def bind_eq_Some_conv)
  note d' = deadlineAfter_progress [OF d assms(2)]
  from progress_clock [OF d'(1)] gs_waitForExchange_spec [OF w progress_sched_ok [OF d'(1) assms(2)]] d'
  show ?thesis by (auto simp: res intro: progress_trans split: if_splits)
qed

lemma waitForExchangeCount_length:
  "Gripper_waitForExchangeCount xchg desired timeout r = Some (res, r') \<Longrightarrow> length (snd r') < length (snd r)"
  using env_length [of xchg r] progress_length
    [of xchg any_event _ r'] gs_waitForExchange_spec [of xchg desired _ _ _ r' any_event]
  by (fastforce simp: Gripper_waitForExchangeCount_def deadlineAfter_def clock_now_def bind_eq_Some_conv)

section \<open>Waiting for a predicate\<close>

function waitForExchangeAfter_loop ::
  "'l exchange_op \<Rightarrow> (StampedExchange \<Rightarrow> bool) \<Rightarrow> time \<Rightarrow> u64 \<Rightarrow> 'l sched_run
     \<Rightarrow> (StampedExchange option \<times> 'l sched_run) option" where
  "waitForExchangeAfter_loop xchg predicate deadline desired r =
     do { (t, r1) \<leftarrow> clock_now xchg r;
          (exchange, r2) \<leftarrow> Gripper_waitForExchangeCount xchg desired (remaining_at deadline t) r1;
          (case exchange of
             None \<Rightarrow> Some (None, r2)
           | Some x \<Rightarrow>
               if predicate x then Some (Some x, r2)
               else waitForExchangeAfter_loop xchg predicate deadline (countOf x + 1) r2) }"
  by pat_completeness auto
termination
proof (relation "measure (\<lambda>(xchg, predicate, deadline, desired, r). length (snd r))")
qed (auto simp: clock_now_def bind_eq_Some_conv dest!: env_length waitForExchangeCount_length)

declare waitForExchangeAfter_loop.simps [simp del]

definition waitForExchangeAfter ::
  "'l exchange_op \<Rightarrow> u64 \<Rightarrow> (StampedExchange \<Rightarrow> bool) \<Rightarrow> millis \<Rightarrow> 'l sched_run
     \<Rightarrow> (StampedExchange option \<times> 'l sched_run) option" where
  "waitForExchangeAfter xchg afterCount predicate timeout r =
     do { (deadline, r) \<leftarrow> deadlineAfter xchg timeout r;
          waitForExchangeAfter_loop xchg predicate deadline (afterCount + 1) r }"

definition waitFor ::
  "'l exchange_op \<Rightarrow> (StampedExchange \<Rightarrow> bool) \<Rightarrow> millis \<Rightarrow> 'l sched_run
     \<Rightarrow> (StampedExchange option \<times> 'l sched_run) option" where
  "waitFor xchg predicate timeout r =
     do { (x, r) \<leftarrow> Gripper_getMostRecentStampedExchange xchg r;
          waitForExchangeAfter xchg (countOf x) predicate timeout r }"

definition setCommandAndWaitForExchange ::
  "'l exchange_op \<Rightarrow> GripperCommand \<Rightarrow> millis \<Rightarrow> 'l sched_run
     \<Rightarrow> (StampedExchange option \<times> 'l sched_run) option" where
  "setCommandAndWaitForExchange xchg command timeout r =
     do { (before, r) \<leftarrow> Gripper_getMostRecentStampedExchange xchg r;
          r \<leftarrow> Gripper_setCommand xchg command r;
          waitForExchangeAfter xchg (countOf before) (\<lambda>x. command_eq (xCommand x) command) timeout r }"

definition waitForPositionEcho ::
  "'l exchange_op \<Rightarrow> u8 \<Rightarrow> millis \<Rightarrow> 'l sched_run \<Rightarrow> (StampedExchange option \<times> 'l sched_run) option" where
  "waitForPositionEcho xchg pos timeout r =
     waitFor xchg (\<lambda>x. positionRequestEcho (xStatus x) = pos) timeout r"

definition waitForObjectDetection ::
  "'l exchange_op \<Rightarrow> ObjectDetection \<Rightarrow> millis \<Rightarrow> 'l sched_run
     \<Rightarrow> (StampedExchange option \<times> 'l sched_run) option" where
  "waitForObjectDetection xchg detection timeout r =
     waitFor xchg (\<lambda>x. objectDetection (gripperStatus (xStatus x)) = detection) timeout r"

definition waitForMotionEnd ::
  "'l exchange_op \<Rightarrow> millis \<Rightarrow> 'l sched_run \<Rightarrow> (StampedExchange option \<times> 'l sched_run) option" where
  "waitForMotionEnd xchg timeout r =
     waitFor xchg (\<lambda>x. objectDetection (gripperStatus (xStatus x)) \<noteq> Moving) timeout r"

section \<open>Polling\<close>

text \<open>\<open>Platform::sleepFor\<close>: the others run until the clock has passed the wake-up time.\<close>

fun sleep_loop :: "'l exchange_op \<Rightarrow> time \<Rightarrow> 'l world \<Rightarrow> event list list \<Rightarrow> 'l sched_run option" where
  "sleep_loop xchg wake w [] = (if clock w < wake then None else Some (w, []))"
| "sleep_loop xchg wake w (b # bs) =
     (if clock w < wake then sleep_loop xchg wake (run_block xchg b w) bs else Some (w, b # bs))"

lemma sleep_loop_length: "sleep_loop xchg wake w bs = Some r' \<Longrightarrow> length (snd r') \<le> length bs"
proof (induction bs arbitrary: w)
  case (Cons b bs)
  show ?case
  proof (cases "clock w < wake")
    case True
    with Cons.prems Cons.IH [of "run_block xchg b w"] show ?thesis by simp
  qed (use Cons.prems in auto)
qed (auto split: if_splits)

text \<open>The predicate reads the gripper, one access per evaluation.\<close>

function pollUntil ::
  "'l exchange_op \<Rightarrow> ('l world \<Rightarrow> bool) \<Rightarrow> time \<Rightarrow> millis \<Rightarrow> 'l sched_run \<Rightarrow> (bool \<times> 'l sched_run) option" where
  "pollUntil xchg predicate deadline pollPeriod r =
     do { r1 \<leftarrow> env xchg r;
          if predicate (fst r1) then Some (True, r1)
          else do { (t, r2) \<leftarrow> clock_now xchg r1;
                    if t \<ge> deadline then Some (False, r2)
                    else do { r3 \<leftarrow> sleep_loop xchg (clock (fst r2) + ns_of_ms pollPeriod) (fst r2) (snd r2);
                              pollUntil xchg predicate deadline pollPeriod r3 } } }"
  by pat_completeness auto
termination
  by (relation "measure (\<lambda>(xchg, predicate, deadline, pollPeriod, r). length (snd r))")
     (auto simp: clock_now_def bind_eq_Some_conv dest!: env_length sleep_loop_length)

declare pollUntil.simps [simp del]

definition waitUntil ::
  "'l exchange_op \<Rightarrow> ('l world \<Rightarrow> bool) \<Rightarrow> time \<Rightarrow> millis \<Rightarrow> 'l sched_run \<Rightarrow> (bool \<times> 'l sched_run) option" where
  "waitUntil xchg predicate deadline pollPeriod r = pollUntil xchg predicate deadline pollPeriod r"

definition waitFor_polling ::
  "'l exchange_op \<Rightarrow> ('l world \<Rightarrow> bool) \<Rightarrow> millis \<Rightarrow> millis \<Rightarrow> 'l sched_run \<Rightarrow> (bool \<times> 'l sched_run) option" where
  "waitFor_polling xchg predicate timeout pollPeriod r =
     do { (t, r) \<leftarrow> clock_now xchg r; pollUntil xchg predicate (t + ns_of_ms timeout) pollPeriod r }"

section \<open>What a wait returns\<close>

lemma longest_value: "longest = 4611686018427"
  by (simp add: longest_def trunc_div_def)

lemma ceil_ms_mono: "a \<le> b \<Longrightarrow> ceil_ms a \<le> ceil_ms b"
  by (simp add: ceil_ms_def div_le_mono zdiv_mono1)

lemma ceil_ms_ns [simp]: "ceil_ms (ns_of_ms m) = m"
  by (simp add: ceil_ms_def ns_of_ms_def)

lemma remaining_at_covers:
  assumes "deadline - t \<le> ns_of_ms longest" and "t \<le> u"
  shows "deadline \<le> u + ns_of_ms (min (remaining_at deadline t) longest)"
proof (cases "deadline > t")
  case True
  have "remaining_at deadline t \<le> longest"
    using True ceil_ms_mono [OF assms(1)] by (simp add: remaining_at_def)
  with True assms(2) ceil_ms_bounds(1) [of "deadline - t"] show ?thesis
    by (simp add: remaining_at_def min_def)
next
  case False
  with assms(2) show ?thesis by (simp add: remaining_at_def longest_value ns_of_ms_def)
qed

lemma waitForExchangeAfter_loop_spec:
  assumes "waitForExchangeAfter_loop xchg predicate deadline desired r = Some (res, r')"
    and "sched_ok ok r" and "deadline - clock (fst r) \<le> ns_of_ms longest"
  shows "progress xchg ok r r' \<and>
    (case res of
       Some x \<Rightarrow> predicate x \<and> x = record_of (fst r') \<and> (room r \<longrightarrow> desired \<le> countOf x)
     | None \<Rightarrow> closed (img (gs (fst r'))) \<or> deadline \<le> clock (fst r'))"
  using assms
proof (induction xchg predicate deadline desired r rule: waitForExchangeAfter_loop.induct)
  case (1 xchg predicate deadline desired r)
  from "1.prems"(1) obtain t r1 ex r2 where t: "clock_now xchg r = Some (t, r1)"
    and w: "Gripper_waitForExchangeCount xchg desired (remaining_at deadline t) r1 = Some (ex, r2)"
    and k: "(case ex of None \<Rightarrow> Some (None, r2)
           | Some x \<Rightarrow> if predicate x then Some (Some x, r2)
               else waitForExchangeAfter_loop xchg predicate deadline (countOf x + 1) r2) = Some (res, r')"
    by (subst (asm) waitForExchangeAfter_loop.simps) (auto simp: bind_eq_Some_conv)
  have p1: "progress xchg ok r r1" and tc: "t = clock (fst r1)"
    using access_progress(1) [OF "1.prems"(2) t] by auto
  note ok1 = progress_sched_ok [OF p1 "1.prems"(2)]
  note s = waitForExchangeCount_spec [OF w ok1]
  have p2: "progress xchg ok r r2" using p1 s by (auto intro: progress_trans)
  note c = progress_clock [OF p1] progress_clock [OF p2]
  show ?case
  proof (cases ex)
    case None
    with s have "closed (img (gs (fst r2))) \<or>
        clock (fst r1) + ns_of_ms (min (remaining_at deadline t) longest) \<le> clock (fst r2)" by simp
    with remaining_at_covers [of deadline t "clock (fst r1)"] "1.prems"(3) c(1) tc None k p2
    show ?thesis by auto
  next
    case (Some x)
    with s have x: "x = record_of (fst r2)" "desired \<le> countOf x" by auto
    show ?thesis
    proof (cases "predicate x")
      case True
      with Some k p2 x show ?thesis by auto
    next
      case False
      have "progress xchg ok r2 r' \<and>
        (case res of
           Some y \<Rightarrow> predicate y \<and> y = record_of (fst r') \<and> (room r2 \<longrightarrow> countOf x + 1 \<le> countOf y)
         | None \<Rightarrow> closed (img (gs (fst r'))) \<or> deadline \<le> clock (fst r'))"
      proof (rule "1.IH" [OF t HOL.refl w HOL.refl Some False])
        show "waitForExchangeAfter_loop xchg predicate deadline (countOf x + 1) r2 = Some (res, r')"
          using k Some False by simp
        show "sched_ok ok r2" by (rule progress_sched_ok [OF p2 "1.prems"(2)])
        show "deadline - clock (fst r2) \<le> ns_of_ms longest" using "1.prems"(3) c(2) by linarith
      qed
      moreover have "desired \<le> countOf x + 1" if "room r"
      proof -
        from progress_count(2) [OF p2 that] have "unat (countOf x) + 1 < 2 ^ 64"
          by (simp add: room_def x)
        then have "countOf x \<le> countOf x + 1"
          by (simp add: word_le_nat_alt unat_word_ariths)
        with x(2) show ?thesis by (rule order_trans)
      qed
      ultimately show ?thesis
        using p2 progress_count(2) [OF p2] by (auto intro: progress_trans split: option.splits)
    qed
  qed
qed

lemma waitForExchangeAfter_spec:
  assumes "waitForExchangeAfter xchg after predicate timeout r = Some (res, r')" and "sched_ok ok r"
  shows "progress xchg ok r r' \<and>
    (case res of
       Some x \<Rightarrow> predicate x \<and> x = record_of (fst r') \<and> (room r \<longrightarrow> after + 1 \<le> countOf x)
     | None \<Rightarrow> closed (img (gs (fst r'))) \<or>
         clock (fst r) + ns_of_ms (min timeout longest) \<le> clock (fst r'))"
proof -
  from assms(1) obtain d r1 where d: "deadlineAfter xchg timeout r = Some (d, r1)"
    and l: "waitForExchangeAfter_loop xchg predicate d (after + 1) r1 = Some (res, r')"
    by (auto simp: waitForExchangeAfter_def bind_eq_Some_conv)
  note d' = deadlineAfter_progress [OF d assms(2)]
  have "d - clock (fst r1) \<le> ns_of_ms longest" by (simp add: d'(2) ns_of_ms_def min_def)
  from waitForExchangeAfter_loop_spec [OF l progress_sched_ok [OF d'(1) assms(2)] this]
  show ?thesis
    using d' progress_clock [OF d'(1)] progress_count(2) [OF d'(1)]
    by (auto intro: progress_trans split: option.splits)
qed

lemma waitFor_spec:
  assumes "waitFor xchg predicate timeout r = Some (res, r')" and "sched_ok ok r"
  shows "progress xchg ok r r' \<and>
    (case res of
       Some x \<Rightarrow> predicate x \<and> x = record_of (fst r') \<and>
         (room r \<longrightarrow> countOf (record_of (fst r)) < countOf x)
     | None \<Rightarrow> closed (img (gs (fst r'))) \<or>
         clock (fst r) + ns_of_ms (min timeout longest) \<le> clock (fst r'))"
proof -
  from assms(1) obtain y r1 where
    y: "Gripper_getMostRecentStampedExchange xchg r = Some (y, r1)"
    and l: "waitForExchangeAfter xchg (countOf y) predicate timeout r1 = Some (res, r')"
    by (auto simp: waitFor_def bind_eq_Some_conv)
  have p: "progress xchg ok r r1" and yr: "y = record_of (fst r1)"
    using access_progress(3) [OF assms(2) y] by auto
  have lt: "countOf (record_of (fst r)) < z" if "room r" and "countOf y + 1 \<le> z" for z
  proof -
    note q = progress_count [OF p that(1)]
    from q(2) have "unat (countOf y) + 1 < 2 ^ 64" by (simp add: room_def yr)
    then have "countOf y < countOf y + 1" by (simp add: word_less_nat_alt unat_word_ariths)
    with q(1) that(2) show ?thesis by (simp add: yr)
  qed
  from waitForExchangeAfter_spec [OF l progress_sched_ok [OF p assms(2)]]
  show ?thesis
    using p progress_clock [OF p] progress_count(2) [OF p] lt
    by (auto intro: progress_trans split: option.splits)
qed

section \<open>Every wait for a count returns, and a dead link makes the others return empty\<close>

lemma clock_now_returns:
  assumes "snd r \<noteq> []"
  obtains r' where "clock_now xchg r = Some (clock (fst r'), r')" "progress xchg any_event r r'"
    "length (snd r) = Suc (length (snd r'))"
proof -
  from env_returns [OF assms, where xchg = xchg] that show thesis
    by (metis (no_types, lifting) bind.bind_lunit clock_now_def)
qed

lemma mostRecent_returns:
  assumes "snd r \<noteq> []"
  obtains r' where "Gripper_getMostRecentStampedExchange xchg r = Some (record_of (fst r'), r')"
    "progress xchg any_event r r'" "length (snd r) = Suc (length (snd r'))"
proof -
  from env_returns [OF assms, where xchg = xchg] obtain v where
    "env xchg r = Some v" "progress xchg any_event r v" "length (snd r) = Suc (length (snd v))" .
  then show thesis
    by (intro that [of v])
       (simp_all add: Gripper_getMostRecentStampedExchange_def gs_stampedExchange_def
         image_stampedExchange_def)
qed

lemma deadlineAfter_returns:
  assumes "snd r \<noteq> []"
  obtains r' where "deadlineAfter xchg timeout r = Some (clock (fst r') + ns_of_ms (min timeout longest), r')"
    "progress xchg any_event r r'" "length (snd r) = Suc (length (snd r'))"
proof -
  from clock_now_returns [OF assms, where xchg = xchg] obtain v where
    "clock_now xchg r = Some (clock (fst v), v)" "progress xchg any_event r v"
    "length (snd r) = Suc (length (snd v))" .
  then show thesis by (intro that [of v]) (simp_all add: deadlineAfter_def)
qed

lemma image_sync_returns:
  assumes "ticking d (snd r)" and "k + 1 \<le> length (snd r)" and "deadline \<le> clock (fst r) + int (k * d)"
  shows "\<exists>x r'. image_sync xchg count deadline r = Some (x, r') \<and>
           length (snd r) \<le> length (snd r') + (k + 1)"
proof -
  have "snd r \<noteq> []" using assms(2) by auto
  then obtain v where v: "env xchg r = Some v" "progress xchg any_event r v"
    "length (snd r) = Suc (length (snd v))" by (rule env_returns [where xchg = xchg])
  have "\<exists>x r'. sync_loop xchg count deadline (fst v) (snd v) = Some (x, r') \<and>
          length (snd v) \<le> length (snd r') + k"
    by (rule sync_loop_returns [OF progress_ticking [OF v(2) assms(1)]])
       (use assms v progress_clock [OF v(2)] in auto)
  with v show ?thesis by (auto simp: image_sync_def split_beta)
qed

lemma waitForExchangeCount_returns:
  assumes "ticking d (snd r)" and "k + 2 \<le> length (snd r)"
    and "ns_of_ms (min timeout longest) \<le> int (k * d)"
  shows "\<exists>res r'. Gripper_waitForExchangeCount xchg desired timeout r = Some (res, r')"
proof -
  have "snd r \<noteq> []" using assms(2) by auto
  then obtain v where v: "deadlineAfter xchg timeout r = Some (clock (fst v) + ns_of_ms (min timeout longest), v)"
    "progress xchg any_event r v" "length (snd r) = Suc (length (snd v))"
    by (rule deadlineAfter_returns [where xchg = xchg and timeout = timeout])
  have "\<exists>x r'. gs_waitForExchange xchg desired (clock (fst v) + ns_of_ms (min timeout longest)) v = Some (x, r')"
  proof (cases "desired = 0")
    case True
    have "snd v \<noteq> []" using v(3) assms(2) by auto
    then obtain u where "Gripper_getMostRecentStampedExchange xchg v = Some (record_of (fst u), u)"
      by (rule mostRecent_returns [where xchg = xchg])
    with True show ?thesis by (simp add: gs_waitForExchange_def)
  next
    case False
    have "\<exists>x r'. image_sync xchg (desired - 1) (clock (fst v) + ns_of_ms (min timeout longest)) v = Some (x, r') \<and>
            length (snd v) \<le> length (snd r') + (k + 1)"
      by (rule image_sync_returns [OF progress_ticking [OF v(2) assms(1)]]) (use assms v in auto)
    with False show ?thesis by (auto simp: gs_waitForExchange_def)
  qed
  with v show ?thesis by (auto simp: Gripper_waitForExchangeCount_def)
qed

lemma dead_link_count:
  assumes "Gripper_waitForExchangeCount xchg desired timeout r = Some (res, r')"
    and "dead_link xchg" and "silent (pc (gs (fst r)))" and "countOf (record_of (fst r)) < desired"
  shows "res = None"
proof -
  from waitForExchangeCount_spec [OF assms(1), of any_event]
  have p: "progress xchg any_event r r'" and
    x: "case res of Some x \<Rightarrow> x = record_of (fst r') \<and> desired \<le> countOf x | None \<Rightarrow> True"
    by (auto split: option.splits)
  from progress_silent(2) [OF p assms(2,3)] x assms(4) show ?thesis by (auto split: option.splits)
qed

lemma remaining_at_le:
  assumes "deadline \<le> t + ns_of_ms m"
  shows "remaining_at deadline t \<le> max 0 m"
proof (cases "deadline > t")
  case True
  have "ceil_ms (deadline - t) \<le> m" using ceil_ms_mono [of "deadline - t" "ns_of_ms m"] assms by simp
  with True show ?thesis by (simp add: remaining_at_def)
qed (simp add: remaining_at_def)

lemma ns_of_ms_mono: "a \<le> b \<Longrightarrow> ns_of_ms a \<le> ns_of_ms b"
  by (simp add: ns_of_ms_def)

lemma waitFor_dead:
  assumes "dead_link xchg" and "silent (pc (gs (fst r)))" and "room r" and "ticking d (snd r)"
    and "k + 5 \<le> length (snd r)" and "ns_of_ms (max 0 timeout) \<le> int (k * d)"
  shows "\<exists>r'. waitFor xchg predicate timeout r = Some (None, r') \<and> progress xchg any_event r r'"
proof -
  have "snd r \<noteq> []" using assms(5) by auto
  then obtain a where a: "Gripper_getMostRecentStampedExchange xchg r = Some (record_of (fst a), a)"
    "progress xchg any_event r a" "length (snd r) = Suc (length (snd a))"
    by (rule mostRecent_returns [where xchg = xchg])
  have "snd a \<noteq> []" using a assms(5) by auto
  then obtain b where b: "deadlineAfter xchg timeout a =
      Some (clock (fst b) + ns_of_ms (min timeout longest), b)"
    "progress xchg any_event a b" "length (snd a) = Suc (length (snd b))"
    by (rule deadlineAfter_returns [where xchg = xchg and timeout = timeout])
  define D where "D = clock (fst b) + ns_of_ms (min timeout longest)"
  have "snd b \<noteq> []" using a b assms(5) by auto
  then obtain c where c: "clock_now xchg b = Some (clock (fst c), c)"
    "progress xchg any_event b c" "length (snd b) = Suc (length (snd c))"
    by (rule clock_now_returns [where xchg = xchg])
  have ra: "progress xchg any_event r c" using a b c by (blast intro: progress_trans)
  have rem: "ns_of_ms (min (remaining_at D (clock (fst c))) longest) \<le> int (k * d)"
  proof -
    have "remaining_at D (clock (fst c)) \<le> max 0 (min timeout longest)"
      using progress_clock [OF c(2)] by (intro remaining_at_le) (simp add: D_def)
    then have "min (remaining_at D (clock (fst c))) longest \<le> max 0 timeout" by auto
    from ns_of_ms_mono [OF this] assms(6) show ?thesis by simp
  qed
  obtain res r' where w: "Gripper_waitForExchangeCount xchg (countOf (record_of (fst a)) + 1)
      (remaining_at D (clock (fst c))) c = Some (res, r')"
    using waitForExchangeCount_returns [OF progress_ticking [OF ra assms(4)] _ rem] a b c assms(5)
    by fastforce
  have "countOf (record_of (fst c)) < countOf (record_of (fst a)) + 1"
    using progress_silent [OF ra assms(1,2)] progress_silent [OF a(2) assms(1,2)] assms(3)
    by (simp add: room_def word_less_nat_alt unat_word_ariths)
  from dead_link_count [OF w assms(1) progress_silent(1) [OF ra assms(1,2)] this] have n: "res = None" .
  have "waitForExchangeAfter_loop xchg predicate D (countOf (record_of (fst a)) + 1) b = Some (None, r')"
    by (subst waitForExchangeAfter_loop.simps) (simp add: c w n)
  with a b have "waitFor xchg predicate timeout r = Some (None, r')"
    by (simp add: waitFor_def waitForExchangeAfter_def D_def)
  moreover have "progress xchg any_event c r'"
    using waitForExchangeCount_spec [OF w, of any_event] by simp
  ultimately show ?thesis using ra by (blast intro: progress_trans)
qed

section \<open>An empty result is not wrong about the newest exchange\<close>

lemma waitForExchangeAfter_loop_none:
  assumes "waitForExchangeAfter_loop xchg predicate deadline desired r = Some (None, r')"
    and "sched_ok ok r" and "room r"
  shows "progress xchg ok r r' \<and>
    (countOf (record_of (fst r')) < desired \<or> \<not> predicate (record_of (fst r')))"
  using assms
proof (induction xchg predicate deadline desired r rule: waitForExchangeAfter_loop.induct)
  case (1 xchg predicate deadline desired r)
  from "1.prems"(1) obtain t r1 ex r2 where t: "clock_now xchg r = Some (t, r1)"
    and w: "Gripper_waitForExchangeCount xchg desired (remaining_at deadline t) r1 = Some (ex, r2)"
    and k: "(case ex of None \<Rightarrow> Some (None, r2)
           | Some x \<Rightarrow> if predicate x then Some (Some x, r2)
               else waitForExchangeAfter_loop xchg predicate deadline (countOf x + 1) r2) = Some (None, r')"
    by (subst (asm) waitForExchangeAfter_loop.simps) (auto simp: bind_eq_Some_conv)
  have p1: "progress xchg ok r r1" using access_progress(1) [OF "1.prems"(2) t] by auto
  note s = waitForExchangeCount_spec [OF w progress_sched_ok [OF p1 "1.prems"(2)]]
  have p2: "progress xchg ok r r2" using p1 s by (auto intro: progress_trans)
  show ?case
  proof (cases ex)
    case None
    with s k p2 show ?thesis by auto
  next
    case (Some x)
    with s have x: "x = record_of (fst r2)" by auto
    from k Some have np: "\<not> predicate x" by (auto split: if_splits)
    have room2: "room r2" by (rule progress_count(2) [OF p2 "1.prems"(3)])
    have ih: "progress xchg ok r2 r' \<and>
        (countOf (record_of (fst r')) < countOf x + 1 \<or> \<not> predicate (record_of (fst r')))"
      by (rule "1.IH" [OF t HOL.refl w HOL.refl Some np])
         (use k Some np room2 progress_sched_ok [OF p2 "1.prems"(2)] in auto)
    have "record_of (fst r') = x" if "countOf (record_of (fst r')) < countOf x + 1"
    proof -
      from room2 have "unat (countOf x) + 1 < 2 ^ 64" by (simp add: room_def x)
      with that have "countOf (record_of (fst r')) \<le> countOf (record_of (fst r2))"
        by (simp add: x word_less_nat_alt word_le_nat_alt unat_word_ariths)
      with progress_same_record [of xchg ok r2 r'] ih room2 show ?thesis by (simp add: x)
    qed
    with ih np p2 show ?thesis by (auto intro: progress_trans)
  qed
qed

lemma waitForExchangeAfter_none:
  assumes "waitForExchangeAfter xchg after predicate timeout r = Some (None, r')"
    and "sched_ok ok r" and "room r"
  shows "countOf (record_of (fst r')) < after + 1 \<or> \<not> predicate (record_of (fst r'))"
proof -
  from assms(1) obtain d r1 where d: "deadlineAfter xchg timeout r = Some (d, r1)"
    and l: "waitForExchangeAfter_loop xchg predicate d (after + 1) r1 = Some (None, r')"
    by (auto simp: waitForExchangeAfter_def bind_eq_Some_conv)
  note d' = deadlineAfter_progress(1) [OF d assms(2)]
  from waitForExchangeAfter_loop_none [OF l progress_sched_ok [OF d' assms(2)]
      progress_count(2) [OF d' assms(3)]]
  show ?thesis by simp
qed

text \<open>\<open>setCommandAndWaitForExchange\<close>: an exchange it returns is new and carried the block; when it returns
  none, its three calls leave a run in which the block was set and nobody replaced it.\<close>

lemma setCommandAndWait_carried:
  assumes "setCommandAndWaitForExchange xchg c timeout r = Some (Some x, r')" and "room r"
  shows "progress xchg any_event r r' \<and> command_eq (xCommand x) c \<and> x = record_of (fst r')
    \<and> countOf (record_of (fst r)) < countOf x"
proof -
  from assms(1) obtain y r1 r2 where y: "Gripper_getMostRecentStampedExchange xchg r = Some (y, r1)"
    and e: "Gripper_setCommand xchg c r1 = Some r2"
    and w: "waitForExchangeAfter xchg (countOf y) (\<lambda>x. command_eq (xCommand x) c) timeout r2 = Some (Some x, r')"
    by (auto simp: setCommandAndWaitForExchange_def bind_eq_Some_conv)
  have p1: "progress xchg any_event r r1" "y = record_of (fst r1)"
    using access_progress(3) [OF _ y, of any_event] by simp_all
  have p2: "progress xchg any_event r1 r2" using setCommand_progress(1) [OF e] by simp
  note s = waitForExchangeAfter_spec [OF w, of any_event, simplified]
  have p02: "progress xchg any_event r r2" by (rule progress_trans [OF p1(1) p2])
  have "countOf y + 1 \<le> countOf x" using s progress_count(2) [OF p02 assms(2)] by auto
  moreover have "unat (countOf y) + 1 < 2 ^ 64"
    using progress_count(2) [OF p1(1) assms(2)] p1(2) by (simp add: room_def)
  ultimately have "countOf y < countOf x"
    by (simp add: word_le_nat_alt word_less_nat_alt unat_word_ariths)
  then have "countOf (record_of (fst r)) < countOf x"
    using progress_count(1) [OF p1(1) assms(2)] p1(2) by simp
  with s progress_trans [OF p02] show ?thesis by auto
qed

lemma at_most_one_missed:
  assumes "progress xchg no_commander r r'" and "imgCommand (img (gs (fst r))) = c" and "room r"
    and "n \<le> countOf (record_of (fst r))"
    and "countOf (record_of (fst r')) < n + 1 \<or> \<not> command_eq (xCommand (record_of (fst r'))) c"
  shows "countOf (record_of (fst r')) \<le> countOf (record_of (fst r)) + 1"
proof -
  obtain k where k: "runs xchg no_commander (fst r) k (fst r')"
    and l: "k + length (concat (snd r')) \<le> length (concat (snd r))" using assms(1) by (auto simp: progress_def)
  have cnt: "countOf (record_of (fst r')) = countOf (record_of (fst r)) + of_nat k" by (rule runs_count [OF k])
  have k64: "unat (of_nat k :: u64) = k" using assms(3) l by (simp add: room_def unat_of_nat take_bit_nat_eq_self)
  have "carried c 0 (fst r)" using assms(2) by (simp add: carried_def)
  from runs_carried [OF k this] have "2 \<le> k \<Longrightarrow> command_eq (xCommand (record_of (fst r'))) c"
    by (simp add: carried_def)
  moreover have "2 \<le> k \<Longrightarrow> \<not> countOf (record_of (fst r')) < n + 1"
    using cnt k64 assms(3,4) l by (simp add: room_def word_less_nat_alt word_le_nat_alt unat_word_ariths)
  ultimately have "k < 2" using assms(5) by fastforce
  then consider "k = 0" | "k = 1" by arith
  then show ?thesis
    using cnt assms(3) by cases (simp_all add: room_def word_le_nat_alt unat_word_ariths)
qed

end
