(* ===== verification/WaitProperties.thy ===== *)
theory WaitProperties
  imports Demo Wait
begin

text \<open>
  Properties of waiting: what a result, present or empty, means of the exchanges that
  completed; that waits return; and that their deadlines fit the clock's type.
\<close>

text \<open>\<open>deadlineAfter\<close> does not overflow: for any non-negative timeout, \<open>milliseconds::max()\<close>
  included, and a clock in the lower half of its range, the capped timeout in nanoseconds and
  the deadline both fit the 64-bit time point.\<close>

theorem deadlineAfter_fits:
  assumes "deadlineAfter xchg timeout r = Some (d, r')" and "0 \<le> timeout"
    and "0 \<le> clock (fst r')" and "clock (fst r') \<le> 2 ^ 62"
  shows "fits_i64 (ns_of_ms (min timeout longest)) \<and> fits_i64 d \<and> clock (fst r') \<le> d"
proof -
  have "d = clock (fst r') + ns_of_ms (min timeout longest)"
    using deadlineAfter_progress(2) [OF assms(1), of any_event] by simp
  then show ?thesis
    using assms(2-4) by (auto simp: fits_i64_def ns_of_ms_def longest_value min_def)
qed

theorem deadlineAfter_fits_witness:
  "\<exists>d r'. deadlineAfter demo_link (2 ^ 63 - 1) (demo_world, [[]]) = Some (d, r') \<and> fits_i64 d"
proof -
  have e: "deadlineAfter demo_link (2 ^ 63 - 1) (demo_world, [[]]) =
      Some (ns_of_ms (min (2 ^ 63 - 1) longest), (demo_world, []))"
    by (simp add: deadlineAfter_def clock_now_def demo_world_def)
  from deadlineAfter_fits [OF e] have "fits_i64 (ns_of_ms (min (2 ^ 63 - 1) longest))"
    by (simp add: demo_world_def)
  with e show ?thesis by blast
qed

text \<open>C7: \<open>waitForExchangeCount\<close> always returns, whatever the link and the other threads do, as
  soon as time passes: if each block lets \<open>d\<close> nanoseconds pass and \<open>k\<close> of them cover the
  timeout, then \<open>k + 2\<close> blocks are enough. An exchange it returns is the newest one and has
  reached the count; an empty result means the count was not reached and the gripper stopped
  or the time is over.\<close>

theorem waitForExchangeCount_total:
  assumes "ticking d (snd r)" and "k + 2 \<le> length (snd r)" and "ns_of_ms timeout \<le> int (k * d)"
    and "timeout \<le> longest"
  shows "\<exists>res r'. Gripper_waitForExchangeCount xchg desired timeout r = Some (res, r') \<and>
    (case res of
       Some x \<Rightarrow> x = record_of (fst r') \<and> desired \<le> countOf x
     | None \<Rightarrow> countOf (record_of (fst r')) < desired \<and>
         (closed (img (gs (fst r'))) \<or> clock (fst r) + ns_of_ms timeout \<le> clock (fst r')))"
proof -
  have m: "min timeout longest = timeout" using assms(4) by simp
  have "ns_of_ms (min timeout longest) \<le> int (k * d)" using assms(3) by (simp add: m)
  from waitForExchangeCount_returns [OF assms(1,2) this] obtain res r' where
    w: "Gripper_waitForExchangeCount xchg desired timeout r = Some (res, r')" by blast
  from waitForExchangeCount_spec [OF w, of any_event] w show ?thesis unfolding m by auto
qed

theorem waitForExchangeCount_total_witness:
  "\<exists>res r'. Gripper_waitForExchangeCount lost_link 1 2 lost_run = Some (res, r')"
proof -
  have "2 + 2 \<le> length (snd lost_run)" "ns_of_ms 2 \<le> int (2 * 1000000)" "(2::millis) \<le> longest"
    by (simp_all add: lost_run_counts ns_of_ms_def longest_value)
  from waitForExchangeCount_total [OF lost_run_ticking this] show ?thesis by blast
qed

text \<open>C8: \<open>waitFor\<close> judges fresh exchanges, and every one it has not judged is too late: the exchange it
  returns satisfies the predicate, is the newest record and completed after the call. An empty result
  means that the gripper stopped or the time is over, and that the newest record at the return either
  is no newer than the one the call found first (\<open>y\<close>) or does not satisfy the predicate.\<close>

theorem waitFor_result:
  assumes "waitFor xchg predicate timeout r = Some (res, r')" and "room r" and "timeout \<le> longest"
  shows "case res of
       Some x \<Rightarrow> predicate x \<and> x = record_of (fst r') \<and> countOf (record_of (fst r)) < countOf x
     | None \<Rightarrow> (closed (img (gs (fst r'))) \<or> clock (fst r) + ns_of_ms timeout \<le> clock (fst r'))
         \<and> (\<exists>y r1. Gripper_getMostRecentStampedExchange xchg r = Some (y, r1)
              \<and> (countOf (record_of (fst r')) \<le> countOf y \<or> \<not> predicate (record_of (fst r'))))"
proof (cases res)
  case (Some x)
  then show ?thesis using waitFor_spec [OF assms(1), of any_event] assms(2) by auto
next
  case None
  obtain y r1 where y: "Gripper_getMostRecentStampedExchange xchg r = Some (y, r1)"
    and w: "waitForExchangeAfter xchg (countOf y) predicate timeout r1 = Some (None, r')"
    using assms(1) None by (auto simp: waitFor_def bind_eq_Some_conv)
  have p: "progress xchg any_event r r1" "y = record_of (fst r1)"
    using access_progress(3) [OF _ y, of any_event] by simp_all
  note room1 = progress_count(2) [OF p(1) assms(2)]
  have "unat (countOf y) + 1 < 2 ^ 64" using room1 by (simp add: room_def p(2))
  then have "n \<le> countOf y" if "n < countOf y + 1" for n
    using that by (simp add: word_less_nat_alt word_le_nat_alt unat_word_ariths)
  with waitForExchangeAfter_none [OF w sched_ok_any room1]
  have "countOf (record_of (fst r')) \<le> countOf y \<or> \<not> predicate (record_of (fst r'))" by blast
  moreover have "closed (img (gs (fst r'))) \<or> clock (fst r) + ns_of_ms timeout \<le> clock (fst r')"
    using waitFor_spec [OF assms(1), of any_event] assms(3) None by simp
  ultimately show ?thesis using y None by simp
qed

theorem waitFor_result_witness:
  "\<exists>x r'. waitFor demo_link (\<lambda>x. \<not> activated (gripperStatus (xStatus x))) 1000 demo_run = Some (Some x, r') \<and>
     \<not> activated (gripperStatus (xStatus x)) \<and> 0 < countOf x"
proof -
  have "map_option (\<lambda>(x, r). x \<noteq> None)
        (waitFor demo_link (\<lambda>x. \<not> activated (gripperStatus (xStatus x))) 1000 demo_run) = Some True"
    by code_simp
  then obtain x r' where
    w: "waitFor demo_link (\<lambda>x. \<not> activated (gripperStatus (xStatus x))) 1000 demo_run = Some (Some x, r')"
    by auto
  have "(1000::millis) \<le> longest" by (simp add: longest_value)
  from waitFor_result [OF w demo_run_room this] have
    "\<not> activated (gripperStatus (xStatus x)) \<and> 0 < countOf x"
    unfolding demo_run_counts option.case by blast
  with w show ?thesis by blast
qed

text \<open>C5: \<open>setCommandAndWaitForExchange\<close>: an exchange it returns carried exactly the block given
  (all sixteen bytes) and completed after the call. An empty result means that the time is over or
  the gripper stopped and, when nobody else commands, that since the instant at which the call put
  the block in the image (\<open>m\<close>, which the schedule determines) at most one exchange completed, so
  that no exchange that had to carry the block was missed.\<close>

theorem setCommandAndWait_result:
  assumes "setCommandAndWaitForExchange xchg c timeout r = Some (res, r')"
    and "sched_ok no_commander r" and "room r"
  shows "case res of
       Some x \<Rightarrow> command_eq (xCommand x) c \<and> x = record_of (fst r') \<and>
         countOf (record_of (fst r)) < countOf x
     | None \<Rightarrow> (\<exists>y r1 m. Gripper_getMostRecentStampedExchange xchg r = Some (y, r1) \<and>
           Gripper_setCommand xchg c r1 = Some m \<and> progress xchg no_commander m r' \<and>
           countOf (record_of (fst r')) \<le> countOf (record_of (fst m)) + 1) \<and>
         imgCommand (img (gs (fst r'))) = c \<and>
         (ProcessImage.closed (img (gs (fst r'))) \<or>
          clock (fst r) + ns_of_ms (min timeout longest) \<le> clock (fst r'))"
proof (cases res)
  case (Some x)
  with setCommandAndWait_carried [OF assms(1) [unfolded Some] assms(3)] show ?thesis by auto
next
  case None
  obtain y r1 r2 where y: "Gripper_getMostRecentStampedExchange xchg r = Some (y, r1)"
    and e: "Gripper_setCommand xchg c r1 = Some r2"
    and w: "waitForExchangeAfter xchg (countOf y) (\<lambda>x. command_eq (xCommand x) c) timeout r2 = Some (None, r')"
    using assms(1) None by (auto simp: setCommandAndWaitForExchange_def bind_eq_Some_conv)
  have p1: "progress xchg no_commander r r1" and yr: "y = record_of (fst r1)"
    using access_progress(3) [OF assms(2) y] by auto
  note f = setCommand_progress [OF e sched_ok_any, simplified]
  note ok2 = progress_sched_ok [OF f(1) progress_sched_ok [OF p1 assms(2)]]
  have p02: "progress xchg any_event r r2"
    using progress_mono [OF p1, of any_event] f(1) by (auto intro: progress_trans)
  note room2 = progress_count(2) [OF p02 assms(3)]
  have p: "progress xchg no_commander r2 r'" and over: "ProcessImage.closed (img (gs (fst r'))) \<or>
      clock (fst r2) + ns_of_ms (min timeout longest) \<le> clock (fst r')"
    using waitForExchangeAfter_spec [OF w ok2] by auto
  have "countOf y \<le> countOf (record_of (fst r2))"
    using progress_count(1) [OF f(1) progress_count(2) [OF p1 assms(3)]] by (simp add: yr)
  from at_most_one_missed [OF p f(2) room2 this] waitForExchangeAfter_none [OF w ok2 room2]
  have "countOf (record_of (fst r')) \<le> countOf (record_of (fst r2)) + 1" by blast
  moreover have "imgCommand (img (gs (fst r'))) = c" using progress_command [OF p] f(2) by simp
  moreover have "ProcessImage.closed (img (gs (fst r'))) \<or>
      clock (fst r) + ns_of_ms (min timeout longest) \<le> clock (fst r')"
    using over progress_clock [OF p02] by linarith
  ultimately show ?thesis unfolding None option.case using y e p by blast
qed

theorem setCommandAndWait_result_witness:
  "\<exists>x r'. setCommandAndWaitForExchange demo_link demo_command 1000 demo_run = Some (Some x, r') \<and>
     command_eq (xCommand x) demo_command"
proof -
  have "map_option (\<lambda>(x, r). x \<noteq> None) (setCommandAndWaitForExchange demo_link demo_command 1000 demo_run) = Some True"
    by code_simp
  then obtain x r' where
    w: "setCommandAndWaitForExchange demo_link demo_command 1000 demo_run = Some (Some x, r')" by auto
  from setCommandAndWait_result [OF w demo_run_no_commander demo_run_room] w show ?thesis by auto
qed

text \<open>A dead link does not block a caller: once no exchange succeeds any more, \<open>waitFor\<close>
  returns, with an empty result, as soon as the timeout has passed.\<close>

theorem waitFor_on_dead_link:
  assumes "dead_link xchg" and "silent (pc (gs (fst r)))" and "room r" and "ticking d (snd r)"
    and "k + 5 \<le> length (snd r)" and "ns_of_ms (max 0 timeout) \<le> int (k * d)"
  shows "\<exists>r'. waitFor xchg predicate timeout r = Some (None, r')"
  using waitFor_dead [OF assms] by blast

theorem waitFor_on_dead_link_witness:
  "\<exists>r'. waitFor lost_link (\<lambda>_. True) 4 lost_run = Some (None, r')"
proof -
  have "4 + 5 \<le> length (snd lost_run)" "ns_of_ms (max 0 4) \<le> int (4 * 1000000)"
    by (simp_all add: lost_run_counts ns_of_ms_def)
  from waitFor_on_dead_link [OF dead_lost_link lost_run_silent lost_run_room lost_run_ticking this]
  show ?thesis .
qed

end
