(* ===== verification/Activation.thy ===== *)
theory Activation
  imports Wait
begin

text \<open>
  The blocking procedures of \<open>src/gripper.cpp\<close> over a schedule: \<open>activate\<close>,
  \<open>recoverFromFault\<close>, the reset handshake they share, and the construction of a \<open>Gripper\<close>.
  The lemmas say which commands each procedure may send, what each result means of the
  exchanges seen, and that a dead link ends in \<open>Timeout\<close>.
\<close>

section \<open>The steps of the procedures\<close>

definition remaining :: "'l exchange_op \<Rightarrow> time \<Rightarrow> 'l sched_run \<Rightarrow> (millis \<times> 'l sched_run) option" where
  "remaining xchg deadline r =
     do { (t, r) \<leftarrow> clock_now xchg r; Some (remaining_at deadline t, r) }"

definition waitForStatus ::
  "'l exchange_op \<Rightarrow> (GripperStatus \<Rightarrow> bool) \<Rightarrow> time \<Rightarrow> 'l sched_run
     \<Rightarrow> (StampedExchange option \<times> 'l sched_run) option" where
  "waitForStatus xchg predicate deadline r =
     do { (left, r) \<leftarrow> remaining xchg deadline r;
          waitFor xchg (\<lambda>x. predicate (xStatus x)) left r }"

definition waitOperational ::
  "'l exchange_op \<Rightarrow> time \<Rightarrow> 'l sched_run \<Rightarrow> (StampedExchange option \<times> 'l sched_run) option" where
  "waitOperational xchg deadline r = waitForStatus xchg (\<lambda>_. True) deadline r"

definition waitForActivationComplete ::
  "'l exchange_op \<Rightarrow> time \<Rightarrow> 'l sched_run \<Rightarrow> (ActivationResult \<times> 'l sched_run) option" where
  "waitForActivationComplete xchg deadline r =
     do { (x, r) \<leftarrow> waitForStatus xchg (\<lambda>s. activationState (gripperStatus s) = Complete) deadline r;
          Some (case x of Some _ \<Rightarrow> Activated | None \<Rightarrow> Timeout, r) }"

definition isActivationHandshakeAllowed ::
  "'l exchange_op \<Rightarrow> time \<Rightarrow> millis \<Rightarrow> 'l sched_run \<Rightarrow> (bool \<times> 'l sched_run) option" where
  "isActivationHandshakeAllowed xchg deadline timeout r =
     do { (t, r) \<leftarrow> clock_now xchg r;
          Some (deadline - t \<ge> ns_of_ms (trunc_div timeout 2), r) }"

definition activate_command :: "GripperCommand \<Rightarrow> GripperCommand" where
  "activate_command previousCommand =
     (let activateCommand = previousCommand\<lparr>action := action_set (action previousCommand) GoTo False\<rparr>
      in activateCommand\<lparr>action := action_set (action activateCommand) Activate True\<rparr>)"

definition deactivate_command :: "GripperCommand \<Rightarrow> GripperCommand" where
  "deactivate_command previousCommand =
     (let deactivateCommand = activate_command previousCommand
      in deactivateCommand\<lparr>action := action_set (action deactivateCommand) Activate False\<rparr>)"

definition runActivationHandshake ::
  "'l exchange_op \<Rightarrow> time \<Rightarrow> 'l sched_run \<Rightarrow> (ActivationResult \<times> 'l sched_run) option" where
  "runActivationHandshake xchg deadline r =
     do { (previousCommand, r) \<leftarrow> Gripper_getCommand xchg r;
          r \<leftarrow> Gripper_setCommand xchg (deactivate_command previousCommand) r;
          (x, r) \<leftarrow> waitForStatus xchg (\<lambda>s. \<not> activated (gripperStatus s)) deadline r;
          (case x of
             None \<Rightarrow>
               do { r \<leftarrow> Gripper_setCommand xchg previousCommand r; Some (Timeout, r) }
           | Some _ \<Rightarrow>
               do { r \<leftarrow> Gripper_setCommand xchg (activate_command previousCommand) r;
                    waitForActivationComplete xchg deadline r }) }"

section \<open>The procedures\<close>

definition activate ::
  "'l exchange_op \<Rightarrow> millis \<Rightarrow> 'l sched_run \<Rightarrow> (ActivationResult \<times> 'l sched_run) option" where
  "activate xchg timeout r =
     do { (t, r) \<leftarrow> clock_now xchg r;
          let deadline = t + ns_of_ms timeout;
          (fresh, r) \<leftarrow> waitOperational xchg deadline r;
          (case fresh of
             None \<Rightarrow> Some (Timeout, r)
           | Some x \<Rightarrow>
               if severity (gripperFault (faultStatus (xStatus x))) = SeverityMajor then Some (FaultLatched, r)
               else if activationState (gripperStatus (xStatus x)) = Complete then Some (AlreadyActive, r)
               else if activationState (gripperStatus (xStatus x)) = InProgress
                    then waitForActivationComplete xchg deadline r
               else do { (allowed, r) \<leftarrow> isActivationHandshakeAllowed xchg deadline timeout r;
                         if \<not> allowed then Some (Timeout, r)
                         else runActivationHandshake xchg deadline r }) }"

definition recoverFromFault ::
  "'l exchange_op \<Rightarrow> millis \<Rightarrow> 'l sched_run \<Rightarrow> (ActivationResult \<times> 'l sched_run) option" where
  "recoverFromFault xchg timeout r =
     do { (t, r) \<leftarrow> clock_now xchg r;
          let deadline = t + ns_of_ms timeout;
          (fresh, r) \<leftarrow> waitOperational xchg deadline r;
          (case fresh of
             None \<Rightarrow> Some (Timeout, r)
           | Some x \<Rightarrow>
               do { (allowed, r) \<leftarrow> isActivationHandshakeAllowed xchg deadline timeout r;
                    if \<not> allowed then Some (Timeout, r)
                    else runActivationHandshake xchg deadline r }) }"

section \<open>The two commands of the handshake\<close>

lemma activate_command_bits [simp]:
  "action_get (action (activate_command p)) b =
     (if b = GoTo then False else if b = Activate then True else action_get (action p) b)"
  "action_get (action (deactivate_command p)) b =
     (if b = GoTo \<or> b = Activate then False else action_get (action p) b)"
  by (auto simp: activate_command_def deactivate_command_def Let_def)

lemma activate_command_rest [simp]:
  "(activate_command p)\<lparr>action := a\<rparr> = p\<lparr>action := a\<rparr>"
  "(deactivate_command p)\<lparr>action := a\<rparr> = p\<lparr>action := a\<rparr>"
  by (simp_all add: activate_command_def deactivate_command_def Let_def)

section \<open>One step\<close>

lemma remaining_spec:
  assumes "remaining xchg deadline r = Some (left, r')" and "sched_ok ok r"
  shows "progress xchg ok r r'" and "left = remaining_at deadline (clock (fst r'))"
  using assms access_progress(1) [OF assms(2)] by (auto simp: remaining_def bind_eq_Some_conv)

lemma waitForStatus_spec:
  assumes "waitForStatus xchg P deadline r = Some (res, r')" and "sched_ok ok r"
  shows "progress xchg ok r r' \<and>
    (case res of
       Some x \<Rightarrow> P (xStatus x) \<and> x = record_of (fst r') \<and>
         (room r \<longrightarrow> countOf (record_of (fst r)) < countOf x)
     | None \<Rightarrow> deadline - clock (fst r) \<le> ns_of_ms longest \<longrightarrow>
         closed (img (gs (fst r'))) \<or> deadline \<le> clock (fst r'))"
proof -
  from assms(1) obtain left r1 where l: "remaining xchg deadline r = Some (left, r1)"
    and w: "waitFor xchg (\<lambda>x. P (xStatus x)) left r1 = Some (res, r')"
    by (auto simp: waitForStatus_def bind_eq_Some_conv)
  note q = remaining_spec [OF l assms(2)]
  note c = progress_clock [OF q(1)] progress_count [OF q(1)]
  have covers: "deadline \<le> clock (fst r1) + ns_of_ms (min left longest)"
    if "deadline - clock (fst r) \<le> ns_of_ms longest"
    using that remaining_at_covers [of deadline "clock (fst r1)" "clock (fst r1)"] q(2) c(1) by simp
  from waitFor_spec [OF w progress_sched_ok [OF q(1) assms(2)]] q(1) c covers
  show ?thesis
    by (cases res) (auto intro: progress_trans)
qed

lemma waitForActivationComplete_spec:
  assumes "waitForActivationComplete xchg deadline r = Some (res, r')" and "sched_ok ok r"
  shows "progress xchg ok r r' \<and> res \<in> {Activated, Timeout} \<and>
    (res = Activated \<longrightarrow>
       activationState (gripperStatus (xStatus (record_of (fst r')))) = Complete \<and>
       (room r \<longrightarrow> countOf (record_of (fst r)) < countOf (record_of (fst r')))) \<and>
    (res = Timeout \<longrightarrow> deadline - clock (fst r) \<le> ns_of_ms longest \<longrightarrow>
       closed (img (gs (fst r'))) \<or> deadline \<le> clock (fst r'))"
proof -
  from assms(1) obtain x where
    w: "waitForStatus xchg (\<lambda>s. activationState (gripperStatus s) = Complete) deadline r = Some (x, r')"
    and res: "res = (case x of Some _ \<Rightarrow> Activated | None \<Rightarrow> Timeout)"
    by (auto simp: waitForActivationComplete_def bind_eq_Some_conv)
  from waitForStatus_spec [OF w assms(2)] show ?thesis by (cases x) (auto simp: res)
qed

section \<open>The handshake\<close>

text \<open>The only commands that reach the image are those of a handshake that found \<open>p\<close>.\<close>

fun handshake_only :: "GripperCommand \<Rightarrow> event \<Rightarrow> bool" where
  "handshake_only p (CommanderSets c) = (c \<in> {deactivate_command p, activate_command p, p})"
| "handshake_only p _ = True"

lemma no_commander_handshake: "no_commander e \<Longrightarrow> handshake_only p e"
  by (cases e) auto

lemma sched_ok_handshake: "sched_ok no_commander r \<Longrightarrow> sched_ok (handshake_only p) r"
  by (auto simp: sched_ok_def list_all_iff intro: no_commander_handshake)

text \<open>
  A completed reset: the command is the activating one, the last exchange reports the
  activation complete, and an earlier one, after the start and with the deactivating command
  in the image, reported the gripper deactivated.
\<close>

definition reset_seen ::
  "'l exchange_op \<Rightarrow> GripperCommand \<Rightarrow> 'l sched_run \<Rightarrow> 'l sched_run \<Rightarrow> bool" where
  "reset_seen xchg p r r' \<longleftrightarrow>
     imgCommand (img (gs (fst r'))) = activate_command p \<and>
       activationState (gripperStatus (xStatus (record_of (fst r')))) = Complete \<and>
       (\<exists>m. progress xchg (handshake_only p) r m \<and> progress xchg (handshake_only p) m r' \<and>
          imgCommand (img (gs (fst m))) = deactivate_command p \<and>
          \<not> activated (gripperStatus (xStatus (record_of (fst m)))) \<and>
          (room r \<longrightarrow> countOf (record_of (fst r)) < countOf (record_of (fst m)) \<and>
            countOf (record_of (fst m)) < countOf (record_of (fst r'))))"

lemma runActivationHandshake_spec:
  assumes "runActivationHandshake xchg deadline r = Some (res, r')"
    and "sched_ok no_commander r" and p: "p = imgCommand (img (gs (fst r)))"
  shows "progress xchg (handshake_only p) r r' \<and> res \<in> {Activated, Timeout} \<and>
    (res = Activated \<longrightarrow>
       reset_seen xchg p r r') \<and>
    (res = Timeout \<longrightarrow>
       imgCommand (img (gs (fst r'))) \<in> {p, activate_command p} \<and>
       (deadline - clock (fst r) \<le> ns_of_ms longest \<longrightarrow>
          closed (img (gs (fst r'))) \<or> deadline \<le> clock (fst r')))"
proof -
  have up: "progress xchg (handshake_only p) a b" if "progress xchg no_commander a b" for a b
    using that by (rule progress_mono) (rule no_commander_handshake)
  from assms(1) obtain q r1 r2 x r3 where
    g: "Gripper_getCommand xchg r = Some (q, r1)"
    and d: "Gripper_setCommand xchg (deactivate_command q) r1 = Some r2"
    and w: "waitForStatus xchg (\<lambda>s. \<not> activated (gripperStatus s)) deadline r2 = Some (x, r3)"
    and k: "(case x of
             None \<Rightarrow> do { r \<leftarrow> Gripper_setCommand xchg q r3; Some (Timeout, r) }
           | Some _ \<Rightarrow>
               do { r \<leftarrow> Gripper_setCommand xchg (activate_command q) r3;
                    waitForActivationComplete xchg deadline r }) = Some (res, r')"
    by (auto simp: runActivationHandshake_def bind_eq_Some_conv)
  have p1: "progress xchg no_commander r r1" and q: "q = p"
    using access_progress(2) [OF assms(2) g] progress_command [of xchg r r1] p by auto
  note ok1 = progress_sched_ok [OF p1 assms(2)]
  have p2: "progress xchg (handshake_only p) r1 r2"
    and c2: "imgCommand (img (gs (fst r2))) = deactivate_command p"
    using setCommand_progress [OF d sched_ok_handshake [OF ok1, of p]] q by auto
  note ok2 = progress_sched_ok [OF p2 ok1]
  note s = waitForStatus_spec [OF w ok2]
  have p3: "progress xchg no_commander r2 r3" using s by blast
  note ok3 = progress_sched_ok [OF p3 ok2]
  have c3: "imgCommand (img (gs (fst r3))) = deactivate_command p"
    using progress_command [OF p3] c2 by simp
  have p02: "progress xchg (handshake_only p) r r2" using up [OF p1] p2 by (rule progress_trans)
  have p03: "progress xchg (handshake_only p) r r3" using p02 up [OF p3] by (rule progress_trans)
  note c = progress_clock [OF p02] progress_clock [OF p03]
  show ?thesis
  proof (cases x)
    case None
    with k obtain r4 where e: "Gripper_setCommand xchg p r3 = Some r4" "res = Timeout" "r' = r4"
      by (auto simp: q bind_eq_Some_conv)
    note f = setCommand_progress [OF e(1) sched_ok_handshake [OF ok3, of p], simplified]
    have "closed (img (gs (fst r3))) \<Longrightarrow> closed (img (gs (fst r4)))"
      using f(1) by (auto simp: progress_def dest: runs_closed)
    with s None e f p03 c progress_clock [OF f(1)] show ?thesis
      by (auto intro: progress_trans)
  next
    case (Some y)
    with k obtain r4 where e: "Gripper_setCommand xchg (activate_command p) r3 = Some r4"
      and w4: "waitForActivationComplete xchg deadline r4 = Some (res, r')"
      by (auto simp: q bind_eq_Some_conv)
    note f = setCommand_progress [OF e sched_ok_handshake [OF ok3, of p], simplified]
    note ok4 = progress_sched_ok [OF f(1) ok3]
    note z = waitForActivationComplete_spec [OF w4 ok4]
    have p4: "progress xchg no_commander r4 r'" using z by blast
    have p3': "progress xchg (handshake_only p) r3 r'" using f(1) up [OF p4] by (rule progress_trans)
    have cmd: "imgCommand (img (gs (fst r'))) = activate_command p"
      using progress_command [OF p4] f(2) by simp
    have cnt: "countOf (record_of (fst r)) < countOf (record_of (fst r3)) \<and>
        (res = Activated \<longrightarrow> countOf (record_of (fst r3)) < countOf (record_of (fst r')))" if "room r"
      using progress_count [OF p02 that] progress_count [OF p03 that]
        progress_count [OF f(1) progress_count(2) [OF p03 that]] s Some z by auto
    have w: "progress xchg (handshake_only p) r r'" using p03 p3' by (rule progress_trans)
    have na: "\<not> activated (gripperStatus (xStatus (record_of (fst r3))))" using s Some by auto
    have cc: "clock (fst r) \<le> clock (fst r4)" using c(2) progress_clock [OF f(1)] by simp
    have m: "\<exists>m. progress xchg (handshake_only p) r m \<and> progress xchg (handshake_only p) m r' \<and>
          imgCommand (img (gs (fst m))) = deactivate_command p \<and>
          \<not> activated (gripperStatus (xStatus (record_of (fst m)))) \<and>
          (room r \<longrightarrow> countOf (record_of (fst r)) < countOf (record_of (fst m)) \<and>
            countOf (record_of (fst m)) < countOf (record_of (fst r')))" if "res = Activated"
      by (rule exI [of _ r3]) (use that cnt na p03 p3' c3 in blast)
    have late: "closed (img (gs (fst r'))) \<or> deadline \<le> clock (fst r')"
      if "res = Timeout" and "deadline - clock (fst r) \<le> ns_of_ms longest"
      using z that cc by auto
    from z cmd w m late show ?thesis unfolding reset_seen_def by blast
  qed
qed

lemma runActivationHandshake_commands:
  assumes "runActivationHandshake xchg deadline r = Some (res, r')"
    and "sched_ok no_commander r" and p: "p = imgCommand (img (gs (fst r)))"
  shows "commands xchg [deactivate_command p, p] r r' \<and> res = Timeout \<or>
    commands xchg [deactivate_command p, activate_command p] r r' \<and> res \<in> {Activated, Timeout}"
proof -
  from assms(1) obtain q r1 r2 x r3 where
    g: "Gripper_getCommand xchg r = Some (q, r1)"
    and d: "Gripper_setCommand xchg (deactivate_command q) r1 = Some r2"
    and w: "waitForStatus xchg (\<lambda>s. \<not> activated (gripperStatus s)) deadline r2 = Some (x, r3)"
    and k: "(case x of
             None \<Rightarrow> do { r \<leftarrow> Gripper_setCommand xchg q r3; Some (Timeout, r) }
           | Some _ \<Rightarrow>
               do { r \<leftarrow> Gripper_setCommand xchg (activate_command q) r3;
                    waitForActivationComplete xchg deadline r }) = Some (res, r')"
    by (auto simp: runActivationHandshake_def bind_eq_Some_conv)
  have p1: "progress xchg no_commander r r1" and q: "q = p"
    using access_progress(2) [OF assms(2) g] progress_command [of xchg r r1] p by auto
  note ok1 = progress_sched_ok [OF p1 assms(2)]
  note ok2 = progress_sched_ok [OF setCommand_progress(1) [OF d sched_ok_any, simplified] ok1]
  have p3: "progress xchg no_commander r2 r3" using waitForStatus_spec [OF w ok2] by blast
  note ok3 = progress_sched_ok [OF p3 ok2]
  have start: "commands xchg (deactivate_command p # cs) r r'" if "commands xchg cs r3 r'" for cs
    using progress_commands [OF p1 setCommand_commands [OF d ok1 progress_commands [OF p3 that]]] by (simp add: q)
  show ?thesis
  proof (cases x)
    case None
    with k have e: "Gripper_setCommand xchg p r3 = Some r'" "res = Timeout"
      by (auto simp: q bind_eq_Some_conv)
    have "commands xchg [p] r3 r'" by (rule setCommand_commands [OF e(1) ok3]) simp
    with e(2) show ?thesis using start by blast
  next
    case (Some y)
    with k obtain r4 where e: "Gripper_setCommand xchg (activate_command p) r3 = Some r4"
      and w4: "waitForActivationComplete xchg deadline r4 = Some (res, r')"
      by (auto simp: q bind_eq_Some_conv)
    note z = waitForActivationComplete_spec [OF w4 progress_sched_ok [OF setCommand_progress(1) [OF e sched_ok_any, simplified] ok3]]
    have "commands xchg [activate_command p] r3 r'" by (rule setCommand_commands [OF e ok3]) (use z in simp)
    with z show ?thesis using start by blast
  qed
qed

section \<open>The procedures\<close>

lemma handshake_allowed_spec:
  assumes "isActivationHandshakeAllowed xchg deadline timeout r = Some (allowed, r')" and "sched_ok ok r"
  shows "progress xchg ok r r'"
    and "\<not> allowed \<Longrightarrow> deadline < clock (fst r') + ns_of_ms (trunc_div timeout 2)"
  using assms access_progress(1) [OF assms(2)]
  by (auto simp: isActivationHandshakeAllowed_def bind_eq_Some_conv not_le)

lemma procedure_start:
  assumes "do { (t, r) \<leftarrow> clock_now xchg r;
          let deadline = t + ns_of_ms timeout;
          (fresh, r) \<leftarrow> waitOperational xchg deadline r;
          k deadline fresh r } = Some z"
    and "sched_ok ok r"
  obtains deadline fresh r1 where "k deadline fresh r1 = Some z" "progress xchg ok r r1"
    "clock (fst r) + ns_of_ms timeout \<le> deadline" "deadline \<le> clock (fst r1) + ns_of_ms timeout"
    "case fresh of
       Some x \<Rightarrow> x = record_of (fst r1) \<and> (room r \<longrightarrow> countOf (record_of (fst r)) < countOf x)
     | None \<Rightarrow> timeout \<le> longest \<longrightarrow> closed (img (gs (fst r1))) \<or> deadline \<le> clock (fst r1)"
proof -
  from assms(1) obtain t r0 fresh r1 where t: "clock_now xchg r = Some (t, r0)"
    and w: "waitForStatus xchg (\<lambda>_. True) (t + ns_of_ms timeout) r0 = Some (fresh, r1)"
    and k: "k (t + ns_of_ms timeout) fresh r1 = Some z"
    by (auto simp: bind_eq_Some_conv waitOperational_def Let_def)
  have p0: "progress xchg ok r r0" and tc: "t = clock (fst r0)"
    using access_progress(1) [OF assms(2) t] by auto
  note s = waitForStatus_spec [OF w progress_sched_ok [OF p0 assms(2)]]
  show thesis
  proof (rule that [OF k])
    show "progress xchg ok r r1" using p0 s by (blast intro: progress_trans)
    show "clock (fst r) + ns_of_ms timeout \<le> t + ns_of_ms timeout"
      using progress_clock [OF p0] tc by simp
    show "t + ns_of_ms timeout \<le> clock (fst r1) + ns_of_ms timeout"
      using progress_clock [of xchg ok r0 r1] s tc by simp
    show "case fresh of
       Some x \<Rightarrow> x = record_of (fst r1) \<and> (room r \<longrightarrow> countOf (record_of (fst r)) < countOf x)
     | None \<Rightarrow> timeout \<le> longest \<longrightarrow>
         closed (img (gs (fst r1))) \<or> t + ns_of_ms timeout \<le> clock (fst r1)"
      using s progress_count [OF p0] tc ns_of_ms_mono [of timeout longest]
      by (auto split: option.splits)
  qed
qed

text \<open>What \<open>Timeout\<close> means: the gripper stopped, time ran out, or too little was left to reset.\<close>

definition timeout_reason :: "millis \<Rightarrow> 'l sched_run \<Rightarrow> 'l sched_run \<Rightarrow> bool" where
  "timeout_reason timeout r r' \<longleftrightarrow>
     closed (img (gs (fst r'))) \<or>
     clock (fst r) + ns_of_ms timeout \<le> clock (fst r') \<or>
     clock (fst r) + ns_of_ms timeout < clock (fst r') + ns_of_ms (trunc_div timeout 2) \<and>
       imgCommand (img (gs (fst r'))) = imgCommand (img (gs (fst r)))"

lemma gated_handshake_spec:
  assumes "do { (allowed, r) \<leftarrow> isActivationHandshakeAllowed xchg deadline timeout r1;
                if \<not> allowed then Some (Timeout, r)
                else runActivationHandshake xchg deadline r } = Some (res, r')"
    and "sched_ok no_commander r" and "progress xchg no_commander r r1"
    and "clock (fst r) + ns_of_ms timeout \<le> deadline"
    and "deadline \<le> clock (fst r1) + ns_of_ms timeout"
    and p: "p = imgCommand (img (gs (fst r)))"
  shows "progress xchg (handshake_only p) r r' \<and> res \<in> {Activated, Timeout} \<and>
    (res = Activated \<longrightarrow>
       reset_seen xchg p r r') \<and>
    (res = Timeout \<longrightarrow> imgCommand (img (gs (fst r'))) \<in> {p, activate_command p} \<and>
       (timeout \<le> longest \<longrightarrow> timeout_reason timeout r r'))"
proof -
  have up: "progress xchg (handshake_only p) a b" if "progress xchg no_commander a b" for a b
    using that by (rule progress_mono) (rule no_commander_handshake)
  note ok1 = progress_sched_ok [OF assms(3,2)]
  from assms(1) obtain allowed r2 where
    a: "isActivationHandshakeAllowed xchg deadline timeout r1 = Some (allowed, r2)"
    and k: "(if \<not> allowed then Some (Timeout, r2) else runActivationHandshake xchg deadline r2) = Some (res, r')"
    by (auto simp: bind_eq_Some_conv)
  note h = handshake_allowed_spec [OF a ok1]
  have p2: "progress xchg no_commander r r2" using assms(3) h(1) by (rule progress_trans)
  have c2: "imgCommand (img (gs (fst r2))) = p" using progress_command [OF p2] p by simp
  show ?thesis
  proof (cases allowed)
    case False
    with k have e: "res = Timeout" "r' = r2" by auto
    from e c2 up [OF p2] h(2) [OF False] assms(4) p show ?thesis
      by (auto simp: timeout_reason_def)
  next
    case True
    with k have "runActivationHandshake xchg deadline r2 = Some (res, r')" by simp
    note s = runActivationHandshake_spec [OF this progress_sched_ok [OF p2 assms(2)] HOL.refl, unfolded c2]
    have pm: "progress xchg (handshake_only p) r m" if "progress xchg (handshake_only p) r2 m" for m
      using up [OF p2] that by (rule progress_trans)
    have "timeout_reason timeout r r'" if "res = Timeout" and "timeout \<le> longest"
    proof -
      have "deadline - clock (fst r2) \<le> ns_of_ms longest"
        using assms(5) progress_clock [OF h(1)] ns_of_ms_mono [OF that(2)] by linarith
      with s that(1) assms(4) show ?thesis by (auto simp: timeout_reason_def)
    qed
    moreover note cnt = progress_count [OF p2]
    moreover have "reset_seen xchg p r r'" if "res = Activated"
      using s that pm cnt unfolding reset_seen_def by (meson order_le_less_trans)
    ultimately show ?thesis using s pm by blast
  qed
qed

lemma gated_handshake_commands:
  assumes "do { (allowed, r) \<leftarrow> isActivationHandshakeAllowed xchg deadline timeout r1;
                if \<not> allowed then Some (Timeout, r)
                else runActivationHandshake xchg deadline r } = Some (res, r')"
    and "sched_ok no_commander r" and "progress xchg no_commander r r1"
    and p: "p = imgCommand (img (gs (fst r)))"
  shows "\<exists>cs. commands xchg cs r r' \<and>
    (cs = [] \<and> res = Timeout \<or> cs = [deactivate_command p, p] \<and> res = Timeout \<or>
     cs = [deactivate_command p, activate_command p] \<and> res \<in> {Activated, Timeout})"
proof -
  obtain allowed r2 where
    a: "isActivationHandshakeAllowed xchg deadline timeout r1 = Some (allowed, r2)"
    and k: "(if \<not> allowed then Some (Timeout, r2) else runActivationHandshake xchg deadline r2) = Some (res, r')"
    using assms(1) by (auto simp: bind_eq_Some_conv)
  have p2: "progress xchg no_commander r r2"
    using assms(3) handshake_allowed_spec(1) [OF a progress_sched_ok [OF assms(3,2)]] by (rule progress_trans)
  show ?thesis
  proof (cases allowed)
    case False
    with k p2 show ?thesis by (intro exI [of _ "[]"]) auto
  next
    case True
    with k have "runActivationHandshake xchg deadline r2 = Some (res, r')" by simp
    from runActivationHandshake_commands [OF this progress_sched_ok [OF p2 assms(2)] HOL.refl]
    show ?thesis using progress_commands [OF p2] progress_command [OF p2] p by metis
  qed
qed

lemma activate_spec:
  assumes "activate xchg timeout r = Some (res, r')" and "sched_ok no_commander r"
    and p: "p = imgCommand (img (gs (fst r)))"
  shows "progress xchg (handshake_only p) r r'"
    and "res = AlreadyActive \<Longrightarrow> progress xchg no_commander r r' \<and>
       activationState (gripperStatus (xStatus (record_of (fst r')))) = Complete \<and>
       severity (gripperFault (faultStatus (xStatus (record_of (fst r'))))) \<noteq> SeverityMajor"
    and "res = FaultLatched \<Longrightarrow> progress xchg no_commander r r' \<and>
       severity (gripperFault (faultStatus (xStatus (record_of (fst r'))))) = SeverityMajor"
    and "res = Activated \<Longrightarrow>
       activationState (gripperStatus (xStatus (record_of (fst r')))) = Complete"
    and "res \<noteq> Timeout \<Longrightarrow> room r \<Longrightarrow> countOf (record_of (fst r)) < countOf (record_of (fst r'))"
    and "res = Timeout \<Longrightarrow> timeout \<le> longest \<Longrightarrow> timeout_reason timeout r r'"
proof -
  have up: "progress xchg (handshake_only p) a b" if "progress xchg no_commander a b" for a b
    using that by (rule progress_mono) (rule no_commander_handshake)
  from assms(1) [unfolded activate_def] assms(2) obtain deadline fresh r1 where
    k: "(case fresh of
             None \<Rightarrow> Some (Timeout, r1)
           | Some x \<Rightarrow>
               if severity (gripperFault (faultStatus (xStatus x))) = SeverityMajor then Some (FaultLatched, r1)
               else if activationState (gripperStatus (xStatus x)) = Complete then Some (AlreadyActive, r1)
               else if activationState (gripperStatus (xStatus x)) = InProgress
                    then waitForActivationComplete xchg deadline r1
               else do { (allowed, r) \<leftarrow> isActivationHandshakeAllowed xchg deadline timeout r1;
                         if \<not> allowed then Some (Timeout, r)
                         else runActivationHandshake xchg deadline r }) = Some (res, r')"
    and p1: "progress xchg no_commander r r1"
    and d: "clock (fst r) + ns_of_ms timeout \<le> deadline" "deadline \<le> clock (fst r1) + ns_of_ms timeout"
    and x: "case fresh of
       Some x \<Rightarrow> x = record_of (fst r1) \<and> (room r \<longrightarrow> countOf (record_of (fst r)) < countOf x)
     | None \<Rightarrow> timeout \<le> longest \<longrightarrow> closed (img (gs (fst r1))) \<or> deadline \<le> clock (fst r1)"
    by (rule procedure_start)
  note ok1 = progress_sched_ok [OF p1 assms(2)]
  consider (none) "fresh = None"
    | (latched) y where "fresh = Some y" "severity (gripperFault (faultStatus (xStatus y))) = SeverityMajor"
    | (active) y where "fresh = Some y" "severity (gripperFault (faultStatus (xStatus y))) \<noteq> SeverityMajor"
        "activationState (gripperStatus (xStatus y)) = Complete"
    | (progress) y where "fresh = Some y" "waitForActivationComplete xchg deadline r1 = Some (res, r')"
    | (reset) y where "fresh = Some y" "do { (allowed, r) \<leftarrow> isActivationHandshakeAllowed xchg deadline timeout r1;
                         if \<not> allowed then Some (Timeout, r)
                         else runActivationHandshake xchg deadline r } = Some (res, r')"
    using k by (cases fresh) (auto split: if_splits)
  then have "progress xchg (handshake_only p) r r' \<and>
    (res = AlreadyActive \<longrightarrow> progress xchg no_commander r r' \<and>
       activationState (gripperStatus (xStatus (record_of (fst r')))) = Complete \<and>
       severity (gripperFault (faultStatus (xStatus (record_of (fst r'))))) \<noteq> SeverityMajor) \<and>
    (res = FaultLatched \<longrightarrow> progress xchg no_commander r r' \<and>
       severity (gripperFault (faultStatus (xStatus (record_of (fst r'))))) = SeverityMajor) \<and>
    (res = Activated \<longrightarrow>
       activationState (gripperStatus (xStatus (record_of (fst r')))) = Complete) \<and>
    (res \<noteq> Timeout \<longrightarrow> room r \<longrightarrow> countOf (record_of (fst r)) < countOf (record_of (fst r'))) \<and>
    (res = Timeout \<longrightarrow> timeout \<le> longest \<longrightarrow> timeout_reason timeout r r')"
  proof cases
    case none
    with k x d(1) up [OF p1] show ?thesis by (auto simp: timeout_reason_def)
  next
    case latched
    with k x p1 up [OF p1] show ?thesis by auto
  next
    case active
    with k x p1 up [OF p1] show ?thesis by auto
  next
    case progress
    note s = waitForActivationComplete_spec [OF progress(2) ok1]
    have pr: "progress xchg (handshake_only p) r r'"
      using s p1 by (blast intro: up progress_trans)
    have "timeout_reason timeout r r'" if "res = Timeout" "timeout \<le> longest"
      using s d ns_of_ms_mono [OF that(2)] that(1) by (auto simp: timeout_reason_def)
    moreover have "countOf (record_of (fst r)) < countOf (record_of (fst r'))" if "res = Activated" "room r"
      using progress_count [OF p1 that(2)] s that(1) by auto
    ultimately show ?thesis using s pr by auto
  next
    case reset
    note s = gated_handshake_spec [OF reset(2) assms(2) p1 d p]
    have "countOf (record_of (fst r)) < countOf (record_of (fst r'))" if "res = Activated" "room r"
      using s that unfolding reset_seen_def by (meson less_trans)
    moreover have "activationState (gripperStatus (xStatus (record_of (fst r')))) = Complete"
      if "res = Activated" using s that by (simp add: reset_seen_def)
    ultimately show ?thesis using s by blast
  qed
  then show "progress xchg (handshake_only p) r r'"
    and "res = AlreadyActive \<Longrightarrow> progress xchg no_commander r r' \<and>
       activationState (gripperStatus (xStatus (record_of (fst r')))) = Complete \<and>
       severity (gripperFault (faultStatus (xStatus (record_of (fst r'))))) \<noteq> SeverityMajor"
    and "res = FaultLatched \<Longrightarrow> progress xchg no_commander r r' \<and>
       severity (gripperFault (faultStatus (xStatus (record_of (fst r'))))) = SeverityMajor"
    and "res = Activated \<Longrightarrow>
       activationState (gripperStatus (xStatus (record_of (fst r')))) = Complete"
    and "res \<noteq> Timeout \<Longrightarrow> room r \<Longrightarrow> countOf (record_of (fst r)) < countOf (record_of (fst r'))"
    and "res = Timeout \<Longrightarrow> timeout \<le> longest \<Longrightarrow> timeout_reason timeout r r'"
    by blast+
qed

lemma recoverFromFault_spec:
  assumes "recoverFromFault xchg timeout r = Some (res, r')" and "sched_ok no_commander r"
    and p: "p = imgCommand (img (gs (fst r)))"
  shows "progress xchg (handshake_only p) r r' \<and> res \<in> {Activated, Timeout} \<and>
    (res = Activated \<longrightarrow> reset_seen xchg p r r') \<and>
    (res = Timeout \<longrightarrow> imgCommand (img (gs (fst r'))) \<in> {p, activate_command p} \<and>
       (timeout \<le> longest \<longrightarrow> timeout_reason timeout r r'))"
proof -
  have up: "progress xchg (handshake_only p) a b" if "progress xchg no_commander a b" for a b
    using that by (rule progress_mono) (rule no_commander_handshake)
  from assms(1) [unfolded recoverFromFault_def] assms(2) obtain deadline fresh r1 where
    k: "(case fresh of
             None \<Rightarrow> Some (Timeout, r1)
           | Some x \<Rightarrow>
               do { (allowed, r) \<leftarrow> isActivationHandshakeAllowed xchg deadline timeout r1;
                    if \<not> allowed then Some (Timeout, r)
                    else runActivationHandshake xchg deadline r }) = Some (res, r')"
    and p1: "progress xchg no_commander r r1"
    and d: "clock (fst r) + ns_of_ms timeout \<le> deadline" "deadline \<le> clock (fst r1) + ns_of_ms timeout"
    and x: "case fresh of
       Some x \<Rightarrow> x = record_of (fst r1) \<and> (room r \<longrightarrow> countOf (record_of (fst r)) < countOf x)
     | None \<Rightarrow> timeout \<le> longest \<longrightarrow> closed (img (gs (fst r1))) \<or> deadline \<le> clock (fst r1)"
    by (rule procedure_start)
  show ?thesis
  proof (cases fresh)
    case None
    with k have e: "res = Timeout" "r' = r1" by auto
    have "imgCommand (img (gs (fst r1))) = p" using progress_command [OF p1] p by simp
    with e None x d(1) up [OF p1] show ?thesis
      by (auto simp: timeout_reason_def)
  next
    case (Some y)
    with k have "do { (allowed, r) \<leftarrow> isActivationHandshakeAllowed xchg deadline timeout r1;
                if \<not> allowed then Some (Timeout, r)
                else runActivationHandshake xchg deadline r } = Some (res, r')" by simp
    from gated_handshake_spec [OF this assms(2) p1 d p] show ?thesis by blast
  qed
qed

text \<open>The commands a procedure sets, in order, when it found \<open>p\<close> in the image and nobody else commands.\<close>

definition procedure_commands ::
  "'l exchange_op \<Rightarrow> GripperCommand \<Rightarrow> 'l sched_run \<Rightarrow> ActivationResult \<Rightarrow> 'l sched_run \<Rightarrow> bool" where
  "procedure_commands xchg p r res r' \<longleftrightarrow>
     commands xchg [] r r' \<or>
     commands xchg [deactivate_command p, p] r r' \<and> res = Timeout \<or>
     commands xchg [deactivate_command p, activate_command p] r r' \<and> res \<in> {Activated, Timeout}"

lemma gated_procedure_commands:
  assumes "do { (allowed, r) \<leftarrow> isActivationHandshakeAllowed xchg deadline timeout r1;
                if \<not> allowed then Some (Timeout, r)
                else runActivationHandshake xchg deadline r } = Some (res, r')"
    and "sched_ok no_commander r" and "progress xchg no_commander r r1"
    and "p = imgCommand (img (gs (fst r)))"
  shows "procedure_commands xchg p r res r' \<and> res \<in> {Activated, Timeout}"
  using gated_handshake_commands [OF assms] unfolding procedure_commands_def by blast

lemma activate_commands:
  assumes "activate xchg timeout r = Some (res, r')" and "sched_ok no_commander r"
    and p: "p = imgCommand (img (gs (fst r)))"
  shows "procedure_commands xchg p r res r'"
proof -
  from assms(1) [unfolded activate_def] assms(2) obtain deadline fresh r1 where
    k: "(case fresh of
             None \<Rightarrow> Some (Timeout, r1)
           | Some x \<Rightarrow>
               if severity (gripperFault (faultStatus (xStatus x))) = SeverityMajor then Some (FaultLatched, r1)
               else if activationState (gripperStatus (xStatus x)) = Complete then Some (AlreadyActive, r1)
               else if activationState (gripperStatus (xStatus x)) = InProgress
                    then waitForActivationComplete xchg deadline r1
               else do { (allowed, r) \<leftarrow> isActivationHandshakeAllowed xchg deadline timeout r1;
                         if \<not> allowed then Some (Timeout, r)
                         else runActivationHandshake xchg deadline r }) = Some (res, r')"
    and p1: "progress xchg no_commander r r1"
    and "clock (fst r) + ns_of_ms timeout \<le> deadline" "deadline \<le> clock (fst r1) + ns_of_ms timeout"
    and "case fresh of
       Some x \<Rightarrow> x = record_of (fst r1) \<and> (room r \<longrightarrow> countOf (record_of (fst r)) < countOf x)
     | None \<Rightarrow> timeout \<le> longest \<longrightarrow> closed (img (gs (fst r1))) \<or> deadline \<le> clock (fst r1)"
    by (rule procedure_start)
  consider (same) "r' = r1" | (wait) "waitForActivationComplete xchg deadline r1 = Some (res, r')"
    | (reset) "do { (allowed, r) \<leftarrow> isActivationHandshakeAllowed xchg deadline timeout r1;
                    if \<not> allowed then Some (Timeout, r)
                    else runActivationHandshake xchg deadline r } = Some (res, r')"
    using k by (cases fresh) (auto split: if_splits)
  then show ?thesis
  proof cases
    case wait
    then have "progress xchg no_commander r1 r'"
      using waitForActivationComplete_spec progress_sched_ok [OF p1 assms(2)] by blast
    with p1 show ?thesis by (auto simp: procedure_commands_def intro: progress_trans)
  next
    case reset
    from gated_procedure_commands [OF this assms(2) p1 p] show ?thesis by simp
  qed (use p1 in \<open>simp add: procedure_commands_def\<close>)
qed

lemma recoverFromFault_commands:
  assumes "recoverFromFault xchg timeout r = Some (res, r')" and "sched_ok no_commander r"
    and p: "p = imgCommand (img (gs (fst r)))"
  shows "procedure_commands xchg p r res r'"
proof -
  from assms(1) [unfolded recoverFromFault_def] assms(2) obtain deadline fresh r1 where
    k: "(case fresh of
             None \<Rightarrow> Some (Timeout, r1)
           | Some x \<Rightarrow>
               do { (allowed, r) \<leftarrow> isActivationHandshakeAllowed xchg deadline timeout r1;
                    if \<not> allowed then Some (Timeout, r)
                    else runActivationHandshake xchg deadline r }) = Some (res, r')"
    and p1: "progress xchg no_commander r r1"
    and "clock (fst r) + ns_of_ms timeout \<le> deadline" "deadline \<le> clock (fst r1) + ns_of_ms timeout"
    and "case fresh of
       Some x \<Rightarrow> x = record_of (fst r1) \<and> (room r \<longrightarrow> countOf (record_of (fst r)) < countOf x)
     | None \<Rightarrow> timeout \<le> longest \<longrightarrow> closed (img (gs (fst r1))) \<or> deadline \<le> clock (fst r1)"
    by (rule procedure_start)
  show ?thesis
  proof (cases fresh)
    case None
    with k p1 show ?thesis by (auto simp: procedure_commands_def)
  next
    case (Some y)
    with k gated_procedure_commands [OF _ assms(2) p1 p] show ?thesis by simp
  qed
qed

section \<open>On a dead link\<close>

lemma waitForStatus_dead:
  assumes "dead_link xchg" and "silent (pc (gs (fst r)))" and "room r" and "ticking d (snd r)"
    and "k + 6 \<le> length (snd r)" and "ns_of_ms (max 0 m) \<le> int (k * d)"
    and "deadline \<le> clock (fst r) + ns_of_ms m"
  shows "\<exists>r'. waitForStatus xchg P deadline r = Some (None, r')"
proof -
  have "snd r \<noteq> []" using assms(5) by auto
  then obtain a where a: "clock_now xchg r = Some (clock (fst a), a)"
    "progress xchg any_event r a" "length (snd r) = Suc (length (snd a))"
    by (rule clock_now_returns [where xchg = xchg])
  have "remaining_at deadline (clock (fst a)) \<le> max 0 m"
    by (rule remaining_at_le) (use progress_clock [OF a(2)] assms(7) in simp)
  then have "ns_of_ms (max 0 (remaining_at deadline (clock (fst a)))) \<le> int (k * d)"
    using ns_of_ms_mono [of "max 0 (remaining_at deadline (clock (fst a)))" "max 0 m"] assms(6) by simp
  from waitFor_dead [OF assms(1) progress_silent(1) [OF a(2) assms(1,2)]
      progress_count(2) [OF a(2) assms(3)] progress_ticking [OF a(2) assms(4)] _ this]
  show ?thesis using a assms(5) by (fastforce simp: waitForStatus_def remaining_def)
qed

lemma procedure_dead:
  assumes "dead_link xchg" and "silent (pc (gs (fst r)))" and "room r" and "ticking d (snd r)"
    and "k + 7 \<le> length (snd r)" and "ns_of_ms (max 0 timeout) \<le> int (k * d)"
  shows "\<exists>t r0 r'. clock_now xchg r = Some (t, r0) \<and>
           waitOperational xchg (t + ns_of_ms timeout) r0 = Some (None, r')"
proof -
  have "snd r \<noteq> []" using assms(5) by auto
  then obtain a where a: "clock_now xchg r = Some (clock (fst a), a)"
    "progress xchg any_event r a" "length (snd r) = Suc (length (snd a))"
    by (rule clock_now_returns [where xchg = xchg])
  have "\<exists>r'. waitForStatus xchg (\<lambda>_. True) (clock (fst a) + ns_of_ms timeout) a = Some (None, r')"
    by (rule waitForStatus_dead [OF assms(1) progress_silent(1) [OF a(2) assms(1,2)]
          progress_count(2) [OF a(2) assms(3)] progress_ticking [OF a(2) assms(4)] _ assms(6)])
       (use a assms(5) in auto)
  with a show ?thesis by (auto simp: waitOperational_def)
qed

lemma activate_dead:
  assumes "dead_link xchg" and "silent (pc (gs (fst r)))" and "room r" and "ticking d (snd r)"
    and "k + 7 \<le> length (snd r)" and "ns_of_ms (max 0 timeout) \<le> int (k * d)"
  shows "\<exists>r'. activate xchg timeout r = Some (Timeout, r')"
  using procedure_dead [OF assms] by (auto simp: activate_def Let_def)

lemma recover_dead:
  assumes "dead_link xchg" and "silent (pc (gs (fst r)))" and "room r" and "ticking d (snd r)"
    and "k + 7 \<le> length (snd r)" and "ns_of_ms (max 0 timeout) \<le> int (k * d)"
  shows "\<exists>r'. recoverFromFault xchg timeout r = Some (Timeout, r')"
  using procedure_dead [OF assms] by (auto simp: recoverFromFault_def Let_def)

end
