(* ===== verification/ActivationProperties.thy ===== *)
theory ActivationProperties
  imports Demo Activation
begin

text \<open>
  Properties of \<open>activate\<close> and \<open>recoverFromFault\<close>: what each result means, what they may
  command, and that a dead link ends them.
\<close>

text \<open>C1: What \<open>activate\<close> returns is what the gripper reported, on an exchange that completed
  after the call, when nobody else commands: AlreadyActive means the newest exchange shows a
  complete activation and no major fault, FaultLatched that it shows a major fault, and in both
  cases no command was changed; Activated means the newest exchange shows a complete
  activation; Timeout that the gripper stopped, the time is over, or less than half of it was
  left when a reset would have begun and the command is untouched.\<close>

theorem activate_outcome:
  assumes "activate xchg timeout r = Some (res, r')" and "sched_ok no_commander r"
    and "room r" and "timeout \<le> longest"
  shows "case res of
       AlreadyActive \<Rightarrow> progress xchg no_commander r r' \<and>
         activationState (gripperStatus (xStatus (record_of (fst r')))) = Complete \<and>
         severity (gripperFault (faultStatus (xStatus (record_of (fst r'))))) \<noteq> SeverityMajor \<and>
         countOf (record_of (fst r)) < countOf (record_of (fst r'))
     | FaultLatched \<Rightarrow> progress xchg no_commander r r' \<and>
         severity (gripperFault (faultStatus (xStatus (record_of (fst r'))))) = SeverityMajor \<and>
         countOf (record_of (fst r)) < countOf (record_of (fst r'))
     | Activated \<Rightarrow>
         activationState (gripperStatus (xStatus (record_of (fst r')))) = Complete \<and>
         countOf (record_of (fst r)) < countOf (record_of (fst r'))
     | Timeout \<Rightarrow> timeout_reason timeout r r'"
  using activate_spec [OF assms(1,2) HOL.refl] assms(3,4) by (cases res) auto

theorem activate_outcome_witness:
  "\<exists>r'. activate demo_link 1000 demo_run = Some (Activated, r') \<and>
     activationState (gripperStatus (xStatus (record_of (fst r')))) = Complete"
proof -
  have "map_option fst (activate demo_link 1000 demo_run) = Some Activated" by code_simp
  then obtain r' where a: "activate demo_link 1000 demo_run = Some (Activated, r')" by auto
  have "(1000::millis) \<le> longest" by (simp add: longest_value)
  from activate_outcome [OF a demo_run_no_commander demo_run_room this] a show ?thesis by auto
qed

text \<open>C3: All the commands of \<open>activate\<close> and \<open>recoverFromFault\<close>, in order, when nobody else commands:
  none; or a block that clears rACT and rGTO and then one that sets rACT with rGTO still cleared;
  or, only when the result is Timeout, the first of these and then the block found on entry, put
  back as it was. The two blocks differ from the one found in rACT and rGTO only, and nothing is
  commanded when the gripper was found active or with a latched fault.\<close>

theorem handshake_commands:
  assumes "activate xchg timeout r = Some (res, r') \<or> recoverFromFault xchg timeout r = Some (res, r')"
    and "sched_ok no_commander r" and "p = imgCommand (img (gs (fst r)))"
  shows "\<exists>off on.
    (commands xchg [] r r' \<or>
     commands xchg [off, p] r r' \<and> res = Timeout \<or>
     commands xchg [off, on] r r' \<and> res \<in> {Activated, Timeout}) \<and>
    (\<forall>b. action_get (action off) b = (b \<noteq> GoTo \<and> b \<noteq> Activate \<and> action_get (action p) b)) \<and>
    (\<forall>b. action_get (action on) b = (b \<noteq> GoTo \<and> (b = Activate \<or> action_get (action p) b))) \<and>
    (\<forall>a. off\<lparr>action := a\<rparr> = p\<lparr>action := a\<rparr> \<and> on\<lparr>action := a\<rparr> = p\<lparr>action := a\<rparr>)"
proof -
  have "procedure_commands xchg p r res r'"
    using assms(1) activate_commands [OF _ assms(2,3)] recoverFromFault_commands [OF _ assms(2,3)] by blast
  then show ?thesis
    by (intro exI [of _ "deactivate_command p"] exI [of _ "activate_command p"])
       (simp add: procedure_commands_def del: commands.simps)
qed

theorem handshake_commands_witness:
  "\<exists>r' off on. activate demo_link 1000 demo_run = Some (Activated, r') \<and>
     (commands demo_link [] demo_run r' \<or> commands demo_link [off, on] demo_run r') \<and>
     \<not> action_get (action off) Activate \<and> action_get (action on) Activate \<and> \<not> action_get (action on) GoTo"
proof -
  have "map_option fst (activate demo_link 1000 demo_run) = Some Activated" by code_simp
  then obtain r' where a: "activate demo_link 1000 demo_run = Some (Activated, r')" by auto
  from handshake_commands [OF disjI1 [OF a] demo_run_no_commander HOL.refl] a show ?thesis
    by (simp del: commands.simps) blast
qed

text \<open>C2: \<open>recoverFromFault\<close> returns Activated only after a whole reset: some exchange after the
  call, completed with the deactivating block in the image, reported the gripper deactivated, a
  later one reported the activation complete, and the image holds the activating block. On
  Timeout the image holds the block found at the start, or the activating one, and there is a
  reason.\<close>

theorem recoverFromFault_outcome:
  assumes "recoverFromFault xchg timeout r = Some (res, r')" and "sched_ok no_commander r"
    and "room r" and "timeout \<le> longest" and "p = imgCommand (img (gs (fst r)))"
  shows "case res of
       Activated \<Rightarrow>
         imgCommand (img (gs (fst r'))) = activate_command p \<and>
         activationState (gripperStatus (xStatus (record_of (fst r')))) = Complete \<and>
         (\<exists>m. progress xchg any_event r m \<and> progress xchg any_event m r' \<and>
            imgCommand (img (gs (fst m))) = deactivate_command p \<and>
            \<not> activated (gripperStatus (xStatus (record_of (fst m)))) \<and>
            countOf (record_of (fst r)) < countOf (record_of (fst m)) \<and>
            countOf (record_of (fst m)) < countOf (record_of (fst r')))
     | Timeout \<Rightarrow> imgCommand (img (gs (fst r'))) \<in> {p, activate_command p} \<and>
         timeout_reason timeout r r'
     | _ \<Rightarrow> False"
proof -
  have up: "progress xchg any_event a b" if "progress xchg (handshake_only p) a b" for a b
    using that by (rule progress_mono) simp
  note s = recoverFromFault_spec [OF assms(1,2,5)]
  show ?thesis
  proof (cases "res = Activated")
    case True
    with s have "reset_seen xchg p r r'" by blast
    with True assms(3) show ?thesis unfolding reset_seen_def True by (auto intro: up)
  next
    case False
    with s have "res = Timeout" by blast
    with s assms(4) show ?thesis by simp
  qed
qed

theorem recoverFromFault_outcome_witness:
  "\<exists>r'. recoverFromFault demo_link 1000 demo_run = Some (Activated, r') \<and>
     action_get (action (imgCommand (img (gs (fst r'))))) Activate"
proof -
  have "map_option fst (recoverFromFault demo_link 1000 demo_run) = Some Activated" by code_simp
  then obtain r' where a: "recoverFromFault demo_link 1000 demo_run = Some (Activated, r')" by auto
  have "(1000::millis) \<le> longest" by (simp add: longest_value)
  from recoverFromFault_outcome [OF a demo_run_no_commander demo_run_room this HOL.refl] a
  show ?thesis by auto
qed

text \<open>C4: On a dead link \<open>activate\<close> and \<open>recoverFromFault\<close> return Timeout, as soon as the timeout
  has passed.\<close>

theorem procedures_on_dead_link:
  assumes "dead_link xchg" and "silent (pc (gs (fst r)))" and "room r" and "ticking d (snd r)"
    and "k + 7 \<le> length (snd r)" and "ns_of_ms (max 0 timeout) \<le> int (k * d)"
  shows "(\<exists>r'. activate xchg timeout r = Some (Timeout, r')) \<and>
         (\<exists>r'. recoverFromFault xchg timeout r = Some (Timeout, r'))"
  using activate_dead [OF assms] recover_dead [OF assms] by blast

theorem procedures_on_dead_link_witness:
  "\<exists>r'. activate lost_link 2 lost_run = Some (Timeout, r')"
proof -
  have "2 + 7 \<le> length (snd lost_run)" "ns_of_ms (max 0 2) \<le> int (2 * 1000000)"
    by (simp_all add: lost_run_counts ns_of_ms_def)
  from procedures_on_dead_link [OF dead_lost_link lost_run_silent lost_run_room lost_run_ticking this]
  show ?thesis by blast
qed

end
