(* ===== verification/DataProperties.thy ===== *)
theory DataProperties
  imports Demo Device Throttle Render
begin

text \<open>
  Properties of the data: the wire format, the packed bytes, the fake device's registers, the
  throttle and the renderings.
\<close>

section \<open>The wire format\<close>

text \<open>A command block survives the wire: packed into eight registers and unpacked over any
  other block it comes back whole, with the bytes of each register high byte first.\<close>

theorem command_wire_roundtrip:
  assumes "wf_command c" and "wf_command d"
  shows "command_overlay (bytesFromRegisters (registersFromBytes 8 (command_data c)) (command_data d)) = c \<and>
    (\<forall>i < 8. high8 (registersFromBytes 8 (command_data c) ! i) = command_data c ! (2 * i) \<and>
             low8 (registersFromBytes 8 (command_data c) ! i) = command_data c ! (2 * i + 1))"
  using command_block.whole_block_roundtrip [OF assms] by simp

theorem command_wire_roundtrip_witness:
  "command_overlay (bytesFromRegisters (registersFromBytes 8 (command_data demo_command))
     (command_data GripperCommand_init)) = demo_command"
  using command_wire_roundtrip [of demo_command GripperCommand_init] by (simp add: demo_command_def)

text \<open>C40: So does a status block, and a partial transfer of \<open>n\<close> registers brings exactly its
  first \<open>2n\<close> bytes, leaving the rest of the receiving block as it was.\<close>

theorem status_wire_roundtrip:
  assumes "wf_status s" and "wf_status t" and "n \<le> 8"
  shows "status_data (status_overlay (bytesFromRegisters (registersFromBytes n (status_data s)) (status_data t))) =
      take (2 * n) (status_data s) @ drop (2 * n) (status_data t)"
  using status_block.prefix_roundtrip [OF assms] .

theorem status_wire_roundtrip_witness:
  "status_data (status_overlay (bytesFromRegisters
      (registersFromBytes 3 (status_data (GripperStatus_init\<lparr>position := 9\<rparr>))) (status_data GripperStatus_init)))
   = take 6 (status_data (GripperStatus_init\<lparr>position := 9\<rparr>)) @ drop 6 (status_data GripperStatus_init)"
  using status_wire_roundtrip [of "GripperStatus_init\<lparr>position := 9\<rparr>" GripperStatus_init 3] by simp

section \<open>Packed bytes\<close>

text \<open>Setting one action-request bit changes that bit and no other, whatever the byte held,
  and setting a bit to the value it has changes nothing.\<close>

theorem action_bits_independent:
  "action_get (action_set a b on) c = (if b = c then on else action_get a c) \<and>
   action_set a b (action_get a b) = a"
  using action_set_own [OF HOL.refl] by simp

text \<open>Each field of the GRIPPER STATUS byte is read back as written and the writers of the
  other fields do not disturb it.\<close>

theorem status_fields_independent:
  assumes "st \<in> {Reset, InProgress, Reserved, Complete}"
    and "d \<in> {Moving, DetectedWhileOpening, DetectedWhileClosing, AtRequestedPosition}"
  shows "let s' = setObjectDetection (setActivationState (setGoToEnabled (setActivated s a) g) st) d
    in activated (gripperStatus s') = a \<and> goToEnabled (gripperStatus s') = g \<and>
       activationState (gripperStatus s') = st \<and> objectDetection (gripperStatus s') = d \<and>
       faultStatus s' = faultStatus s \<and> position s' = position s \<and> current s' = current s"
  using assms by (simp add: Let_def)

theorem status_fields_independent_witness:
  "activationState (gripperStatus (setObjectDetection
     (setActivationState (setGoToEnabled (setActivated GripperStatus_init True) True) Complete) Moving)) = Complete"
  using status_fields_independent [of Complete Moving GripperStatus_init True True] by (simp add: Let_def)

text \<open>Every GRIPPER STATUS byte decodes to a named activation state and a named
  object-detection state, and a fault byte no enumerator names counts as a major fault.\<close>

theorem status_decoding_total:
  "activationState b \<in> {Reset, InProgress, Reserved, Complete} \<and>
   objectDetection b \<in> {Moving, DetectedWhileOpening, DetectedWhileClosing, AtRequestedPosition} \<and>
   GripperFault_code (gripperFault b) = b AND kGripperFaultMask \<and>
   (severity (gripperFault b) = SeverityNone \<longleftrightarrow> b AND kGripperFaultMask = 0) \<and>
   ((\<exists>x. gripperFault b = OtherGripperFault x) \<longrightarrow> severity (gripperFault b) = SeverityMajor)"
proof -
  have "severity (gripperFault b) = SeverityNone \<longleftrightarrow> b AND kGripperFaultMask = 0"
    by (simp add: gripperFault_def GripperFault_cast_def)
  moreover have "GripperFault_code (gripperFault b) = b AND kGripperFaultMask"
    by (simp add: gripperFault_def GripperFault_enum.code_cast)
  ultimately show ?thesis using activationState_named objectDetection_named by auto
qed

theorem status_decoding_total_witness:
  "severity (gripperFault 0x06) = SeverityMajor"
proof -
  have "gripperFault 0x06 = OtherGripperFault 0x06"
    by (simp add: gripperFault_def GripperFault_cast_def rm_defs)
  with status_decoding_total [of "0x06"] show ?thesis by blast
qed

section \<open>The fake device\<close>

text \<open>The fake device refuses exactly the accesses that leave its register file: a range is
  accepted if and only if it is not the empty range at zero and its last register exists; a
  refused write changes no register and no edge flag, and logs one error.\<close>

theorem refused_write:
  assumes "\<not> (unat a + unat q - 1 < kRegisterCount \<and> (a \<noteq> 0 \<or> q \<noteq> 0))"
  shows "\<not> containsRange a q \<and>
    registers (model_write m a q vs) = registers m \<and>
    previousActivateBit (model_write m a q vs) = previousActivateBit m \<and>
    activationDone (model_write m a q vs) = activationDone m \<and>
    length (modelLog (model_write m a q vs)) = length (modelLog m) + 1 \<and>
    fst (model_read m a q out) = out"
proof -
  have "\<not> containsRange a q" using assms by (auto simp: containsRange_iff)
  then show ?thesis by (simp add: model_write_def model_read_def)
qed

theorem refused_write_witness:
  "registers (model_write RegisterModel_init 0xFFFF 2 [1, 2]) = registers RegisterModel_init"
  using refused_write [of "0xFFFF" 2 RegisterModel_init "[1, 2]" "[]"] by (simp add: model_consts)

text \<open>An exchange with the fake device answers the command it was given: the device stores
  the block, the status echoes rACT and the position, an rACT edge completes the activation at
  once and clearing rACT resets it, with the fault.\<close>

theorem device_exchange_answers:
  assumes "wf_command c" and "activationDone m = previousActivateBit m"
  shows "\<exists>s m'. device_exchange m c = (Inr s, m') \<and> same_documented (model_command m') c \<and>
    s = documented_status (model_status m') \<and>
    activated (gripperStatus s) = action_get (action c) Activate \<and>
    activationState (gripperStatus s) = (if action_get (action c) Activate then Complete else Reset) \<and>
    faultStatus s = (if action_get (action c) Activate then faultStatus (model_status m) else 0) \<and>
    positionRequestEcho s = positionRequest c \<and>
    activationDone m' = previousActivateBit m'"
  using device_exchange_eq [OF assms(1), of m] assms(2)
  by (simp add: processCommand_state processCommand_model)

theorem device_exchange_answers_witness:
  "\<exists>s m'. device_exchange RegisterModel_init GripperCommand_defaults = (Inr s, m') \<and>
     activationState (gripperStatus s) = Complete"
proof -
  have "action_get (action GripperCommand_defaults) Activate"
    by (simp add: GripperCommand_defaults_def)
  with device_exchange_answers [OF wf_command_defaults, of RegisterModel_init] show ?thesis
    by (auto simp: RegisterModel_init_def)
qed

section \<open>The throttle\<close>

text \<open>A throttled call site runs at most once per period: whatever the instants of the
  calls, the runs are at least one period apart, so up to an instant \<open>until\<close> their number is at most
  the whole periods since the last run before them.\<close>

theorem throttle_bounds_runs:
  assumes "0 \<le> throttlePeriod th" and "\<forall>t \<in> set (throttle_runs th ts). t \<le> until"
    and "throttle_runs th ts \<noteq> []"
  shows "spaced (throttlePeriod th) (lastRun th) (throttle_runs th ts) \<and>
    lastRun th + int (length (throttle_runs th ts)) * throttlePeriod th \<le> until"
  using throttle_runs_spaced_from [of th ts] spaced_length [OF _ assms(1,2,3)] by blast

theorem throttle_bounds_runs_witness:
  "length (throttle_runs (Throttle_create 1000) [1000000000, 1000000001, 2000000000, 2500000000]) \<le> 2"
proof -
  let ?th = "Throttle_create 1000" and ?ts = "[1000000000, 1000000001, 2000000000, 2500000000]"
  have "\<forall>t \<in> set (throttle_runs ?th ?ts). t \<le> 2500000000" "throttle_runs ?th ?ts \<noteq> []"
    "throttlePeriod ?th = 1000000000" "lastRun ?th = 0" by code_simp+
  with throttle_bounds_runs [of ?th ?ts 2500000000] show ?thesis by simp
qed

section \<open>Renderings\<close>

text \<open>The rendering of a command block determines every documented field: two blocks that
  print the same have the same action bits, position, speed and force.\<close>

theorem command_rendering_injective:
  assumes "command_toString c = command_toString d"
  shows "(\<forall>b. action_get (action c) b = action_get (action d) b) \<and>
    positionRequest c = positionRequest d \<and> speed c = speed d \<and> force c = force d"
  using command_toString_fields [OF assms] by blast

theorem command_rendering_injective_witness:
  "positionRequest demo_command = positionRequest (demo_command\<lparr>cmdReserved1 := 7\<rparr>)"
proof -
  have "command_toString demo_command = command_toString (demo_command\<lparr>cmdReserved1 := 7\<rparr>)"
    by (simp add: command_toString_shape)
  from command_rendering_injective [OF this] show ?thesis by blast
qed

end
