(* ===== verification/NanoModbus.thy ===== *)
theory NanoModbus
  imports Prelude "HOL-Library.State_Monad"
begin

text \<open>
  The Modbus library the SDK ships with (\<open>third_party/nanomodbus/nanomodbus.c\<close>): the message
  buffer, the checksum, framing, receiving and sending. \<open>nmbs_t\<close> is a record that the
  functions thread as state; the transport behind it is the pair of functions in
  \<open>platform_conf\<close> over the user argument \<open>arg\<close>. An access outside the 260-byte message buffer
  sets the ghost \<open>oob\<close>: memory safety is the claim that it stays clear. \<open>buf_idx\<close> never comes
  near the end of its 16 bits and is a \<open>nat\<close>. Both transports are there; the SDK uses RTU.
\<close>

section \<open>Errors\<close>

datatype nmbs_error =
    NMBS_ERROR_INVALID_REQUEST
  | NMBS_ERROR_INVALID_UNIT_ID
  | NMBS_ERROR_INVALID_TCP_MBAP
  | NMBS_ERROR_CRC
  | NMBS_ERROR_TRANSPORT
  | NMBS_ERROR_TIMEOUT
  | NMBS_ERROR_INVALID_RESPONSE
  | NMBS_ERROR_INVALID_ARGUMENT
  | NMBS_ERROR_NONE
  | NMBS_EXCEPTION_ILLEGAL_FUNCTION
  | NMBS_EXCEPTION_ILLEGAL_DATA_ADDRESS
  | NMBS_EXCEPTION_ILLEGAL_DATA_VALUE
  | NMBS_EXCEPTION_SERVER_DEVICE_FAILURE

fun error_code :: "nmbs_error \<Rightarrow> int" where
  "error_code NMBS_ERROR_INVALID_REQUEST = -8"
| "error_code NMBS_ERROR_INVALID_UNIT_ID = -7"
| "error_code NMBS_ERROR_INVALID_TCP_MBAP = -6"
| "error_code NMBS_ERROR_CRC = -5"
| "error_code NMBS_ERROR_TRANSPORT = -4"
| "error_code NMBS_ERROR_TIMEOUT = -3"
| "error_code NMBS_ERROR_INVALID_RESPONSE = -2"
| "error_code NMBS_ERROR_INVALID_ARGUMENT = -1"
| "error_code NMBS_ERROR_NONE = 0"
| "error_code NMBS_EXCEPTION_ILLEGAL_FUNCTION = 1"
| "error_code NMBS_EXCEPTION_ILLEGAL_DATA_ADDRESS = 2"
| "error_code NMBS_EXCEPTION_ILLEGAL_DATA_VALUE = 3"
| "error_code NMBS_EXCEPTION_SERVER_DEVICE_FAILURE = 4"

definition nmbs_error_is_exception :: "nmbs_error \<Rightarrow> bool" where
  "nmbs_error_is_exception e \<longleftrightarrow> error_code e > 0 \<and> error_code e < 5"

text \<open>The cast of an exception byte, from 1 to 4, to the enum.\<close>

definition error_of_exception :: "u8 \<Rightarrow> nmbs_error" where
  "error_of_exception b =
     (if b = 1 then NMBS_EXCEPTION_ILLEGAL_FUNCTION
      else if b = 2 then NMBS_EXCEPTION_ILLEGAL_DATA_ADDRESS
      else if b = 3 then NMBS_EXCEPTION_ILLEGAL_DATA_VALUE
      else NMBS_EXCEPTION_SERVER_DEVICE_FAILURE)"

fun nmbs_strerror :: "nmbs_error \<Rightarrow> string" where
  "nmbs_strerror NMBS_ERROR_INVALID_REQUEST = ''invalid request received''"
| "nmbs_strerror NMBS_ERROR_INVALID_UNIT_ID = ''invalid unit ID received''"
| "nmbs_strerror NMBS_ERROR_INVALID_TCP_MBAP = ''invalid TCP MBAP received''"
| "nmbs_strerror NMBS_ERROR_CRC = ''invalid CRC received''"
| "nmbs_strerror NMBS_ERROR_TRANSPORT = ''transport error''"
| "nmbs_strerror NMBS_ERROR_TIMEOUT = ''timeout''"
| "nmbs_strerror NMBS_ERROR_INVALID_RESPONSE = ''invalid response received''"
| "nmbs_strerror NMBS_ERROR_INVALID_ARGUMENT = ''invalid argument provided''"
| "nmbs_strerror NMBS_ERROR_NONE = ''no error''"
| "nmbs_strerror NMBS_EXCEPTION_ILLEGAL_FUNCTION = ''modbus exception 1: illegal function''"
| "nmbs_strerror NMBS_EXCEPTION_ILLEGAL_DATA_ADDRESS = ''modbus exception 2: illegal data address''"
| "nmbs_strerror NMBS_EXCEPTION_ILLEGAL_DATA_VALUE = ''modbus exception 3: data value''"
| "nmbs_strerror NMBS_EXCEPTION_SERVER_DEVICE_FAILURE = ''modbus exception 4: server device failure''"

section \<open>State\<close>

datatype nmbs_transport = NMBS_TRANSPORT_RTU | NMBS_TRANSPORT_TCP

text \<open>
  \<open>read count timeout\<close> returns the C result and the bytes stored at the buffer pointer;
  \<open>write\<close> takes the bytes of the message.
\<close>

record 'p platform_conf =
  transport :: nmbs_transport
  pread :: "nat \<Rightarrow> int \<Rightarrow> 'p \<Rightarrow> int \<times> u8 list \<times> 'p"
  pwrite :: "u8 list \<Rightarrow> int \<Rightarrow> 'p \<Rightarrow> int \<times> 'p"

record 'p nmbs_t =
  buf :: "u8 list"
  buf_idx :: nat
  unit_id :: u8
  fc :: u8
  transaction_id :: u16
  broadcast :: bool
  ignored :: bool
  complete :: bool
  byte_timeout_ms :: int
  read_timeout_ms :: int
  platform :: "'p platform_conf"
  address_rtu :: u8
  dest_address_rtu :: u8
  current_tid :: u16
  arg :: 'p
  oob :: bool

type_synonym ('p, 'a) nm = "('p nmbs_t, 'a) state"

definition kBufSize :: nat where "kBufSize = 260"
definition NMBS_BROADCAST_ADDRESS :: u8 where "NMBS_BROADCAST_ADDRESS = 0"

abbreviation nm_return :: "'a \<Rightarrow> ('p, 'a) nm" where
  "nm_return \<equiv> State_Monad.return"

definition asks :: "('p nmbs_t \<Rightarrow> 'a) \<Rightarrow> ('p, 'a) nm" where
  "asks f = State (\<lambda>n. (f n, n))"

definition modify :: "('p nmbs_t \<Rightarrow> 'p nmbs_t) \<Rightarrow> ('p, unit) nm" where
  "modify f = State (\<lambda>n. ((), f n))"

text \<open>\<open>err = m; if (err != NMBS_ERROR_NONE) return err;\<close> and the rest.\<close>

definition on_ok :: "('p, nmbs_error) nm \<Rightarrow> ('p, nmbs_error) nm \<Rightarrow> ('p, nmbs_error) nm" where
  "on_ok m k = do { err \<leftarrow> m; if err \<noteq> NMBS_ERROR_NONE then nm_return err else k }"

section \<open>The message buffer\<close>

definition buf_at :: "nat \<Rightarrow> 'p nmbs_t \<Rightarrow> u8" where
  "buf_at i n = (if i < length (buf n) then buf n ! i else 0)"

text \<open>Accesses of \<open>k\<close> bytes at \<open>i\<close>.\<close>

definition touch :: "nat \<Rightarrow> nat \<Rightarrow> 'p nmbs_t \<Rightarrow> 'p nmbs_t" where
  "touch i k n = n\<lparr>oob := oob n \<or> length (buf n) < i + k\<rparr>"

definition store_at :: "nat \<Rightarrow> u8 list \<Rightarrow> 'p nmbs_t \<Rightarrow> 'p nmbs_t" where
  "store_at i bs n =
     touch i (length bs)
       (n\<lparr>buf := take (length (buf n)) (take i (buf n) @ bs @ drop (i + length bs) (buf n))\<rparr>)"

definition get_1 :: "('p, u8) nm" where
  "get_1 = State (\<lambda>n. (buf_at (buf_idx n) n, (touch (buf_idx n) 1 n)\<lparr>buf_idx := buf_idx n + 1\<rparr>))"

definition put_1 :: "u8 \<Rightarrow> ('p, unit) nm" where
  "put_1 d = modify (\<lambda>n. (store_at (buf_idx n) [d] n)\<lparr>buf_idx := buf_idx n + 1\<rparr>)"

definition discard_1 :: "('p, unit) nm" where
  "discard_1 = modify (\<lambda>n. n\<lparr>buf_idx := buf_idx n + 1\<rparr>)"

definition discard_n :: "nat \<Rightarrow> ('p, unit) nm" where
  "discard_n k = modify (\<lambda>n. n\<lparr>buf_idx := buf_idx n + k\<rparr>)"

definition get_2 :: "('p, u16) nm" where
  "get_2 = State (\<lambda>n. (pack16 (buf_at (buf_idx n) n) (buf_at (buf_idx n + 1) n),
                        (touch (buf_idx n) 2 n)\<lparr>buf_idx := buf_idx n + 2\<rparr>))"

definition put_2 :: "u16 \<Rightarrow> ('p, unit) nm" where
  "put_2 d = modify (\<lambda>n. (store_at (buf_idx n) [high8 d, low8 d] n)\<lparr>buf_idx := buf_idx n + 2\<rparr>)"

fun get_2s :: "nat \<Rightarrow> ('p, u16 list) nm" where
  "get_2s 0 = nm_return []"
| "get_2s (Suc k) = do { r \<leftarrow> get_2; rs \<leftarrow> get_2s k; nm_return (r # rs) }"

fun put_2s :: "u16 list \<Rightarrow> ('p, unit) nm" where
  "put_2s [] = nm_return ()"
| "put_2s (r # rs) = do { put_2 r; put_2s rs }"

fun get_1s :: "nat \<Rightarrow> ('p, u8 list) nm" where
  "get_1s 0 = nm_return []"
| "get_1s (Suc k) = do { b \<leftarrow> get_1; bs \<leftarrow> get_1s k; nm_return (b # bs) }"

fun put_1s :: "u8 list \<Rightarrow> ('p, unit) nm" where
  "put_1s [] = nm_return ()"
| "put_1s (b # bs) = do { put_1 b; put_1s bs }"

section \<open>The transport\<close>

definition recv :: "nat \<Rightarrow> ('p, nmbs_error) nm" where
  "recv count = State (\<lambda>n.
     if complete n then (NMBS_ERROR_NONE, n)
     else let (ret, bs, a) = pread (platform n) count (byte_timeout_ms n) (arg n);
              n = store_at (buf_idx n) bs (n\<lparr>arg := a\<rparr>)
          in if ret = int count then (NMBS_ERROR_NONE, n)
             else if ret < int count
             then (if ret < 0 then (NMBS_ERROR_TRANSPORT, n) else (NMBS_ERROR_TIMEOUT, n))
             else (NMBS_ERROR_TRANSPORT, n))"

definition send :: "nat \<Rightarrow> ('p, nmbs_error) nm" where
  "send count = State (\<lambda>n.
     let (ret, a) = pwrite (platform n) (take count (buf n)) (byte_timeout_ms n) (arg n);
         n = touch 0 count (n\<lparr>arg := a\<rparr>)
     in if ret = int count then (NMBS_ERROR_NONE, n)
        else if ret < int count
        then (if ret < 0 then (NMBS_ERROR_TRANSPORT, n) else (NMBS_ERROR_TIMEOUT, n))
        else (NMBS_ERROR_TRANSPORT, n))"

definition flush :: "('p, unit) nm" where
  "flush = modify (\<lambda>n.
     let (ret, bs, a) = pread (platform n) kBufSize 0 (arg n) in store_at 0 bs (n\<lparr>arg := a\<rparr>))"

definition msg_buf_reset :: "('p, unit) nm" where
  "msg_buf_reset = modify (\<lambda>n. n\<lparr>buf_idx := 0\<rparr>)"

definition msg_state_reset :: "('p, unit) nm" where
  "msg_state_reset =
     do { msg_buf_reset;
          modify (\<lambda>n. n\<lparr>unit_id := 0, fc := 0, transaction_id := 0, broadcast := False,
                        ignored := False, complete := False\<rparr>) }"

definition msg_state_req :: "u8 \<Rightarrow> ('p, unit) nm" where
  "msg_state_req f =
     do { modify (\<lambda>n. n\<lparr>current_tid := if current_tid n = 0xFFFF then 1 else current_tid n + 1\<rparr>);
          flush;
          msg_state_reset;
          modify (\<lambda>n. n\<lparr>unit_id := dest_address_rtu n, fc := f, transaction_id := current_tid n\<rparr>);
          modify (\<lambda>n. if unit_id n = NMBS_BROADCAST_ADDRESS \<and> transport (platform n) = NMBS_TRANSPORT_RTU
                      then n\<lparr>broadcast := True\<rparr> else n) }"

section \<open>Creation\<close>

definition nmbs_create :: "'p platform_conf \<Rightarrow> 'p \<Rightarrow> 'p nmbs_t" where
  "nmbs_create conf a =
     \<lparr>buf = replicate kBufSize 0, buf_idx = 0, unit_id = 0, fc = 0, transaction_id = 0,
      broadcast = False, ignored = False, complete = False, byte_timeout_ms = -1,
      read_timeout_ms = -1, platform = conf, address_rtu = 0, dest_address_rtu = 0,
      current_tid = 0, arg = a, oob = False\<rparr>"

definition nmbs_set_read_timeout :: "int \<Rightarrow> 'p nmbs_t \<Rightarrow> 'p nmbs_t" where
  "nmbs_set_read_timeout ms n = n\<lparr>read_timeout_ms := ms\<rparr>"

definition nmbs_set_byte_timeout :: "int \<Rightarrow> 'p nmbs_t \<Rightarrow> 'p nmbs_t" where
  "nmbs_set_byte_timeout ms n = n\<lparr>byte_timeout_ms := ms\<rparr>"

definition nmbs_set_destination_rtu_address :: "u8 \<Rightarrow> 'p nmbs_t \<Rightarrow> 'p nmbs_t" where
  "nmbs_set_destination_rtu_address a n = n\<lparr>dest_address_rtu := a\<rparr>"

section \<open>The checksum\<close>

definition crc_bit :: "u16 \<Rightarrow> u16" where
  "crc_bit crc = (if crc AND 1 \<noteq> 0 then drop_bit 1 crc XOR 0xA001 else drop_bit 1 crc)"

definition crc_byte :: "u16 \<Rightarrow> u8 \<Rightarrow> u16" where
  "crc_byte crc d = (crc_bit ^^ 8) (crc XOR ucast d)"

definition nmbs_crc_calc :: "u8 list \<Rightarrow> u16" where
  "nmbs_crc_calc data =
     (let crc = foldl crc_byte 0xFFFF data in push_bit 8 crc OR drop_bit 8 crc)"

section \<open>Frames\<close>

definition recv_msg_footer :: "('p, nmbs_error) nm" where
  "recv_msg_footer =
     do { t \<leftarrow> asks (\<lambda>n. transport (platform n));
          if t = NMBS_TRANSPORT_RTU
          then do { crc \<leftarrow> asks (\<lambda>n. nmbs_crc_calc (take (buf_idx n) (buf n)));
                    modify (\<lambda>n. touch 0 (buf_idx n) n);
                    on_ok (recv 2)
                      (do { recv_crc \<leftarrow> get_2;
                            nm_return (if recv_crc \<noteq> crc then NMBS_ERROR_CRC else NMBS_ERROR_NONE) }) }
          else nm_return NMBS_ERROR_NONE }"

text \<open>The error, and whether a first byte came in.\<close>

definition recv_msg_header :: "('p, nmbs_error \<times> bool) nm" where
  "recv_msg_header =
     do { old_byte_timeout \<leftarrow> asks byte_timeout_ms;
          modify (\<lambda>n. n\<lparr>byte_timeout_ms := read_timeout_ms n\<rparr>);
          msg_state_reset;
          t \<leftarrow> asks (\<lambda>n. transport (platform n));
          err \<leftarrow> recv 1;
          modify (\<lambda>n. n\<lparr>byte_timeout_ms := old_byte_timeout\<rparr>);
          if err \<noteq> NMBS_ERROR_NONE then nm_return (err, False)
          else if t = NMBS_TRANSPORT_RTU
          then do { u \<leftarrow> get_1;
                    modify (\<lambda>n. n\<lparr>unit_id := u\<rparr>);
                    err \<leftarrow> recv 1;
                    if err \<noteq> NMBS_ERROR_NONE then nm_return (err, True)
                    else do { f \<leftarrow> get_1; modify (\<lambda>n. n\<lparr>fc := f\<rparr>); nm_return (NMBS_ERROR_NONE, True) } }
          else do { discard_1;
                    err \<leftarrow> recv 7;
                    if err \<noteq> NMBS_ERROR_NONE then nm_return (err, True)
                    else do { msg_buf_reset;
                              tid \<leftarrow> get_2;
                              modify (\<lambda>n. n\<lparr>transaction_id := tid\<rparr>);
                              protocol_id \<leftarrow> get_2;
                              len \<leftarrow> get_2;
                              u \<leftarrow> get_1;
                              f \<leftarrow> get_1;
                              modify (\<lambda>n. n\<lparr>unit_id := u, fc := f\<rparr>);
                              if unat len < 2 \<or> unat len > 255
                              then nm_return (NMBS_ERROR_INVALID_TCP_MBAP, True)
                              else do { err \<leftarrow> recv (unat len - 2);
                                        if err \<noteq> NMBS_ERROR_NONE then nm_return (err, True)
                                        else if protocol_id \<noteq> 0
                                        then nm_return (NMBS_ERROR_INVALID_TCP_MBAP, True)
                                        else do { modify (\<lambda>n. n\<lparr>complete := True\<rparr>);
                                                  nm_return (NMBS_ERROR_NONE, True) } } } } }"

definition put_msg_header :: "u16 \<Rightarrow> ('p, unit) nm" where
  "put_msg_header data_length =
     do { msg_buf_reset;
          t \<leftarrow> asks (\<lambda>n. transport (platform n));
          u \<leftarrow> asks unit_id;
          f \<leftarrow> asks fc;
          tid \<leftarrow> asks transaction_id;
          if t = NMBS_TRANSPORT_RTU
          then do { put_1 u; put_1 f }
          else do { put_2 tid; put_2 0; put_2 (1 + 1 + data_length); put_1 u; put_1 f } }"

definition send_msg :: "('p, nmbs_error) nm" where
  "send_msg =
     do { t \<leftarrow> asks (\<lambda>n. transport (platform n));
          (if t = NMBS_TRANSPORT_RTU
           then do { crc \<leftarrow> asks (\<lambda>n. nmbs_crc_calc (take (buf_idx n) (buf n)));
                     modify (\<lambda>n. touch 0 (buf_idx n) n);
                     put_2 crc }
           else nm_return ());
          i \<leftarrow> asks buf_idx;
          send i }"

definition put_res_header :: "u16 \<Rightarrow> ('p, unit) nm" where
  "put_res_header data_length = put_msg_header data_length"

definition put_req_header :: "u16 \<Rightarrow> ('p, unit) nm" where
  "put_req_header data_length = put_msg_header data_length"

definition recv_req_header :: "('p, nmbs_error \<times> bool) nm" where
  "recv_req_header =
     do { (err, first) \<leftarrow> recv_msg_header;
          if err \<noteq> NMBS_ERROR_NONE then nm_return (err, first)
          else do { modify (\<lambda>n.
                      if transport (platform n) = NMBS_TRANSPORT_RTU
                      then (if unit_id n = NMBS_BROADCAST_ADDRESS then n\<lparr>broadcast := True\<rparr>
                            else n\<lparr>ignored := (unit_id n \<noteq> address_rtu n)\<rparr>)
                      else n);
                    nm_return (NMBS_ERROR_NONE, first) } }"

definition send_exception_msg :: "nmbs_error \<Rightarrow> ('p, nmbs_error) nm" where
  "send_exception_msg e =
     do { b \<leftarrow> asks broadcast;
          if b then nm_return NMBS_ERROR_NONE
          else do { modify (\<lambda>n. n\<lparr>fc := fc n + 0x80\<rparr>);
                    put_msg_header 1;
                    put_1 (word_of_int (error_code e));
                    send_msg } }"

definition recv_res_header :: "('p, nmbs_error) nm" where
  "recv_res_header =
     do { req_transaction_id \<leftarrow> asks transaction_id;
          req_unit_id \<leftarrow> asks unit_id;
          req_fc \<leftarrow> asks fc;
          (err, first) \<leftarrow> recv_msg_header;
          if err \<noteq> NMBS_ERROR_NONE then nm_return err
          else do { t \<leftarrow> asks (\<lambda>n. transport (platform n));
                    tid \<leftarrow> asks transaction_id;
                    u \<leftarrow> asks unit_id;
                    f \<leftarrow> asks fc;
                    if t = NMBS_TRANSPORT_TCP \<and> tid \<noteq> req_transaction_id
                    then nm_return NMBS_ERROR_INVALID_TCP_MBAP
                    else if t = NMBS_TRANSPORT_RTU \<and> u \<noteq> req_unit_id
                    then nm_return NMBS_ERROR_INVALID_UNIT_ID
                    else if f \<noteq> req_fc
                    then (if int (unat f) - 0x80 = int (unat req_fc)
                          then on_ok (recv 1)
                                 (do { exception \<leftarrow> get_1;
                                       on_ok recv_msg_footer
                                         (nm_return (if exception < 1 \<or> exception > 4
                                                     then NMBS_ERROR_INVALID_RESPONSE
                                                     else error_of_exception exception)) })
                          else nm_return NMBS_ERROR_INVALID_RESPONSE)
                    else nm_return NMBS_ERROR_NONE } }"

end
