(* ===== verification/NanoClient.thy ===== *)
theory NanoClient
  imports NanoModbus
begin

text \<open>
  The client of nanomodbus.c: the requests the SDK sends (function codes 3, 16 and 23), the
  single writes, and the responses as they are received. A server that ignores a request
  for another unit reads its response with the same functions, without storing it.
\<close>

section \<open>Responses\<close>

definition NMBS_BITFIELD_BYTES_MAX :: nat where "NMBS_BITFIELD_BYTES_MAX = 250"

text \<open>\<open>values\<close> are what the caller's array holds afterwards; the first \<open>n\<close> entries are new.\<close>

definition recv_read_discrete_res :: "u8 list \<Rightarrow> ('p, nmbs_error \<times> u8 list) nm" where
  "recv_read_discrete_res values =
     do { err \<leftarrow> recv_res_header;
          if err \<noteq> NMBS_ERROR_NONE then nm_return (err, values)
          else do { err \<leftarrow> recv 1;
            if err \<noteq> NMBS_ERROR_NONE then nm_return (err, values)
            else do { coils_bytes \<leftarrow> get_1;
              if unat coils_bytes > NMBS_BITFIELD_BYTES_MAX
              then nm_return (NMBS_ERROR_INVALID_RESPONSE, values)
              else do { err \<leftarrow> recv (unat coils_bytes);
                if err \<noteq> NMBS_ERROR_NONE then nm_return (err, values)
                else do { coils \<leftarrow> get_1s (unat coils_bytes);
                  err \<leftarrow> recv_msg_footer;
                  nm_return (err, coils @ drop (length coils) values) } } } } }"

definition recv_read_registers_res :: "u16 \<Rightarrow> u16 list \<Rightarrow> ('p, nmbs_error \<times> u16 list) nm" where
  "recv_read_registers_res quantity registers =
     do { err \<leftarrow> recv_res_header;
          if err \<noteq> NMBS_ERROR_NONE then nm_return (err, registers)
          else do { err \<leftarrow> recv 1;
            if err \<noteq> NMBS_ERROR_NONE then nm_return (err, registers)
            else do { registers_bytes \<leftarrow> get_1;
              if unat registers_bytes > 250 \<or> unat registers_bytes \<noteq> unat quantity * 2
              then nm_return (NMBS_ERROR_INVALID_RESPONSE, registers)
              else do { err \<leftarrow> recv (unat registers_bytes);
                if err \<noteq> NMBS_ERROR_NONE then nm_return (err, registers)
                else do { regs \<leftarrow> get_2s (unat registers_bytes div 2);
                  err \<leftarrow> recv_msg_footer;
                  nm_return (err, regs @ drop (length regs) registers) } } } } }"

text \<open>Two 16-bit fields that must echo the request: the four short responses.\<close>

definition recv_echo_res :: "u16 \<Rightarrow> u16 \<Rightarrow> ('p, nmbs_error) nm" where
  "recv_echo_res a v =
     on_ok recv_res_header (on_ok (recv 4)
       (do { address_res \<leftarrow> get_2;
             value_res \<leftarrow> get_2;
             on_ok recv_msg_footer
               (nm_return (if address_res \<noteq> a then NMBS_ERROR_INVALID_RESPONSE
                           else if value_res \<noteq> v then NMBS_ERROR_INVALID_RESPONSE
                           else NMBS_ERROR_NONE)) }))"

definition recv_write_single_coil_res :: "u16 \<Rightarrow> u16 \<Rightarrow> ('p, nmbs_error) nm" where
  "recv_write_single_coil_res address value_req = recv_echo_res address value_req"

definition recv_write_single_register_res :: "u16 \<Rightarrow> u16 \<Rightarrow> ('p, nmbs_error) nm" where
  "recv_write_single_register_res address value_req = recv_echo_res address value_req"

definition recv_write_multiple_coils_res :: "u16 \<Rightarrow> u16 \<Rightarrow> ('p, nmbs_error) nm" where
  "recv_write_multiple_coils_res address quantity = recv_echo_res address quantity"

definition recv_write_multiple_registers_res :: "u16 \<Rightarrow> u16 \<Rightarrow> ('p, nmbs_error) nm" where
  "recv_write_multiple_registers_res address quantity = recv_echo_res address quantity"

text \<open>
  File records. \<open>get_n\<close> hands out a pointer into the buffer and moves on; \<open>swap_regs\<close> swaps the
  bytes of each register there, so that on the little-endian machines the SDK is built for the
  16-bit values read high byte first.
\<close>

definition get_n :: "nat \<Rightarrow> ('p, nat) nm" where
  "get_n k = State (\<lambda>n. (buf_idx n, n\<lparr>buf_idx := buf_idx n + k\<rparr>))"

fun swap_pairs :: "u8 list \<Rightarrow> u8 list" where
  "swap_pairs (a # b # bs) = b # a # swap_pairs bs"
| "swap_pairs bs = bs"

definition native_bytes :: "u16 list \<Rightarrow> u8 list" where
  "native_bytes rs = concat (map (\<lambda>r. [low8 r, high8 r]) rs)"

fun native_regs :: "u8 list \<Rightarrow> u16 list" where
  "native_regs (a # b # bs) = pack16 b a # native_regs bs"
| "native_regs bs = []"

definition bytes_at :: "nat \<Rightarrow> nat \<Rightarrow> 'p nmbs_t \<Rightarrow> u8 list" where
  "bytes_at i k n = map (\<lambda>j. buf_at (i + j) n) [0..<k]"

definition swap_regs :: "nat \<Rightarrow> nat \<Rightarrow> ('p, unit) nm" where
  "swap_regs i k = modify (\<lambda>n. store_at i (swap_pairs (bytes_at i (2 * k) n)) n)"

text \<open>\<open>get_regs\<close>: the pointer, with the registers behind it swapped to native order.\<close>

definition get_regs :: "nat \<Rightarrow> ('p, nat) nm" where
  "get_regs k = do { i \<leftarrow> get_n (2 * k); swap_regs i k; nm_return i }"

definition put_regs :: "u16 list \<Rightarrow> ('p, unit) nm" where
  "put_regs data =
     do { i \<leftarrow> get_n (2 * length data);
          modify (store_at i (swap_pairs (native_bytes data))) }"

definition recv_read_file_record_res :: "u16 list option \<Rightarrow> u16 \<Rightarrow> ('p, nmbs_error \<times> u16 list option) nm" where
  "recv_read_file_record_res registers count =
     do { err \<leftarrow> recv_res_header;
          if err \<noteq> NMBS_ERROR_NONE then nm_return (err, registers)
          else do { err \<leftarrow> recv 1;
            if err \<noteq> NMBS_ERROR_NONE then nm_return (err, registers)
            else do { response_size \<leftarrow> get_1;
              if response_size > 250 then nm_return (NMBS_ERROR_INVALID_RESPONSE, registers)
              else do { err \<leftarrow> recv (unat response_size);
                if err \<noteq> NMBS_ERROR_NONE then nm_return (err, registers)
                else do { size1 \<leftarrow> get_1;
                  let subreq_data_size = size1 - 1;
                  subreq_reference_type \<leftarrow> get_1;
                  at \<leftarrow> get_n (unat subreq_data_size);
                  err \<leftarrow> recv_msg_footer;
                  if err \<noteq> NMBS_ERROR_NONE then nm_return (err, registers)
                  else (case registers of
                      None \<Rightarrow> nm_return (NMBS_ERROR_NONE, None)
                    | Some rs \<Rightarrow>
                        if subreq_reference_type \<noteq> 6 then nm_return (NMBS_ERROR_INVALID_RESPONSE, Some rs)
                        else if unat count \<noteq> unat subreq_data_size div 2
                        then nm_return (NMBS_ERROR_INVALID_RESPONSE, Some rs)
                        else do { swap_regs at (unat subreq_data_size div 2);
                                  new \<leftarrow> asks (bytes_at at (2 * (unat subreq_data_size div 2)));
                                  nm_return (NMBS_ERROR_NONE,
                                    Some (native_regs new @ drop (unat subreq_data_size div 2) rs)) }) } } } } }"

definition recv_write_file_record_res ::
  "u16 \<Rightarrow> u16 \<Rightarrow> u16 list option \<Rightarrow> u16 \<Rightarrow> ('p, nmbs_error) nm" where
  "recv_write_file_record_res file_number record_number registers count =
     on_ok recv_res_header (on_ok (recv 1)
       (do { response_size \<leftarrow> get_1;
             if response_size > 251 then nm_return NMBS_ERROR_INVALID_RESPONSE
             else on_ok (recv (unat response_size))
               (do { subreq_reference_type \<leftarrow> get_1;
                     subreq_file_number \<leftarrow> get_2;
                     subreq_record_number \<leftarrow> get_2;
                     subreq_record_length \<leftarrow> get_2;
                     let subreq_data_size = subreq_record_length * 2;
                     at \<leftarrow> get_n (unat subreq_data_size);
                     on_ok recv_msg_footer
                       (case registers of
                          None \<Rightarrow> nm_return NMBS_ERROR_NONE
                        | Some rs \<Rightarrow>
                            if subreq_reference_type \<noteq> 6 then nm_return NMBS_ERROR_INVALID_RESPONSE
                            else if subreq_file_number \<noteq> file_number then nm_return NMBS_ERROR_INVALID_RESPONSE
                            else if subreq_record_number \<noteq> record_number then nm_return NMBS_ERROR_INVALID_RESPONSE
                            else if subreq_record_length \<noteq> count then nm_return NMBS_ERROR_INVALID_RESPONSE
                            else do { swap_regs at (unat subreq_record_length);
                                      got \<leftarrow> asks (bytes_at at (unat subreq_data_size));
                                      nm_return (if take (unat subreq_data_size) (native_bytes rs) \<noteq> got
                                                 then NMBS_ERROR_INVALID_RESPONSE
                                                 else NMBS_ERROR_NONE) }) }) }))"

text \<open>
  Device identification, as a server reads the response it ignores: every output pointer is
  null, so the objects are skipped over. \<open>res_size_left\<close> is the byte it is in the code.
\<close>

fun skip_objects :: "nat \<Rightarrow> u8 \<Rightarrow> ('p, nmbs_error) nm" where
  "skip_objects 0 res_size_left = nm_return NMBS_ERROR_NONE"
| "skip_objects (Suc k) res_size_left =
     on_ok (recv 2)
       (do { object_id \<leftarrow> get_1;
             object_length \<leftarrow> get_1;
             let res_size_left = res_size_left - 2;
             if object_length > res_size_left then nm_return NMBS_ERROR_INVALID_RESPONSE
             else on_ok (recv (unat object_length))
               (do { at \<leftarrow> get_n (unat object_length); skip_objects k res_size_left }) })"

definition skip_device_identification_res :: "('p, nmbs_error) nm" where
  "skip_device_identification_res =
     on_ok recv_res_header (on_ok (recv 6)
       (do { mei_type \<leftarrow> get_1;
             if mei_type \<noteq> 0x0E then nm_return NMBS_ERROR_INVALID_RESPONSE
             else do { read_device_id_code \<leftarrow> get_1;
               if read_device_id_code < 1 \<or> read_device_id_code > 4
               then nm_return NMBS_ERROR_INVALID_RESPONSE
               else do { conformity_level \<leftarrow> get_1;
                 if conformity_level < 1 \<or> (conformity_level > 3 \<and> conformity_level < 0x81)
                   \<or> conformity_level > 0x83
                 then nm_return NMBS_ERROR_INVALID_RESPONSE
                 else do { more_follows \<leftarrow> get_1;
                   if more_follows \<noteq> 0 \<and> more_follows \<noteq> 0xFF
                   then nm_return NMBS_ERROR_INVALID_RESPONSE
                   else do { next_object_id \<leftarrow> get_1;
                     objects_count \<leftarrow> get_1;
                     on_ok (skip_objects (unat objects_count) (253 - 7)) recv_msg_footer } } } } }))"

section \<open>Requests\<close>

text \<open>The range checks: the addresses stay within 16 bits.\<close>

definition past_end :: "u16 \<Rightarrow> u16 \<Rightarrow> bool" where
  "past_end address quantity \<longleftrightarrow> (ucast address :: u32) + ucast quantity > 0xFFFF + 1"

definition read_registers :: "u8 \<Rightarrow> u16 \<Rightarrow> u16 \<Rightarrow> u16 list \<Rightarrow> ('p, nmbs_error \<times> u16 list) nm" where
  "read_registers f address quantity registers =
     (if quantity < 1 \<or> quantity > 125 then nm_return (NMBS_ERROR_INVALID_ARGUMENT, registers)
      else if past_end address quantity then nm_return (NMBS_ERROR_INVALID_ARGUMENT, registers)
      else do { msg_state_req f;
                put_req_header 4;
                put_2 address;
                put_2 quantity;
                err \<leftarrow> send_msg;
                if err \<noteq> NMBS_ERROR_NONE then nm_return (err, registers)
                else recv_read_registers_res quantity registers })"

definition nmbs_read_holding_registers :: "u16 \<Rightarrow> u16 \<Rightarrow> u16 list \<Rightarrow> ('p, nmbs_error \<times> u16 list) nm" where
  "nmbs_read_holding_registers address quantity registers_out = read_registers 3 address quantity registers_out"

definition nmbs_read_input_registers :: "u16 \<Rightarrow> u16 \<Rightarrow> u16 list \<Rightarrow> ('p, nmbs_error \<times> u16 list) nm" where
  "nmbs_read_input_registers address quantity registers_out = read_registers 4 address quantity registers_out"

definition unless_broadcast :: "('p, nmbs_error) nm \<Rightarrow> ('p, nmbs_error) nm" where
  "unless_broadcast m = do { b \<leftarrow> asks broadcast; if \<not> b then m else nm_return NMBS_ERROR_NONE }"

definition nmbs_write_single_coil :: "u16 \<Rightarrow> bool \<Rightarrow> ('p, nmbs_error) nm" where
  "nmbs_write_single_coil address on =
     do { msg_state_req 5;
          put_req_header 4;
          let value_req = (if on then 0xFF00 else 0);
          put_2 address;
          put_2 value_req;
          on_ok send_msg (unless_broadcast (recv_write_single_coil_res address value_req)) }"

definition nmbs_write_single_register :: "u16 \<Rightarrow> u16 \<Rightarrow> ('p, nmbs_error) nm" where
  "nmbs_write_single_register address v =
     do { msg_state_req 6;
          put_req_header 4;
          put_2 address;
          put_2 v;
          on_ok send_msg (unless_broadcast (recv_write_single_register_res address v)) }"

definition read_discrete :: "u8 \<Rightarrow> u16 \<Rightarrow> u16 \<Rightarrow> u8 list \<Rightarrow> ('p, nmbs_error \<times> u8 list) nm" where
  "read_discrete f address quantity values =
     (if quantity < 1 \<or> quantity > 2000 then nm_return (NMBS_ERROR_INVALID_ARGUMENT, values)
      else if past_end address quantity then nm_return (NMBS_ERROR_INVALID_ARGUMENT, values)
      else do { msg_state_req f;
                put_req_header 4;
                put_2 address;
                put_2 quantity;
                err \<leftarrow> send_msg;
                if err \<noteq> NMBS_ERROR_NONE then nm_return (err, values)
                else recv_read_discrete_res values })"

definition nmbs_read_coils :: "u16 \<Rightarrow> u16 \<Rightarrow> u8 list \<Rightarrow> ('p, nmbs_error \<times> u8 list) nm" where
  "nmbs_read_coils address quantity coils_out = read_discrete 1 address quantity coils_out"

definition nmbs_read_discrete_inputs :: "u16 \<Rightarrow> u16 \<Rightarrow> u8 list \<Rightarrow> ('p, nmbs_error \<times> u8 list) nm" where
  "nmbs_read_discrete_inputs address quantity inputs_out = read_discrete 2 address quantity inputs_out"

definition nmbs_write_multiple_coils :: "u16 \<Rightarrow> u16 \<Rightarrow> u8 list \<Rightarrow> ('p, nmbs_error) nm" where
  "nmbs_write_multiple_coils address quantity coils =
     (if quantity < 1 \<or> quantity > 0x07B0 then nm_return NMBS_ERROR_INVALID_ARGUMENT
      else if past_end address quantity then nm_return NMBS_ERROR_INVALID_ARGUMENT
      else do { let coils_bytes = (of_nat ((unat quantity + 7) div 8) :: u8);
                msg_state_req 15;
                put_req_header (5 + ucast coils_bytes);
                put_2 address;
                put_2 quantity;
                put_1 coils_bytes;
                put_1s (take (unat coils_bytes) coils);
                on_ok send_msg (unless_broadcast (recv_write_multiple_coils_res address quantity)) })"

definition nmbs_write_multiple_registers :: "u16 \<Rightarrow> u16 \<Rightarrow> u16 list \<Rightarrow> ('p, nmbs_error) nm" where
  "nmbs_write_multiple_registers address quantity registers =
     (if quantity < 1 \<or> quantity > 0x007B then nm_return NMBS_ERROR_INVALID_ARGUMENT
      else if past_end address quantity then nm_return NMBS_ERROR_INVALID_ARGUMENT
      else do { let registers_bytes = (ucast (quantity * 2) :: u8);
                msg_state_req 16;
                put_req_header (5 + ucast registers_bytes);
                put_2 address;
                put_2 quantity;
                put_1 registers_bytes;
                put_2s (take (unat quantity) registers);
                on_ok send_msg (unless_broadcast (recv_write_multiple_registers_res address quantity)) })"

definition nmbs_read_write_registers ::
  "u16 \<Rightarrow> u16 \<Rightarrow> u16 list \<Rightarrow> u16 \<Rightarrow> u16 \<Rightarrow> u16 list \<Rightarrow> ('p, nmbs_error \<times> u16 list) nm" where
  "nmbs_read_write_registers read_address read_quantity registers_out write_address write_quantity registers =
     (if read_quantity < 1 \<or> read_quantity > 0x007D
      then nm_return (NMBS_ERROR_INVALID_ARGUMENT, registers_out)
      else if past_end read_address read_quantity
      then nm_return (NMBS_ERROR_INVALID_ARGUMENT, registers_out)
      else if write_quantity < 1 \<or> write_quantity > 0x0079
      then nm_return (NMBS_ERROR_INVALID_ARGUMENT, registers_out)
      else if past_end write_address write_quantity
      then nm_return (NMBS_ERROR_INVALID_ARGUMENT, registers_out)
      else do { let registers_bytes = (ucast (write_quantity * 2) :: u8);
                msg_state_req 23;
                put_req_header (9 + ucast registers_bytes);
                put_2 read_address;
                put_2 read_quantity;
                put_2 write_address;
                put_2 write_quantity;
                put_1 registers_bytes;
                put_2s (take (unat write_quantity) registers);
                err \<leftarrow> send_msg;
                if err \<noteq> NMBS_ERROR_NONE then nm_return (err, registers_out)
                else recv_read_registers_res read_quantity registers_out })"

definition nmbs_read_file_record ::
  "u16 \<Rightarrow> u16 \<Rightarrow> u16 list \<Rightarrow> u16 \<Rightarrow> ('p, nmbs_error \<times> u16 list option) nm" where
  "nmbs_read_file_record file_number record_number registers count =
     (if file_number = 0 then nm_return (NMBS_ERROR_INVALID_ARGUMENT, Some registers)
      else if record_number > 0x270F then nm_return (NMBS_ERROR_INVALID_ARGUMENT, Some registers)
      else if count > 124 then nm_return (NMBS_ERROR_INVALID_ARGUMENT, Some registers)
      else do { msg_state_req 20;
                put_req_header 8;
                put_1 7;
                put_1 6;
                put_2 file_number;
                put_2 record_number;
                put_2 count;
                err \<leftarrow> send_msg;
                if err \<noteq> NMBS_ERROR_NONE then nm_return (err, Some registers)
                else recv_read_file_record_res (Some registers) count })"

definition nmbs_write_file_record ::
  "u16 \<Rightarrow> u16 \<Rightarrow> u16 list \<Rightarrow> u16 \<Rightarrow> ('p, nmbs_error) nm" where
  "nmbs_write_file_record file_number record_number registers count =
     (if file_number = 0 then nm_return NMBS_ERROR_INVALID_ARGUMENT
      else if record_number > 0x270F then nm_return NMBS_ERROR_INVALID_ARGUMENT
      else if count > 122 then nm_return NMBS_ERROR_INVALID_ARGUMENT
      else do { let data_size = count * 2;
                msg_state_req 21;
                put_req_header (8 + data_size);
                put_1 (ucast (7 + data_size));
                put_1 6;
                put_2 file_number;
                put_2 record_number;
                put_2 count;
                put_regs (take (unat count) registers);
                on_ok send_msg
                  (unless_broadcast (recv_write_file_record_res file_number record_number (Some registers) count)) })"

definition nmbs_send_raw_pdu :: "u8 \<Rightarrow> u8 list \<Rightarrow> ('p, nmbs_error) nm" where
  "nmbs_send_raw_pdu f data =
     do { msg_state_req f;
          put_msg_header (of_nat (length data));
          put_1s data;
          send_msg }"

definition nmbs_receive_raw_pdu_response :: "u8 \<Rightarrow> ('p, nmbs_error \<times> u8 list) nm" where
  "nmbs_receive_raw_pdu_response data_out_len =
     do { err \<leftarrow> recv_res_header;
          if err \<noteq> NMBS_ERROR_NONE then nm_return (err, [])
          else do { err \<leftarrow> recv (unat data_out_len);
            if err \<noteq> NMBS_ERROR_NONE then nm_return (err, [])
            else do { bs \<leftarrow> get_1s (unat data_out_len);
                      err \<leftarrow> recv_msg_footer;
                      nm_return (err, bs) } } }"

end
