(* ===== verification/NanoServer.thy ===== *)
theory NanoServer
  imports NanoClient
begin

text \<open>
  The server of nanomodbus.c: the user's callbacks, one handler per function code, their
  dispatch and \<open>nmbs_server_poll\<close>. A callback is a function on the user argument, or \<open>None\<close>
  where the user left it null, as the fake gripper leaves all but two.
\<close>

record 'p nmbs_callbacks =
  cb_read_coils :: "(u16 \<Rightarrow> u16 \<Rightarrow> u8 \<Rightarrow> 'p \<Rightarrow> nmbs_error \<times> u8 list \<times> 'p) option"
  cb_read_discrete_inputs :: "(u16 \<Rightarrow> u16 \<Rightarrow> u8 \<Rightarrow> 'p \<Rightarrow> nmbs_error \<times> u8 list \<times> 'p) option"
  cb_read_holding_registers :: "(u16 \<Rightarrow> u16 \<Rightarrow> u16 list \<Rightarrow> u8 \<Rightarrow> 'p \<Rightarrow> nmbs_error \<times> u16 list \<times> 'p) option"
  cb_read_input_registers :: "(u16 \<Rightarrow> u16 \<Rightarrow> u16 list \<Rightarrow> u8 \<Rightarrow> 'p \<Rightarrow> nmbs_error \<times> u16 list \<times> 'p) option"
  cb_write_single_coil :: "(u16 \<Rightarrow> bool \<Rightarrow> u8 \<Rightarrow> 'p \<Rightarrow> nmbs_error \<times> 'p) option"
  cb_write_single_register :: "(u16 \<Rightarrow> u16 \<Rightarrow> u8 \<Rightarrow> 'p \<Rightarrow> nmbs_error \<times> 'p) option"
  cb_write_multiple_coils :: "(u16 \<Rightarrow> u16 \<Rightarrow> u8 list \<Rightarrow> u8 \<Rightarrow> 'p \<Rightarrow> nmbs_error \<times> 'p) option"
  cb_write_multiple_registers :: "(u16 \<Rightarrow> u16 \<Rightarrow> u16 list \<Rightarrow> u8 \<Rightarrow> 'p \<Rightarrow> nmbs_error \<times> 'p) option"
  cb_read_file_record :: "(u16 \<Rightarrow> u16 \<Rightarrow> u16 \<Rightarrow> u8 \<Rightarrow> 'p \<Rightarrow> nmbs_error \<times> u16 list \<times> 'p) option"
  cb_write_file_record :: "(u16 \<Rightarrow> u16 \<Rightarrow> u16 list \<Rightarrow> u16 \<Rightarrow> u8 \<Rightarrow> 'p \<Rightarrow> nmbs_error \<times> 'p) option"
  cb_read_device_identification_map :: "(nmbs_error \<times> (nat \<Rightarrow> bool)) option"
  cb_read_device_identification :: "(u8 \<Rightarrow> nmbs_error \<times> u8 list) option"

definition nmbs_callbacks_create :: "'p nmbs_callbacks" where
  "nmbs_callbacks_create =
     \<lparr>cb_read_coils = None, cb_read_discrete_inputs = None, cb_read_holding_registers = None,
      cb_read_input_registers = None, cb_write_single_coil = None, cb_write_single_register = None,
      cb_write_multiple_coils = None, cb_write_multiple_registers = None,
      cb_read_file_record = None, cb_write_file_record = None,
      cb_read_device_identification_map = None, cb_read_device_identification = None\<rparr>"

section \<open>Answering\<close>

text \<open>What a handler sends for an error of its callback.\<close>

definition send_callback_error :: "nmbs_error \<Rightarrow> ('p, nmbs_error) nm" where
  "send_callback_error err =
     (if nmbs_error_is_exception err then send_exception_msg err
      else send_exception_msg NMBS_EXCEPTION_SERVER_DEVICE_FAILURE)"

text \<open>A callback applied to the unit and the user argument.\<close>

definition run_callback :: "(u8 \<Rightarrow> 'p \<Rightarrow> nmbs_error \<times> 'p) \<Rightarrow> ('p, nmbs_error) nm" where
  "run_callback cb = State (\<lambda>n. let (e, a) = cb (unit_id n) (arg n) in (e, n\<lparr>arg := a\<rparr>))"

definition run_reading_callback :: "(u8 \<Rightarrow> 'p \<Rightarrow> nmbs_error \<times> 'a \<times> 'p) \<Rightarrow> ('p, nmbs_error \<times> 'a) nm" where
  "run_reading_callback cb =
     State (\<lambda>n. let (e, v, a) = cb (unit_id n) (arg n) in ((e, v), n\<lparr>arg := a\<rparr>))"

text \<open>The answer of a write: the two fields of the request, echoed.\<close>

definition send_echo :: "u16 \<Rightarrow> u16 \<Rightarrow> ('p, nmbs_error) nm" where
  "send_echo a v = unless_broadcast (do { put_res_header 4; put_2 a; put_2 v; send_msg })"

definition send_registers :: "u16 \<Rightarrow> u16 list \<Rightarrow> ('p, nmbs_error) nm" where
  "send_registers quantity regs =
     do { let regs_bytes = (ucast (quantity * 2) :: u8);
          put_res_header (1 + ucast regs_bytes);
          put_1 regs_bytes;
          put_2s (take (unat quantity) regs);
          send_msg }"

section \<open>Handlers\<close>

definition handle_read_discrete ::
  "(u16 \<Rightarrow> u16 \<Rightarrow> u8 \<Rightarrow> 'p \<Rightarrow> nmbs_error \<times> u8 list \<times> 'p) option \<Rightarrow> ('p, nmbs_error) nm" where
  "handle_read_discrete callback =
     on_ok (recv 4)
       (do { address \<leftarrow> get_2;
             quantity \<leftarrow> get_2;
             on_ok recv_msg_footer
               (do { ign \<leftarrow> asks ignored;
                     if ign then do { (err, vs) \<leftarrow> recv_read_discrete_res []; nm_return err }
                     else if quantity < 1 \<or> quantity > 2000
                     then send_exception_msg NMBS_EXCEPTION_ILLEGAL_DATA_VALUE
                     else if past_end address quantity
                     then send_exception_msg NMBS_EXCEPTION_ILLEGAL_DATA_ADDRESS
                     else (case callback of
                         None \<Rightarrow> send_exception_msg NMBS_EXCEPTION_ILLEGAL_FUNCTION
                       | Some cb \<Rightarrow>
                           do { (err, bitfield) \<leftarrow> run_reading_callback (cb address quantity);
                                if err \<noteq> NMBS_ERROR_NONE then send_callback_error err
                                else unless_broadcast
                                  (do { let discrete_bytes = (of_nat ((unat quantity + 7) div 8) :: u8);
                                        put_res_header (1 + ucast discrete_bytes);
                                        put_1 discrete_bytes;
                                        put_1s (take (unat discrete_bytes) bitfield);
                                        send_msg }) }) }) })"

definition handle_read_registers ::
  "(u16 \<Rightarrow> u16 \<Rightarrow> u16 list \<Rightarrow> u8 \<Rightarrow> 'p \<Rightarrow> nmbs_error \<times> u16 list \<times> 'p) option \<Rightarrow> ('p, nmbs_error) nm" where
  "handle_read_registers callback =
     on_ok (recv 4)
       (do { address \<leftarrow> get_2;
             quantity \<leftarrow> get_2;
             on_ok recv_msg_footer
               (do { ign \<leftarrow> asks ignored;
                     if ign then do { (err, rs) \<leftarrow> recv_read_registers_res quantity []; nm_return err }
                     else if quantity < 1 \<or> quantity > 125
                     then send_exception_msg NMBS_EXCEPTION_ILLEGAL_DATA_VALUE
                     else if past_end address quantity
                     then send_exception_msg NMBS_EXCEPTION_ILLEGAL_DATA_ADDRESS
                     else (case callback of
                         None \<Rightarrow> send_exception_msg NMBS_EXCEPTION_ILLEGAL_FUNCTION
                       | Some cb \<Rightarrow>
                           do { (err, regs) \<leftarrow> run_reading_callback (cb address quantity (replicate 125 0));
                                if err \<noteq> NMBS_ERROR_NONE then send_callback_error err
                                else unless_broadcast (send_registers quantity regs) }) }) })"

definition handle_write_single_coil ::
  "(u16 \<Rightarrow> bool \<Rightarrow> u8 \<Rightarrow> 'p \<Rightarrow> nmbs_error \<times> 'p) option \<Rightarrow> ('p, nmbs_error) nm" where
  "handle_write_single_coil callback =
     on_ok (recv 4)
       (do { address \<leftarrow> get_2;
             v \<leftarrow> get_2;
             on_ok recv_msg_footer
               (do { ign \<leftarrow> asks ignored;
                     if ign then recv_write_single_coil_res address v
                     else (case callback of
                         None \<Rightarrow> send_exception_msg NMBS_EXCEPTION_ILLEGAL_FUNCTION
                       | Some cb \<Rightarrow>
                           if v \<noteq> 0 \<and> v \<noteq> 0xFF00
                           then send_exception_msg NMBS_EXCEPTION_ILLEGAL_DATA_VALUE
                           else do { err \<leftarrow> run_callback (cb address (v \<noteq> 0));
                                     if err \<noteq> NMBS_ERROR_NONE then send_callback_error err
                                     else send_echo address v }) }) })"

definition handle_write_single_register ::
  "(u16 \<Rightarrow> u16 \<Rightarrow> u8 \<Rightarrow> 'p \<Rightarrow> nmbs_error \<times> 'p) option \<Rightarrow> ('p, nmbs_error) nm" where
  "handle_write_single_register callback =
     on_ok (recv 4)
       (do { address \<leftarrow> get_2;
             v \<leftarrow> get_2;
             on_ok recv_msg_footer
               (do { ign \<leftarrow> asks ignored;
                     if ign then recv_write_single_register_res address v
                     else (case callback of
                         None \<Rightarrow> send_exception_msg NMBS_EXCEPTION_ILLEGAL_FUNCTION
                       | Some cb \<Rightarrow>
                           do { err \<leftarrow> run_callback (cb address v);
                                if err \<noteq> NMBS_ERROR_NONE then send_callback_error err
                                else send_echo address v }) }) })"

definition handle_write_multiple_coils ::
  "(u16 \<Rightarrow> u16 \<Rightarrow> u8 list \<Rightarrow> u8 \<Rightarrow> 'p \<Rightarrow> nmbs_error \<times> 'p) option \<Rightarrow> ('p, nmbs_error) nm" where
  "handle_write_multiple_coils callback =
     on_ok (recv 5)
       (do { address \<leftarrow> get_2;
             quantity \<leftarrow> get_2;
             coils_bytes \<leftarrow> get_1;
             if coils_bytes > 246 then nm_return NMBS_ERROR_INVALID_REQUEST
             else on_ok (recv (unat coils_bytes))
               (do { bs \<leftarrow> get_1s (unat coils_bytes);
                     let coils = bs @ replicate (NMBS_BITFIELD_BYTES_MAX - length bs) 0;
                     on_ok recv_msg_footer
                       (do { ign \<leftarrow> asks ignored;
                             if ign then recv_write_multiple_coils_res address quantity
                             else if quantity < 1 \<or> quantity > 0x07B0
                             then send_exception_msg NMBS_EXCEPTION_ILLEGAL_DATA_VALUE
                             else if past_end address quantity
                             then send_exception_msg NMBS_EXCEPTION_ILLEGAL_DATA_ADDRESS
                             else if coils_bytes = 0
                             then send_exception_msg NMBS_EXCEPTION_ILLEGAL_DATA_VALUE
                             else if (unat quantity + 7) div 8 \<noteq> unat coils_bytes
                             then send_exception_msg NMBS_EXCEPTION_ILLEGAL_DATA_VALUE
                             else (case callback of
                                 None \<Rightarrow> send_exception_msg NMBS_EXCEPTION_ILLEGAL_FUNCTION
                               | Some cb \<Rightarrow>
                                   do { err \<leftarrow> run_callback (cb address quantity coils);
                                        if err \<noteq> NMBS_ERROR_NONE then send_callback_error err
                                        else send_echo address quantity }) }) }) })"

text \<open>Here the bytes are received before their count is checked.\<close>

definition handle_write_multiple_registers ::
  "(u16 \<Rightarrow> u16 \<Rightarrow> u16 list \<Rightarrow> u8 \<Rightarrow> 'p \<Rightarrow> nmbs_error \<times> 'p) option \<Rightarrow> ('p, nmbs_error) nm" where
  "handle_write_multiple_registers callback =
     on_ok (recv 5)
       (do { address \<leftarrow> get_2;
             quantity \<leftarrow> get_2;
             registers_bytes \<leftarrow> get_1;
             on_ok (recv (unat registers_bytes))
               (if registers_bytes > 246 then nm_return NMBS_ERROR_INVALID_REQUEST
                else do { registers \<leftarrow> get_2s (unat registers_bytes div 2);
                     on_ok recv_msg_footer
                       (do { ign \<leftarrow> asks ignored;
                             if ign then recv_write_multiple_registers_res address quantity
                             else if quantity < 1 \<or> quantity > 0x007B
                             then send_exception_msg NMBS_EXCEPTION_ILLEGAL_DATA_VALUE
                             else if past_end address quantity
                             then send_exception_msg NMBS_EXCEPTION_ILLEGAL_DATA_ADDRESS
                             else if registers_bytes = 0
                             then send_exception_msg NMBS_EXCEPTION_ILLEGAL_DATA_VALUE
                             else if unat registers_bytes \<noteq> unat quantity * 2
                             then send_exception_msg NMBS_EXCEPTION_ILLEGAL_DATA_VALUE
                             else (case callback of
                                 None \<Rightarrow> send_exception_msg NMBS_EXCEPTION_ILLEGAL_FUNCTION
                               | Some cb \<Rightarrow>
                                   do { err \<leftarrow> run_callback (cb address quantity registers);
                                        if err \<noteq> NMBS_ERROR_NONE then send_callback_error err
                                        else send_echo address quantity }) }) }) })"

definition handle_read_write_registers :: "'p nmbs_callbacks \<Rightarrow> ('p, nmbs_error) nm" where
  "handle_read_write_registers cbs =
     on_ok (recv 9)
       (do { read_address \<leftarrow> get_2;
             read_quantity \<leftarrow> get_2;
             write_address \<leftarrow> get_2;
             write_quantity \<leftarrow> get_2;
             byte_count_write \<leftarrow> get_1;
             if byte_count_write > 242 then nm_return NMBS_ERROR_INVALID_REQUEST
             else on_ok (recv (unat byte_count_write))
               (do { registers \<leftarrow> get_2s (unat byte_count_write div 2);
                     on_ok recv_msg_footer
                       (do { ign \<leftarrow> asks ignored;
                             if ign then recv_write_multiple_registers_res write_address write_quantity
                             else if read_quantity < 1 \<or> read_quantity > 0x007D
                             then send_exception_msg NMBS_EXCEPTION_ILLEGAL_DATA_VALUE
                             else if write_quantity < 1 \<or> write_quantity > 0x007B
                             then send_exception_msg NMBS_EXCEPTION_ILLEGAL_DATA_VALUE
                             else if unat byte_count_write \<noteq> unat write_quantity * 2
                             then send_exception_msg NMBS_EXCEPTION_ILLEGAL_DATA_VALUE
                             else if past_end read_address read_quantity
                             then send_exception_msg NMBS_EXCEPTION_ILLEGAL_DATA_ADDRESS
                             else if past_end write_address write_quantity
                             then send_exception_msg NMBS_EXCEPTION_ILLEGAL_DATA_ADDRESS
                             else (case (cb_write_multiple_registers cbs, cb_read_holding_registers cbs) of
                                 (Some cbw, Some cbr) \<Rightarrow>
                                   do { err \<leftarrow> run_callback (cbw write_address write_quantity registers);
                                        if err \<noteq> NMBS_ERROR_NONE then send_callback_error err
                                        else unless_broadcast
                                          (do { (err, regs) \<leftarrow> run_reading_callback
                                                  (cbr read_address read_quantity (replicate (unat read_quantity) 0));
                                                if err \<noteq> NMBS_ERROR_NONE then send_callback_error err
                                                else send_registers read_quantity regs }) }
                               | _ \<Rightarrow> send_exception_msg NMBS_EXCEPTION_ILLEGAL_FUNCTION) }) }) })"

text \<open>File records: reference type, file number, record number and length of a sub-request.\<close>

fun get_subreqs :: "nat \<Rightarrow> ('p, (u8 \<times> u16 \<times> u16 \<times> u16) list) nm" where
  "get_subreqs 0 = nm_return []"
| "get_subreqs (Suc k) =
     do { t \<leftarrow> get_1; f \<leftarrow> get_2; r \<leftarrow> get_2; l \<leftarrow> get_2; rest \<leftarrow> get_subreqs k; nm_return ((t, f, r, l) # rest) }"

definition subreq_refused :: "nat \<Rightarrow> u8 \<times> u16 \<times> u16 \<times> u16 \<Rightarrow> bool" where
  "subreq_refused longest_record = (\<lambda>(t, f, r, l).
     t \<noteq> 6 \<or> f = 0 \<or> r > 0x270F \<or> unat l > longest_record)"

fun read_file_loop ::
  "(u16 \<Rightarrow> u16 \<Rightarrow> u16 \<Rightarrow> u8 \<Rightarrow> 'p \<Rightarrow> nmbs_error \<times> u16 list \<times> 'p) \<Rightarrow> (u8 \<times> u16 \<times> u16 \<times> u16) list
     \<Rightarrow> ('p, nmbs_error) nm \<Rightarrow> ('p, nmbs_error) nm" where
  "read_file_loop cb [] k = k"
| "read_file_loop cb ((t, f, r, l) # rest) k =
     do { put_1 (ucast (l * 2 + 1));
          put_1 6;
          at \<leftarrow> get_n (unat (l * 2));
          (err, regs) \<leftarrow> run_reading_callback (cb f r l);
          modify (store_at at (native_bytes (take (unat l) regs)));
          if err \<noteq> NMBS_ERROR_NONE then send_callback_error err
          else do { swap_regs at (unat l); read_file_loop cb rest k } }"

definition handle_read_file_record ::
  "(u16 \<Rightarrow> u16 \<Rightarrow> u16 \<Rightarrow> u8 \<Rightarrow> 'p \<Rightarrow> nmbs_error \<times> u16 list \<times> 'p) option \<Rightarrow> ('p, nmbs_error) nm" where
  "handle_read_file_record callback =
     on_ok (recv 1)
       (do { request_size \<leftarrow> get_1;
             if request_size > 245 then nm_return NMBS_ERROR_INVALID_REQUEST
             else on_ok (recv (unat request_size))
               (do { subreq \<leftarrow> get_subreqs (unat request_size div 7);
                     let response_data_size = foldl (\<lambda>s (t, f, r, l). s + (2 + ucast (l * 2))) (0 :: u8) subreq;
                     discard_n (unat request_size mod 7);
                     on_ok recv_msg_footer
                       (do { ign \<leftarrow> asks ignored;
                             if ign then do { (err, rs) \<leftarrow> recv_read_file_record_res None 0; nm_return err }
                             else if unat request_size mod 7 \<noteq> 0
                             then send_exception_msg NMBS_EXCEPTION_ILLEGAL_DATA_VALUE
                             else if request_size < 0x07 \<or> request_size > 0xF5
                             then send_exception_msg NMBS_EXCEPTION_ILLEGAL_DATA_VALUE
                             else if list_ex (subreq_refused 124) subreq
                             then send_exception_msg NMBS_EXCEPTION_ILLEGAL_DATA_ADDRESS
                             else do { put_res_header (1 + ucast response_data_size);
                                       put_1 response_data_size;
                                       (case callback of
                                          None \<Rightarrow> send_exception_msg NMBS_EXCEPTION_ILLEGAL_FUNCTION
                                        | Some cb \<Rightarrow> read_file_loop cb subreq (unless_broadcast send_msg)) } }) }) })"

text \<open>
  The two passes of a file write, over the bytes of the request. Each turn of a loop moves at
  least seven bytes on, and the first byte past the buffer reads as zero and is refused, so the
  fuel, the buffer's size, is never used up; the size left is the 16-bit number of the code.
\<close>

fun check_file_loop :: "nat \<Rightarrow> u16 \<Rightarrow> ('p, nmbs_error + u16) nm" where
  "check_file_loop 0 sz = nm_return (Inl NMBS_EXCEPTION_ILLEGAL_DATA_ADDRESS)"
| "check_file_loop (Suc k) sz =
     do { t \<leftarrow> get_1;
          f \<leftarrow> get_2;
          r \<leftarrow> get_2;
          l \<leftarrow> get_2;
          discard_n (unat l * 2);
          if subreq_refused 122 (t, f, r, l) then nm_return (Inl NMBS_EXCEPTION_ILLEGAL_DATA_ADDRESS)
          else do { let sz = sz - (7 + l * 2);
                    if sz \<ge> 7 then check_file_loop k sz else nm_return (Inr sz) } }"

fun write_file_loop ::
  "nat \<Rightarrow> (u16 \<Rightarrow> u16 \<Rightarrow> u16 list \<Rightarrow> u16 \<Rightarrow> u8 \<Rightarrow> 'p \<Rightarrow> nmbs_error \<times> 'p) option \<Rightarrow> u16
     \<Rightarrow> ('p, nmbs_error) nm \<Rightarrow> ('p, nmbs_error) nm" where
  "write_file_loop 0 callback sz k = k"
| "write_file_loop (Suc fuel) callback sz k =
     do { discard_1;
          f \<leftarrow> get_2;
          r \<leftarrow> get_2;
          l \<leftarrow> get_2;
          at \<leftarrow> get_regs (unat l);
          (case callback of
             None \<Rightarrow> send_exception_msg NMBS_EXCEPTION_ILLEGAL_FUNCTION
           | Some cb \<Rightarrow>
               do { data \<leftarrow> asks (bytes_at at (2 * unat l));
                    err \<leftarrow> run_callback (cb f r (native_regs data) l);
                    if err \<noteq> NMBS_ERROR_NONE then send_callback_error err
                    else do { swap_regs at (unat l);
                              let sz = sz - (7 + l * 2);
                              if sz \<ge> 7 then write_file_loop fuel callback sz k else k } }) }"

definition handle_write_file_record ::
  "(u16 \<Rightarrow> u16 \<Rightarrow> u16 list \<Rightarrow> u16 \<Rightarrow> u8 \<Rightarrow> 'p \<Rightarrow> nmbs_error \<times> 'p) option \<Rightarrow> ('p, nmbs_error) nm" where
  "handle_write_file_record callback =
     on_ok (recv 1)
       (do { request_size \<leftarrow> get_1;
             if request_size > 251 then nm_return NMBS_ERROR_INVALID_REQUEST
             else on_ok (recv (unat request_size))
               (do { msg_buf_idx \<leftarrow> asks buf_idx;
                     discard_n (unat request_size);
                     on_ok recv_msg_footer
                       (do { ign \<leftarrow> asks ignored;
                             if ign then recv_write_file_record_res 0 0 None 0
                             else do { modify (\<lambda>n. n\<lparr>buf_idx := msg_buf_idx\<rparr>);
                               if request_size < 7
                               then send_exception_msg NMBS_EXCEPTION_ILLEGAL_DATA_VALUE
                               else do { checked \<leftarrow> check_file_loop kBufSize (ucast request_size);
                                 (case checked of
                                    Inl e \<Rightarrow> send_exception_msg e
                                  | Inr left \<Rightarrow>
                                      if left \<noteq> 0 then send_exception_msg NMBS_EXCEPTION_ILLEGAL_DATA_VALUE
                                      else do { modify (\<lambda>n. n\<lparr>buf_idx := msg_buf_idx\<rparr>);
                                        write_file_loop kBufSize callback (ucast request_size)
                                          (unless_broadcast
                                             (do { modify (\<lambda>n. n\<lparr>buf_idx := msg_buf_idx\<rparr>);
                                                   discard_n (unat request_size);
                                                   send_msg })) }) } } }) }) })"

text \<open>Device identification: \<open>set_1\<close> patches a byte, \<open>set_msg_header_size\<close> the length on TCP.\<close>

definition set_1 :: "u8 \<Rightarrow> nat \<Rightarrow> ('p, unit) nm" where
  "set_1 d i = modify (store_at i [d])"

definition set_2 :: "u16 \<Rightarrow> nat \<Rightarrow> ('p, unit) nm" where
  "set_2 d i = modify (store_at i [high8 d, low8 d])"

definition set_msg_header_size :: "u16 \<Rightarrow> ('p, unit) nm" where
  "set_msg_header_size data_length =
     do { t \<leftarrow> asks (\<lambda>n. transport (platform n));
          if t = NMBS_TRANSPORT_TCP then set_2 (data_length + 2) 4 else nm_return () }"

text \<open>The objects from \<open>i\<close> on, \<open>k\<close> of them: an error of the callback or a missing mandatory object,
  or what the loop leaves: more follows, the next object, the objects put, the message size.\<close>

fun put_objects ::
  "(nat \<Rightarrow> bool) \<Rightarrow> (u8 \<Rightarrow> nmbs_error \<times> u8 list) \<Rightarrow> nat \<Rightarrow> nat \<Rightarrow> int \<Rightarrow> u8 \<Rightarrow> u8
     \<Rightarrow> ('p, nmbs_error + u8 \<times> u8 \<times> u8 \<times> u8) nm" where
  "put_objects map_bits cb i 0 res_size_left count msg_size = nm_return (Inr (0, 0, count, msg_size))"
| "put_objects map_bits cb i (Suc k) res_size_left count msg_size =
     (if \<not> map_bits i
      then (if i < 3 then nm_return (Inl NMBS_EXCEPTION_SERVER_DEVICE_FAILURE)
            else put_objects map_bits cb (i + 1) k res_size_left count msg_size)
      else (case cb (of_nat i) of (err, str) \<Rightarrow>
        if err \<noteq> NMBS_ERROR_NONE then nm_return (Inl err)
        else let left = res_size_left - 2 - int (length str)
             in if left < 0 then nm_return (Inr (0xFF, of_nat i, count, msg_size))
                else do { put_1 (of_nat i);
                          put_1 (of_nat (length str));
                          put_1s str;
                          put_objects map_bits cb (i + 1) k left (count + 1)
                            (msg_size + (2 + of_nat (length str))) }))"

definition handle_read_device_identification :: "'p nmbs_callbacks \<Rightarrow> ('p, nmbs_error) nm" where
  "handle_read_device_identification cbs =
     on_ok (recv 3)
       (do { mei_type \<leftarrow> get_1;
             read_device_id_code \<leftarrow> get_1;
             object_id \<leftarrow> get_1;
             on_ok recv_msg_footer
               (do { ign \<leftarrow> asks ignored;
                     b \<leftarrow> asks broadcast;
                     if ign then skip_device_identification_res
                     else (case (cb_read_device_identification_map cbs, cb_read_device_identification cbs) of
                       (Some (map_err, map_bits), Some cb) \<Rightarrow>
                         if mei_type \<noteq> 0x0E then send_exception_msg NMBS_EXCEPTION_ILLEGAL_FUNCTION
                         else if read_device_id_code < 1 \<or> read_device_id_code > 4
                         then send_exception_msg NMBS_EXCEPTION_ILLEGAL_DATA_VALUE
                         else if object_id > 6 \<and> object_id < 0x80
                         then send_exception_msg NMBS_EXCEPTION_ILLEGAL_DATA_ADDRESS
                         else if b then nm_return NMBS_ERROR_NONE
                         else if map_err \<noteq> NMBS_ERROR_NONE then send_callback_error map_err
                         else do { put_res_header 0;
                           put_1 0x0E;
                           put_1 read_device_id_code;
                           put_1 0x83;
                           if read_device_id_code = 4
                           then (if \<not> map_bits (unat object_id)
                                 then send_exception_msg NMBS_EXCEPTION_ILLEGAL_DATA_ADDRESS
                                 else do { put_1 0;
                                           put_1 0;
                                           put_1 1;
                                           (case cb object_id of (err, str) \<Rightarrow>
                                              if err \<noteq> NMBS_ERROR_NONE then send_callback_error err
                                              else do { put_1 object_id;
                                                        put_1 (of_nat (length str));
                                                        put_1s str;
                                                        set_msg_header_size (6 + 2 + of_nat (length str));
                                                        send_msg }) })
                           else do { more_follows_idx \<leftarrow> asks buf_idx;
                             put_1 0;
                             put_1 0;
                             put_1 0;
                             if (read_device_id_code = 1 \<and> object_id > 2)
                               \<or> (read_device_id_code = 2 \<and> (object_id < 3 \<or> object_id > 6))
                               \<or> (read_device_id_code = 3 \<and> object_id < 0x80)
                             then send_exception_msg NMBS_EXCEPTION_ILLEGAL_DATA_ADDRESS
                             else do { let last_id = (if read_device_id_code = 1 then 2
                                                      else if read_device_id_code = 2 then 6 else (0xFF :: nat));
                               res \<leftarrow> put_objects map_bits cb (unat object_id) (last_id + 1 - unat object_id)
                                        (253 - 7) 0 6;
                               (case res of
                                  Inl err \<Rightarrow> send_callback_error err
                                | Inr (more_follows, next_object_id, number_of_objects, msg_size) \<Rightarrow>
                                    do { set_1 more_follows more_follows_idx;
                                         set_1 next_object_id (more_follows_idx + 1);
                                         set_1 number_of_objects (more_follows_idx + 2);
                                         set_msg_header_size (ucast msg_size);
                                         send_msg }) } } }
                     | _ \<Rightarrow> send_exception_msg NMBS_EXCEPTION_ILLEGAL_FUNCTION) }) })"

section \<open>Dispatch\<close>

definition handle_req_fc ::
  "'p nmbs_callbacks \<Rightarrow> ('p, nmbs_error) nm" where
  "handle_req_fc cbs =
     do { f \<leftarrow> asks fc;
          if f = 1 then handle_read_discrete (cb_read_coils cbs)
          else if f = 2 then handle_read_discrete (cb_read_discrete_inputs cbs)
          else if f = 3 then handle_read_registers (cb_read_holding_registers cbs)
          else if f = 4 then handle_read_registers (cb_read_input_registers cbs)
          else if f = 5 then handle_write_single_coil (cb_write_single_coil cbs)
          else if f = 6 then handle_write_single_register (cb_write_single_register cbs)
          else if f = 15 then handle_write_multiple_coils (cb_write_multiple_coils cbs)
          else if f = 16 then handle_write_multiple_registers (cb_write_multiple_registers cbs)
          else if f = 23 then handle_read_write_registers cbs
          else if f = 20 then handle_read_file_record (cb_read_file_record cbs)
          else if f = 21 then handle_write_file_record (cb_write_file_record cbs)
          else if f = 43 then handle_read_device_identification cbs
          else do { flush;
                    ign \<leftarrow> asks ignored;
                    if \<not> ign then send_exception_msg NMBS_EXCEPTION_ILLEGAL_FUNCTION
                    else nm_return NMBS_ERROR_NONE } }"

definition nmbs_server_poll ::
  "'p nmbs_callbacks \<Rightarrow> ('p, nmbs_error) nm" where
  "nmbs_server_poll cbs =
     do { msg_state_reset;
          (err, first_byte_received) \<leftarrow> recv_req_header;
          if err \<noteq> NMBS_ERROR_NONE
          then nm_return (if \<not> first_byte_received \<and> err = NMBS_ERROR_TIMEOUT then NMBS_ERROR_NONE else err)
          else do { err \<leftarrow> handle_req_fc cbs;
                    if err \<noteq> NMBS_ERROR_NONE
                    then do { (if err \<noteq> NMBS_ERROR_TIMEOUT then flush else nm_return ()); nm_return err }
                    else nm_return NMBS_ERROR_NONE } }"

text \<open>\<open>None\<close> is \<open>NMBS_ERROR_INVALID_ARGUMENT\<close>: on RTU the broadcast address is no server's.\<close>

definition nmbs_server_create :: "u8 \<Rightarrow> 'p platform_conf \<Rightarrow> 'p \<Rightarrow> 'p nmbs_t option" where
  "nmbs_server_create address conf a =
     (if transport conf = NMBS_TRANSPORT_RTU \<and> address = 0 then None
      else Some ((nmbs_create conf a)\<lparr>address_rtu := address\<rparr>))"

end
