(* ===== verification/NanoSafety.thy ===== *)
theory NanoSafety
  imports NanoServer
begin

text \<open>
  Memory safety of nanomodbus.c on RTU: what a computation does to the message buffer. A
  triple \<open>nm_spec P m Q\<close> says what holds after \<open>m\<close>; \<open>reach conf k\<close> says that the buffer is intact
  and the index at most \<open>k\<close>. The locale \<open>polite_port\<close> states what the platform functions owe the
  library: never more bytes than were asked for.
\<close>

definition nm_spec :: "('p nmbs_t \<Rightarrow> bool) \<Rightarrow> ('p, 'a) nm \<Rightarrow> ('a \<Rightarrow> 'p nmbs_t \<Rightarrow> bool) \<Rightarrow> bool" where
  "nm_spec P m Q \<longleftrightarrow> (\<forall>n. P n \<longrightarrow> (case run_state m n of (r, n') \<Rightarrow> Q r n'))"

lemma nm_specI: "(\<And>n r n'. P n \<Longrightarrow> run_state m n = (r, n') \<Longrightarrow> Q r n') \<Longrightarrow> nm_spec P m Q"
  by (auto simp: nm_spec_def split_beta)

lemma nm_specD: "nm_spec P m Q \<Longrightarrow> P n \<Longrightarrow> run_state m n = (r, n') \<Longrightarrow> Q r n'"
  by (auto simp: nm_spec_def)

lemma nm_spec_bind:
  assumes "nm_spec P m R" and "\<And>x. nm_spec (R x) (f x) Q"
  shows "nm_spec P (m \<bind> f) Q"
  using assms by (fastforce simp: nm_spec_def split: prod.splits)

lemma nm_spec_weaken:
  "nm_spec P m Q \<Longrightarrow> (\<And>n. P' n \<Longrightarrow> P n) \<Longrightarrow> (\<And>r n. Q r n \<Longrightarrow> Q' r n) \<Longrightarrow> nm_spec P' m Q'"
  by (auto simp: nm_spec_def split_beta)

lemma run_asks [simp]: "run_state (asks f) n = (f n, n)" by (simp add: asks_def)
lemma run_modify [simp]: "run_state (modify f) n = ((), f n)" by (simp add: modify_def)

section \<open>What a computation reaches\<close>

definition reach :: "'p platform_conf \<Rightarrow> nat \<Rightarrow> 'p nmbs_t \<Rightarrow> bool" where
  "reach conf k n \<longleftrightarrow>
     platform n = conf \<and> length (buf n) = kBufSize \<and> \<not> oob n \<and> buf_idx n \<le> k"

definition intact :: "'p platform_conf \<Rightarrow> 'p nmbs_t \<Rightarrow> bool" where
  "intact conf n \<longleftrightarrow> platform n = conf \<and> length (buf n) = kBufSize \<and> \<not> oob n"

text \<open>\<open>moves\<close>: from an index of at most \<open>k\<close> to one of at most \<open>j\<close>; \<open>safe\<close>: no access out of bounds.\<close>

definition moves :: "'p platform_conf \<Rightarrow> nat \<Rightarrow> ('p, 'a) nm \<Rightarrow> nat \<Rightarrow> bool" where
  "moves conf k m j \<longleftrightarrow> nm_spec (reach conf k) m (\<lambda>_. reach conf j)"

definition safe :: "'p platform_conf \<Rightarrow> nat \<Rightarrow> ('p, 'a) nm \<Rightarrow> bool" where
  "safe conf k m \<longleftrightarrow> nm_spec (reach conf k) m (\<lambda>_. intact conf)"

lemma moves_safe: "moves conf k m j \<Longrightarrow> safe conf k m"
  unfolding moves_def safe_def by (erule nm_spec_weaken) (auto simp: reach_def intact_def)

lemma moves_le: "moves conf k m j \<Longrightarrow> j \<le> j' \<Longrightarrow> moves conf k m j'"
  unfolding moves_def by (erule nm_spec_weaken) (auto simp: reach_def)

named_theorems moves_rules "how far a computation moves the index"
named_theorems safe_rules "when a computation stays within the buffer"

lemma safe_return [safe_rules]: "safe conf k (nm_return x)"
  by (auto simp: safe_def nm_spec_def reach_def intact_def)

lemma moves_return [moves_rules]: "k \<le> j \<Longrightarrow> moves conf k (nm_return x) j"
  by (auto simp: moves_def nm_spec_def reach_def)

lemma safe_bind [safe_rules]: "moves conf k m j \<Longrightarrow> (\<And>x. safe conf j (f x)) \<Longrightarrow> safe conf k (m \<bind> f)"
  unfolding moves_def safe_def by (rule nm_spec_bind)

lemma moves_bind [moves_rules]:
  "moves conf k m i \<Longrightarrow> (\<And>x. moves conf i (f x) j) \<Longrightarrow> moves conf k (m \<bind> f) j"
  unfolding moves_def by (rule nm_spec_bind)

lemma safe_if [safe_rules]:
  "(c \<Longrightarrow> safe conf k a) \<Longrightarrow> (\<not> c \<Longrightarrow> safe conf k b) \<Longrightarrow> safe conf k (if c then a else b)"
  by simp

lemma moves_if [moves_rules]:
  "(c \<Longrightarrow> moves conf k a j) \<Longrightarrow> (\<not> c \<Longrightarrow> moves conf k b j) \<Longrightarrow> moves conf k (if c then a else b) j"
  by simp

lemma safe_option [safe_rules]:
  "(x = None \<Longrightarrow> safe conf k a) \<Longrightarrow> (\<And>v. x = Some v \<Longrightarrow> safe conf k (b v)) \<Longrightarrow>
     safe conf k (case x of None \<Rightarrow> a | Some v \<Rightarrow> b v)"
  by (cases x) simp_all

lemma safe_prod [safe_rules]: "(\<And>a b. safe conf k (f a b)) \<Longrightarrow> safe conf k (case p of (a, b) \<Rightarrow> f a b)"
  by (cases p) simp

lemma moves_prod [moves_rules]:
  "(\<And>a b. moves conf k (f a b) j) \<Longrightarrow> moves conf k (case p of (a, b) \<Rightarrow> f a b) j"
  by (cases p) simp

lemma safe_on_ok [safe_rules]: "moves conf k m j \<Longrightarrow> safe conf j r \<Longrightarrow> safe conf k (on_ok m r)"
  unfolding on_ok_def by (intro safe_rules)

lemma moves_on_ok [moves_rules]:
  "moves conf k m i \<Longrightarrow> i \<le> j \<Longrightarrow> moves conf i r j \<Longrightarrow> moves conf k (on_ok m r) j"
  unfolding on_ok_def by (intro moves_rules) auto

lemma moves_asks [moves_rules]: "moves conf k (asks f) k"
  by (simp add: moves_def nm_spec_def)

lemma moves_modify:
  "(\<And>n. reach conf k n \<Longrightarrow> reach conf j (f n)) \<Longrightarrow> moves conf k (modify f) j"
  by (simp add: moves_def nm_spec_def)

lemma moves_get_1 [moves_rules]: "k + 1 \<le> kBufSize \<Longrightarrow> moves conf k get_1 (k + 1)"
  by (auto simp: moves_def nm_spec_def get_1_def touch_def reach_def)

lemma moves_get_2 [moves_rules]: "k + 2 \<le> kBufSize \<Longrightarrow> moves conf k get_2 (k + 2)"
  by (auto simp: moves_def nm_spec_def get_2_def touch_def reach_def)

lemma reach_store:
  "reach conf k n \<Longrightarrow> i + length bs \<le> kBufSize \<Longrightarrow> reach conf k (store_at i bs n)"
  by (auto simp: reach_def store_at_def touch_def)

lemma moves_put_1 [moves_rules]: "k + 1 \<le> kBufSize \<Longrightarrow> moves conf k (put_1 d) (k + 1)"
  unfolding put_1_def by (rule moves_modify) (auto simp: reach_def store_at_def touch_def)

lemma moves_put_2 [moves_rules]: "k + 2 \<le> kBufSize \<Longrightarrow> moves conf k (put_2 d) (k + 2)"
  unfolding put_2_def by (rule moves_modify) (auto simp: reach_def store_at_def touch_def)

lemma moves_get_1s [moves_rules]: "k + c \<le> kBufSize \<Longrightarrow> moves conf k (get_1s c) (k + c)"
proof (induction c arbitrary: k)
  case (Suc c)
  then have "moves conf (k + 1) (get_1s c) (k + 1 + c)" by (intro Suc.IH) simp
  with Suc.prems show ?case by (auto intro!: moves_rules)
qed (simp add: moves_return)

lemma moves_get_2s [moves_rules]: "k + 2 * c \<le> kBufSize \<Longrightarrow> moves conf k (get_2s c) (k + 2 * c)"
proof (induction c arbitrary: k)
  case (Suc c)
  then have "moves conf (k + 2) (get_2s c) (k + 2 + 2 * c)" by (intro Suc.IH) simp
  with Suc.prems show ?case by (auto intro!: moves_rules)
qed (simp add: moves_return)

lemma moves_put_1s [moves_rules]: "k + length bs \<le> kBufSize \<Longrightarrow> moves conf k (put_1s bs) (k + length bs)"
proof (induction bs arbitrary: k)
  case (Cons b bs)
  then have "moves conf (k + 1) (put_1s bs) (k + 1 + length bs)" by (intro Cons.IH) simp
  with Cons.prems show ?case by (auto intro!: moves_rules)
qed (simp add: moves_return)

lemma moves_put_2s [moves_rules]:
  "k + 2 * length rs \<le> kBufSize \<Longrightarrow> moves conf k (put_2s rs) (k + 2 * length rs)"
proof (induction rs arbitrary: k)
  case (Cons r rs)
  then have "moves conf (k + 2) (put_2s rs) (k + 2 + 2 * length rs)" by (intro Cons.IH) simp
  with Cons.prems show ?case by (auto intro!: moves_rules)
qed (simp add: moves_return)

lemma moves_put_1s_take: "k + c \<le> kBufSize \<Longrightarrow> moves conf k (put_1s (take c bs)) (k + c)"
  by (rule moves_le [OF moves_put_1s]) auto

lemma moves_put_2s_take: "k + 2 * c \<le> kBufSize \<Longrightarrow> moves conf k (put_2s (take c rs)) (k + 2 * c)"
  by (rule moves_le [OF moves_put_2s]) auto

lemma moves_send [moves_rules]: "moves conf k (send i) k" if "i \<le> kBufSize"
  using that by (auto simp: moves_def nm_spec_def send_def reach_def touch_def Let_def split: prod.splits)

lemma moves_run_callback [moves_rules]: "moves conf k (run_callback cb) k"
  by (auto simp: moves_def nm_spec_def run_callback_def reach_def split: prod.splits)

lemma moves_run_reading [moves_rules]: "moves conf k (run_reading_callback cb) k"
  by (auto simp: moves_def nm_spec_def run_reading_callback_def reach_def split: prod.splits)

lemma moves_msg_state_reset [moves_rules]: "moves conf k msg_state_reset 0"
  unfolding msg_state_reset_def msg_buf_reset_def
  by (rule moves_bind [OF moves_modify moves_modify]) (auto simp: reach_def)

lemma safe_unless_broadcast [safe_rules]: "safe conf k m \<Longrightarrow> safe conf k (unless_broadcast m)"
  unfolding unless_broadcast_def by (rule safe_rules moves_rules | assumption)+


text \<open>The function codes whose handlers check every length before they use it.\<close>

definition checked_fc :: "u8 \<Rightarrow> bool" where
  "checked_fc f \<longleftrightarrow> f \<noteq> 16 \<and> f \<noteq> 20 \<and> f \<noteq> 21 \<and> f \<noteq> 43"

section \<open>Frames\<close>

locale polite_port =
  fixes conf :: "'p platform_conf"
  assumes rtu: "transport conf = NMBS_TRANSPORT_RTU"
    and at_most: "pread conf c t a = (r, bs, a') \<Longrightarrow> length bs \<le> c"
begin

lemma moves_recv [moves_rules]: "k + c \<le> kBufSize \<Longrightarrow> moves conf k (recv c) k"
  unfolding moves_def
proof (rule nm_specI)
  fix n r n'
  assume c: "k + c \<le> kBufSize" and n: "reach conf k n" and run: "run_state (recv c) n = (r, n')"
  obtain x bs a where p: "pread (platform n) c (byte_timeout_ms n) (arg n) = (x, bs, a)"
    by (cases "pread (platform n) c (byte_timeout_ms n) (arg n)")
  have "length bs \<le> c" using at_most p n by (simp add: reach_def)
  then have "reach conf k (store_at (buf_idx n) bs (n\<lparr>arg := a\<rparr>))"
    using n c by (intro reach_store) (auto simp: reach_def)
  with run n show "reach conf k n'"
    by (auto simp: recv_def p Let_def split: if_splits)
qed

lemma moves_flush [moves_rules]: "moves conf k flush k"
  unfolding flush_def
proof (rule moves_modify)
  fix n :: "'p nmbs_t"
  assume n: "reach conf k n"
  obtain x bs a where p: "pread (platform n) kBufSize 0 (arg n) = (x, bs, a)"
    by (cases "pread (platform n) kBufSize 0 (arg n)")
  have "length bs \<le> kBufSize" using at_most p n by (simp add: reach_def)
  then have "reach conf k (store_at 0 bs (n\<lparr>arg := a\<rparr>))"
    using n by (intro reach_store) (auto simp: reach_def)
  then show "reach conf k (let (ret, bs, a) = pread (platform n) kBufSize 0 (arg n)
      in store_at 0 bs (n\<lparr>arg := a\<rparr>))"
    by (simp add: p)
qed

lemma safe_transport:
  "safe conf k (f NMBS_TRANSPORT_RTU) \<Longrightarrow> safe conf k (asks (\<lambda>n. transport (platform n)) \<bind> f)"
  using rtu by (simp add: safe_def nm_spec_def reach_def)

lemma moves_transport:
  "moves conf k (f NMBS_TRANSPORT_RTU) j \<Longrightarrow> moves conf k (asks (\<lambda>n. transport (platform n)) \<bind> f) j"
  using rtu by (simp add: moves_def nm_spec_def reach_def)

lemma moves_modify_same: "(\<And>n. reach conf k n \<Longrightarrow> reach conf k (f n)) \<Longrightarrow> moves conf k (modify f) k"
  by (rule moves_modify)

lemma moves_reset: "(\<And>n. reach conf k n \<Longrightarrow> reach conf 0 (f n)) \<Longrightarrow> moves conf k (modify f) 0"
  by (rule moves_modify)

text \<open>The rules in the order a computation is taken apart, and what their side conditions need.\<close>

lemma safe_rtu: "safe conf k a \<Longrightarrow> safe conf k (if NMBS_TRANSPORT_RTU = NMBS_TRANSPORT_RTU then a else b)"
  by simp

lemma moves_rtu:
  "moves conf k a j \<Longrightarrow> moves conf k (if NMBS_TRANSPORT_RTU = NMBS_TRANSPORT_RTU then a else b) j"
  by simp

lemmas moves_leaf = moves_le [OF moves_get_1] moves_le [OF moves_get_2] moves_le [OF moves_put_1]
  moves_le [OF moves_put_2]

lemmas port_rules = safe_rtu moves_rtu safe_transport moves_transport safe_if moves_if safe_option safe_prod moves_prod
  safe_on_ok moves_on_ok safe_bind moves_bind safe_return moves_return moves_recv moves_flush
  moves_asks moves_get_1 moves_get_2 moves_put_1 moves_put_2 moves_get_1s moves_get_2s moves_put_1s_take
  moves_put_2s_take moves_put_1s
  moves_put_2s moves_leaf moves_send moves_run_callback moves_run_reading moves_msg_state_reset
  safe_unless_broadcast

lemma moves_msg_buf_reset: "moves conf k msg_buf_reset 0"
  unfolding msg_buf_reset_def by (rule moves_reset) (simp add: reach_def)

lemma moves_send_msg: "k + 2 \<le> kBufSize \<Longrightarrow> moves conf k send_msg (k + 2)"
proof -
  assume k: "k + 2 \<le> kBufSize"
  have crc: "moves conf k (modify (\<lambda>n. touch 0 (buf_idx n) n)) k"
    using k by (intro moves_modify) (auto simp: reach_def touch_def)
  have out: "moves conf (k + 2) (asks buf_idx \<bind> send) (k + 2)"
    using k by (auto simp: moves_def nm_spec_def send_def reach_def touch_def Let_def split: prod.splits)
  show ?thesis
    unfolding send_msg_def
    by (rule crc out k port_rules | simp)+
qed

lemma moves_put_msg_header: "moves conf k (put_msg_header l) 2"
  unfolding put_msg_header_def
  by (rule moves_msg_buf_reset port_rules | simp add: kBufSize_def)+

lemma moves_footer: "k + 2 \<le> kBufSize \<Longrightarrow> moves conf k recv_msg_footer (k + 2)"
proof -
  assume k: "k + 2 \<le> kBufSize"
  have crc: "moves conf k (modify (\<lambda>n. touch 0 (buf_idx n) n)) k"
    using k by (intro moves_modify) (auto simp: reach_def touch_def)
  show ?thesis
    unfolding recv_msg_footer_def
    by (rule crc k port_rules | simp)+
qed

lemma moves_recv_msg_header: "moves conf k recv_msg_header 2"
  unfolding recv_msg_header_def
  by (rule port_rules moves_modify_same | simp add: kBufSize_def | simp add: reach_def)+

lemma moves_recv_req_header: "moves conf k recv_req_header 2"
  unfolding recv_req_header_def
  by (rule moves_recv_msg_header port_rules moves_modify_same | simp | simp add: reach_def split: if_splits)+

lemma moves_recv_res_header: "moves conf k recv_res_header 5"
  unfolding recv_res_header_def
  by (rule moves_recv_msg_header port_rules moves_footer | simp add: kBufSize_def)+

lemma moves_msg_state_req: "moves conf k (msg_state_req f) 0"
  unfolding msg_state_req_def
  by (rule port_rules moves_modify_same | simp add: reach_def split: if_splits)+

lemma safe_exception: "safe conf k (send_exception_msg e)"
  unfolding send_exception_msg_def
  by (rule moves_put_msg_header port_rules moves_modify_same moves_safe [OF moves_send_msg]
      | simp add: kBufSize_def | simp add: reach_def)+

section \<open>Requests and their responses\<close>

lemmas frame_rules = moves_recv_res_header moves_footer moves_safe [OF moves_footer] moves_put_msg_header
  moves_send_msg moves_safe [OF moves_send_msg] moves_msg_state_req moves_recv_req_header safe_exception
  port_rules

lemmas byte_bounds = kBufSize_def word_le_nat_alt word_less_nat_alt

lemma safe_recv_registers: "safe conf k (recv_read_registers_res q rs)"
  unfolding recv_read_registers_res_def
  by (rule frame_rules | simp add: byte_bounds)+

lemma safe_recv_discrete: "safe conf k (recv_read_discrete_res vs)"
  unfolding recv_read_discrete_res_def NMBS_BITFIELD_BYTES_MAX_def
  by (rule frame_rules | simp add: byte_bounds)+

lemma safe_recv_echo: "safe conf k (recv_echo_res a v)"
  unfolding recv_echo_res_def
  by (rule frame_rules | simp add: byte_bounds)+

lemmas echo_defs = recv_write_single_coil_res_def recv_write_single_register_res_def
  recv_write_multiple_coils_res_def recv_write_multiple_registers_res_def

lemma safe_read_registers: "safe conf k (read_registers f a q rs)"
  unfolding read_registers_def put_req_header_def
  by (rule safe_recv_registers frame_rules | simp add: byte_bounds)+

lemma safe_write_registers: "safe conf k (nmbs_write_multiple_registers a q rs)"
  unfolding nmbs_write_multiple_registers_def put_req_header_def echo_defs Let_def
  by (rule safe_recv_echo frame_rules | simp add: byte_bounds)+

lemma safe_read_write_registers: "safe conf k (nmbs_read_write_registers ra rq out wa wq rs)"
  unfolding nmbs_read_write_registers_def put_req_header_def Let_def
  by (rule safe_recv_registers frame_rules | simp add: byte_bounds)+

section \<open>Handlers\<close>

lemma safe_callback_error: "safe conf k (send_callback_error e)"
  unfolding send_callback_error_def by (simp add: safe_exception)

lemma safe_echo: "safe conf k (send_echo a v)"
  unfolding send_echo_def put_res_header_def
  by (rule frame_rules | simp add: byte_bounds)+

lemma safe_send_registers: "unat q \<le> 125 \<Longrightarrow> safe conf k (send_registers q rs)"
  unfolding send_registers_def put_res_header_def Let_def
  by (rule frame_rules | simp add: byte_bounds)+

lemma safe_ignored: "safe conf k m \<Longrightarrow> safe conf k (m \<bind> (\<lambda>(err, rs). nm_return err))"
  unfolding safe_def nm_spec_def by (auto split: prod.splits)

lemmas handler_rules = safe_ignored safe_callback_error safe_echo safe_send_registers safe_recv_registers safe_recv_discrete
  safe_recv_echo frame_rules

lemma safe_handle_read_registers: "safe conf 2 (handle_read_registers cb)"
  unfolding handle_read_registers_def
  by (rule handler_rules | simp add: byte_bounds)+

lemma safe_handle_single_coil: "safe conf 2 (handle_write_single_coil cb)"
  unfolding handle_write_single_coil_def echo_defs
  by (rule handler_rules | simp add: byte_bounds)+

lemma safe_handle_single_register: "safe conf 2 (handle_write_single_register cb)"
  unfolding handle_write_single_register_def echo_defs
  by (rule handler_rules | simp add: byte_bounds)+

lemma safe_handle_read_write: "safe conf 2 (handle_read_write_registers cbs)"
  unfolding handle_read_write_registers_def echo_defs case_prod_beta
  by (rule handler_rules | simp add: byte_bounds)+

lemma safe_handle_discrete: "safe conf 2 (handle_read_discrete cb)"
  unfolding handle_read_discrete_def put_res_header_def Let_def
  by (rule handler_rules | simp add: byte_bounds unat_of_nat take_bit_nat_eq_self)+

lemma safe_handle_coils: "safe conf 2 (handle_write_multiple_coils cb)"
  unfolding handle_write_multiple_coils_def echo_defs Let_def
  by (rule handler_rules | simp add: byte_bounds)+

lemma safe_dispatch:
  "nm_spec (\<lambda>n. reach conf 2 n \<and> checked_fc (fc n)) (handle_req_fc cbs) (\<lambda>_. intact conf)"
proof (rule nm_specI)
  fix n r n'
  assume n: "reach conf 2 n \<and> checked_fc (fc n)" and run: "run_state (handle_req_fc cbs) n = (r, n')"
  define rest :: "('p, nmbs_error) nm" where
    "rest = do { flush; ign \<leftarrow> asks ignored;
       if \<not> ign then send_exception_msg NMBS_EXCEPTION_ILLEGAL_FUNCTION else nm_return NMBS_ERROR_NONE }"
  have rest: "safe conf 2 rest"
    unfolding rest_def by (rule handler_rules | simp add: byte_bounds)+
  obtain m where m: "safe conf 2 m" "run_state m n = (r, n')"
    using run n rest safe_handle_discrete safe_handle_read_registers safe_handle_single_coil
      safe_handle_single_register safe_handle_coils safe_handle_read_write
    unfolding handle_req_fc_def rest_def [symmetric] checked_fc_def
    by (auto split: if_splits; blast)
  with n show "intact conf n'" unfolding safe_def by (auto dest: nm_specD)
qed

end

end
