(* ===== verification/NanoFrames.thy ===== *)
theory NanoFrames
  imports NanoSafety
begin

text \<open>
  Frames of the Modbus wire as byte lists, and what nanomodbus.c sends and accepts of them
  when its transport is a queue of bytes. \<open>wr bs n\<close> is the state after the bytes \<open>bs\<close> went
  through the message buffer, \<open>hold bs n\<close> the state with \<open>bs\<close> received and not yet read.
  The locale \<open>byte_queue\<close> is the contract of such a transport; the server's queue and the
  client's serial interpret it.
\<close>

section \<open>Frames\<close>

definition regs_bytes :: "u16 list \<Rightarrow> u8 list" where
  "regs_bytes rs = concat (map (\<lambda>r. [high8 r, low8 r]) rs)"

definition with_crc :: "u8 list \<Rightarrow> u8 list" where
  "with_crc m = m @ regs_bytes [nmbs_crc_calc m]"

definition adu :: "u8 \<Rightarrow> u8 \<Rightarrow> u8 list \<Rightarrow> u8 list" where
  "adu u f payload = with_crc (u # f # payload)"

definition registers_reply :: "u8 \<Rightarrow> u8 \<Rightarrow> u16 list \<Rightarrow> u8 list" where
  "registers_reply u f rs = adu u f (of_nat (2 * length rs) # regs_bytes rs)"

lemma regs_bytes_simps [simp]:
  "regs_bytes [] = []" "regs_bytes (r # rs) = high8 r # low8 r # regs_bytes rs"
  "regs_bytes (rs @ qs) = regs_bytes rs @ regs_bytes qs" "length (regs_bytes rs) = 2 * length rs"
  by (simp_all add: regs_bytes_def) (induction rs, simp_all)

lemma double_byte:
  assumes "unat q \<le> 125" shows "(ucast (q * 2 :: u16) :: u8) = of_nat (2 * unat q)"
proof -
  have "unat (q * 2) = unat q * 2 mod 2 ^ 16" by (simp add: unat_word_ariths)
  also have "\<dots> = 2 * unat q" using assms by simp
  finally have "of_nat (2 * unat q) = (of_nat (unat (q * 2)) :: u8)" by simp
  then show ?thesis by simp
qed

lemma unat_byte: "k < 256 \<Longrightarrow> unat (of_nat k :: u8) = k"
  by (simp add: unat_of_nat take_bit_nat_eq_self)

section \<open>The message buffer\<close>

definition hold :: "u8 list \<Rightarrow> 'p nmbs_t \<Rightarrow> 'p nmbs_t" where
  "hold bs n = n\<lparr>buf := take (buf_idx n) (buf n) @ bs @ drop (buf_idx n + length bs) (buf n)\<rparr>"

definition wr :: "u8 list \<Rightarrow> 'p nmbs_t \<Rightarrow> 'p nmbs_t" where
  "wr bs n = (hold bs n)\<lparr>buf_idx := buf_idx n + length bs\<rparr>"

definition fits :: "nat \<Rightarrow> 'p nmbs_t \<Rightarrow> bool" where
  "fits k n \<longleftrightarrow> length (buf n) = kBufSize \<and> \<not> oob n \<and> buf_idx n + k \<le> kBufSize"

definition sofar :: "'p nmbs_t \<Rightarrow> u8 list" where
  "sofar n = take (buf_idx n) (buf n)"

lemma wr_fields [simp]:
  "unit_id (wr bs n) = unit_id n" "fc (wr bs n) = fc n" "transaction_id (wr bs n) = transaction_id n"
  "broadcast (wr bs n) = broadcast n" "ignored (wr bs n) = ignored n" "complete (wr bs n) = complete n"
  "byte_timeout_ms (wr bs n) = byte_timeout_ms n" "read_timeout_ms (wr bs n) = read_timeout_ms n"
  "platform (wr bs n) = platform n" "address_rtu (wr bs n) = address_rtu n"
  "dest_address_rtu (wr bs n) = dest_address_rtu n" "current_tid (wr bs n) = current_tid n"
  "arg (wr bs n) = arg n" "oob (wr bs n) = oob n" "buf_idx (wr bs n) = buf_idx n + length bs"
  by (simp_all add: wr_def hold_def)

lemma hold_fields [simp]:
  "unit_id (hold bs n) = unit_id n" "fc (hold bs n) = fc n" "transaction_id (hold bs n) = transaction_id n"
  "broadcast (hold bs n) = broadcast n" "ignored (hold bs n) = ignored n" "complete (hold bs n) = complete n"
  "byte_timeout_ms (hold bs n) = byte_timeout_ms n" "read_timeout_ms (hold bs n) = read_timeout_ms n"
  "platform (hold bs n) = platform n" "address_rtu (hold bs n) = address_rtu n"
  "dest_address_rtu (hold bs n) = dest_address_rtu n" "current_tid (hold bs n) = current_tid n"
  "arg (hold bs n) = arg n" "oob (hold bs n) = oob n" "buf_idx (hold bs n) = buf_idx n"
  by (simp_all add: hold_def)

lemma fits_less: "fits k n \<Longrightarrow> j \<le> k \<Longrightarrow> fits j n"
  by (simp add: fits_def)

lemma fits_Suc_Suc [simp]: "fits (Suc (Suc 0)) n \<longleftrightarrow> fits 2 n"
  by (simp only: numeral_2_eq_2)

lemma fits_wr [simp]: "fits (length bs + k) n \<Longrightarrow> fits k (wr bs n)"
  by (auto simp: fits_def wr_def hold_def)

lemma hold_Nil [simp]: "hold [] n = n"
  by (simp add: hold_def)

lemma wr_Nil [simp]: "wr [] n = n"
  by (simp add: wr_def)

lemma wr_wr [simp]: "fits (length bs + length cs) n \<Longrightarrow> wr cs (wr bs n) = wr (bs @ cs) n"
  by (auto simp: fits_def wr_def hold_def ac_simps intro!: nmbs_t.equality)

lemma sofar_wr [simp]: "fits (length bs) n \<Longrightarrow> sofar (wr bs n) = sofar n @ bs"
  by (auto simp: fits_def sofar_def wr_def hold_def)

lemma store_hold: "fits (length bs) n \<Longrightarrow> store_at (buf_idx n) bs n = hold bs n"
  by (auto simp: fits_def store_at_def touch_def hold_def intro!: nmbs_t.equality)

lemma run_put_1: "fits 1 n \<Longrightarrow> run_state (put_1 d) n = ((), wr [d] n)"
  using store_hold [of "[d]" n] by (simp add: put_1_def wr_def)

lemma run_put_2: "fits 2 n \<Longrightarrow> run_state (put_2 d) n = ((), wr [high8 d, low8 d] n)"
  using store_hold [of "[high8 d, low8 d]" n] by (simp add: put_2_def wr_def)

lemma run_put_2s: "fits (2 * length rs) n \<Longrightarrow> run_state (put_2s rs) n = ((), wr (regs_bytes rs) n)"
proof (induction rs arbitrary: n)
  case (Cons r rs)
  then have "fits 2 n" "fits (2 * length rs) (wr [high8 r, low8 r] n)" by (auto intro: fits_less)
  with Cons show ?case by (simp add: run_put_2)
qed simp

lemma hold_Cons: "fits (Suc (length bs)) n \<Longrightarrow>
    (hold (b # bs) n)\<lparr>buf_idx := Suc (buf_idx n)\<rparr> = hold bs (wr [b] n)"
  by (auto simp: fits_def wr_def hold_def ac_simps intro!: nmbs_t.equality)

lemma length_buf_hold: "fits (length bs) n \<Longrightarrow> length (buf (hold bs n)) = kBufSize"
  by (auto simp: fits_def hold_def)

lemma buf_at_hold:
  "fits (length bs) n \<Longrightarrow> i < length bs \<Longrightarrow> buf_at (buf_idx n + i) (hold bs n) = bs ! i"
  by (auto simp: fits_def buf_at_def hold_def nth_append)

lemma touch_hold: "fits (length bs) n \<Longrightarrow> k \<le> length bs \<Longrightarrow> touch (buf_idx n) k (hold bs n) = hold bs n"
  by (auto simp: touch_def length_buf_hold) (auto simp: fits_def)

lemma run_get_1: "fits (Suc (length bs)) n \<Longrightarrow> run_state get_1 (hold (b # bs) n) = (b, hold bs (wr [b] n))"
  using buf_at_hold [of "b # bs" n 0] touch_hold [of "b # bs" n 1]
  by (simp add: get_1_def hold_Cons)

lemma run_get_2:
  assumes "fits (Suc (Suc (length bs))) n"
  shows "run_state get_2 (hold (a # b # bs) n) = (pack16 a b, hold bs (wr [a, b] n))"
proof -
  have "(hold (a # b # bs) n)\<lparr>buf_idx := Suc (Suc (buf_idx n))\<rparr> = hold bs (wr [a, b] n)"
    using assms by (auto simp: fits_def wr_def hold_def ac_simps intro!: nmbs_t.equality)
  then show ?thesis
    using assms buf_at_hold [of "a # b # bs" n 0] buf_at_hold [of "a # b # bs" n 1]
      touch_hold [of "a # b # bs" n 2]
    by (simp add: get_2_def)
qed

lemma run_get_2s:
  "fits (2 * length rs + length bs) n \<Longrightarrow> c = length rs \<Longrightarrow>
     run_state (get_2s c) (hold (regs_bytes rs @ bs) n) = (rs, hold bs (wr (regs_bytes rs) n))"
proof (induction rs arbitrary: n c)
  case (Cons r rs)
  then have "fits (2 * length rs + length bs) (wr [high8 r, low8 r] n)"
    by (auto simp: fits_def wr_def hold_def)
  with Cons show ?case by (simp add: run_get_2 fits_less)
qed simp

lemma wr_arg [simp]: "(wr bs n)\<lparr>arg := a\<rparr> = wr bs (n\<lparr>arg := a\<rparr>)"
  by (simp add: wr_def hold_def)

lemma hold_arg [simp]: "(hold bs n)\<lparr>arg := a\<rparr> = hold bs (n\<lparr>arg := a\<rparr>)"
  by (simp add: hold_def)

lemma fits_arg [simp]: "fits k (n\<lparr>arg := a\<rparr>) \<longleftrightarrow> fits k n"
  by (simp add: fits_def)

lemma timeout_simps [simp]:
  "(wr bs n)\<lparr>byte_timeout_ms := t\<rparr> = wr bs (n\<lparr>byte_timeout_ms := t\<rparr>)"
  "(hold bs n)\<lparr>byte_timeout_ms := t\<rparr> = hold bs (n\<lparr>byte_timeout_ms := t\<rparr>)"
  "fits k (n\<lparr>byte_timeout_ms := t\<rparr>) \<longleftrightarrow> fits k n"
  by (simp_all add: wr_def hold_def fits_def)

lemma sofar_arg [simp]: "sofar (n\<lparr>arg := a\<rparr>) = sofar n"
  by (simp add: sofar_def)

text \<open>A state whose message is about to start: the header fields set, the index at the front.\<close>

definition fresh :: "u8 \<Rightarrow> u8 \<Rightarrow> 'p nmbs_t \<Rightarrow> 'p nmbs_t" where
  "fresh u f n = n\<lparr>buf_idx := 0, unit_id := u, fc := f, transaction_id := 0, broadcast := False,
     ignored := False, complete := False\<rparr>"

lemma fresh_fields [simp]:
  "unit_id (fresh u f n) = u" "fc (fresh u f n) = f" "transaction_id (fresh u f n) = 0"
  "broadcast (fresh u f n) = False" "ignored (fresh u f n) = False" "complete (fresh u f n) = False"
  "byte_timeout_ms (fresh u f n) = byte_timeout_ms n" "read_timeout_ms (fresh u f n) = read_timeout_ms n"
  "platform (fresh u f n) = platform n" "address_rtu (fresh u f n) = address_rtu n"
  "dest_address_rtu (fresh u f n) = dest_address_rtu n" "current_tid (fresh u f n) = current_tid n"
  "arg (fresh u f n) = arg n" "oob (fresh u f n) = oob n" "buf_idx (fresh u f n) = 0"
  "buf (fresh u f n) = buf n" "sofar (fresh u f n) = []"
  by (simp_all add: fresh_def sofar_def)

lemma fresh_arg [simp]: "(fresh u f n)\<lparr>arg := a\<rparr> = fresh u f (n\<lparr>arg := a\<rparr>)"
  by (simp add: fresh_def)

section \<open>Requests in the buffer\<close>

text \<open>The body of a read-write request, before its checksum.\<close>

definition request_head :: "u8 \<Rightarrow> u16 \<Rightarrow> u16 \<Rightarrow> u16 \<Rightarrow> u16 \<Rightarrow> u16 list \<Rightarrow> u8 list" where
  "request_head u ra rq wa wq ws =
     [u, 23] @ regs_bytes [ra, rq, wa, wq] @ [of_nat (2 * length ws)] @ regs_bytes ws"

context polite_port
begin

lemma run_put_msg_header:
  assumes "platform n = conf" and "fits 0 n"
  shows "run_state (put_msg_header l) n = ((), wr [unit_id n, fc n] (n\<lparr>buf_idx := 0\<rparr>))"
proof -
  have "fits k (n\<lparr>buf_idx := 0\<rparr>) \<longleftrightarrow> k \<le> kBufSize" for k using assms(2) by (auto simp: fits_def)
  then show ?thesis
    using assms(1) rtu
    by (simp add: put_msg_header_def msg_buf_reset_def run_put_1 kBufSize_def)
qed

text \<open>A read-write request is put together, whatever is done with it then.\<close>

lemma run_put_read_write:
  assumes n: "platform n = conf" "fits 0 n" "buf_idx n = 0" "unit_id n = u" "fc n = 23"
    and wq: "unat wq \<le> 121" "length ws = unat wq"
  shows "run_state (do { put_req_header l; put_2 ra; put_2 rq; put_2 wa; put_2 wq; put_1 (ucast (wq * 2));
      put_2s ws; k }) n = run_state k (wr (request_head u ra rq wa wq ws) n)"
proof -
  define b :: u8 where "b = of_nat (2 * length ws)"
  define m where "m = [u, 23] @ regs_bytes [ra, rq, wa, wq] @ [b] @ regs_bytes ws"
  have r: "fits k n \<longleftrightarrow> k \<le> kBufSize" "n\<lparr>buf_idx := 0\<rparr> = n" for k using n(2,3) by (auto simp: fits_def)
  have b: "(ucast (wq * 2) :: u8) = b" using double_byte [of wq] wq by (simp add: b_def)
  have "run_state (put_req_header l) n = ((), wr [u, 23] n)"
    using run_put_msg_header [OF n(1,2)] r n by (simp add: put_req_header_def)
  moreover have "run_state (put_2 ra) (wr [u, 23] n) = ((), wr ([u, 23] @ regs_bytes [ra]) n)"
    using r by (simp add: run_put_2 kBufSize_def)
  moreover have "run_state (put_2 rq) (wr ([u, 23] @ regs_bytes [ra]) n) = ((), wr ([u, 23] @ regs_bytes [ra, rq]) n)"
    using r by (simp add: run_put_2 kBufSize_def)
  moreover have "run_state (put_2 wa) (wr ([u, 23] @ regs_bytes [ra, rq]) n) =
      ((), wr ([u, 23] @ regs_bytes [ra, rq, wa]) n)"
    using r by (simp add: run_put_2 kBufSize_def)
  moreover have "run_state (put_2 wq) (wr ([u, 23] @ regs_bytes [ra, rq, wa]) n) =
      ((), wr ([u, 23] @ regs_bytes [ra, rq, wa, wq]) n)"
    using r by (simp add: run_put_2 kBufSize_def)
  moreover have "run_state (put_1 b) (wr ([u, 23] @ regs_bytes [ra, rq, wa, wq]) n) =
      ((), wr ([u, 23] @ regs_bytes [ra, rq, wa, wq] @ [b]) n)"
    using r by (simp add: run_put_1 kBufSize_def)
  moreover have "run_state (put_2s ws) (wr ([u, 23] @ regs_bytes [ra, rq, wa, wq] @ [b]) n) = ((), wr m n)"
    using r wq by (simp add: run_put_2s kBufSize_def m_def)
  ultimately show ?thesis by (simp add: b m_def request_head_def b_def)
qed

lemma run_request:
  assumes "run_state (msg_state_req 23) n = ((), n1)"
    and "platform n1 = conf" "fits 0 n1" "buf_idx n1 = 0" "unit_id n1 = u" "fc n1 = 23"
    and "unat wq \<le> 121" "length ws = unat wq"
  shows "run_state (do { msg_state_req 23; put_req_header l; put_2 ra; put_2 rq; put_2 wa; put_2 wq;
      put_1 (ucast (wq * 2)); put_2s ws; k }) n = run_state k (wr (request_head u ra rq wa wq ws) n1)"
  by (subst run_state_bind) (simp only: assms(1) prod.case run_put_read_write [OF assms(2-)])

lemma run_read_write_request:
  assumes "run_state (msg_state_req 23) n = ((), n1)"
    and "platform n1 = conf" "fits 0 n1" "buf_idx n1 = 0" "unit_id n1 = u" "fc n1 = 23"
    and "rq \<noteq> 0" "unat rq \<le> 125" "\<not> past_end ra rq"
    and "wq \<noteq> 0" "unat wq \<le> 121" "\<not> past_end wa wq" "length ws = unat wq"
  shows "run_state (nmbs_read_write_registers ra rq out wa wq ws) n =
    run_state (send_msg \<bind> (\<lambda>err. if err \<noteq> NMBS_ERROR_NONE then nm_return (err, out)
      else recv_read_registers_res rq out)) (wr (request_head u ra rq wa wq ws) n1)"
proof -
  have "\<not> 125 < rq" "\<not> 121 < wq" using assms(8,11) by (simp_all add: word_less_nat_alt)
  then show ?thesis
    unfolding run_request [OF assms(1-6,11,13), symmetric, where ra = ra and rq = rq and wa = wa
      and l = "9 + ucast (ucast (wq * 2) :: u8)"]
    using assms(7-13) by (simp add: nmbs_read_write_registers_def Let_def del: run_state_bind)
qed

end

section \<open>Bytes received\<close>

context polite_port
begin

lemma run_recv_by:
  assumes "platform n = conf" and "\<not> complete n" and "fits c n" and "length bs = c"
    and "pread conf c (byte_timeout_ms n) (arg n) = (int c, bs, a)"
  shows "run_state (recv c) n = (NMBS_ERROR_NONE, hold bs (n\<lparr>arg := a\<rparr>))"
  using assms store_hold [of bs "n\<lparr>arg := a\<rparr>"] by (simp add: recv_def)

lemma run_recv_failing:
  assumes "platform n = conf" and "\<not> complete n" and "length (buf n) = kBufSize" and "buf_idx n \<le> kBufSize"
    and "pread conf c (byte_timeout_ms n) (arg n) = (-1, [], a)"
  shows "run_state (recv c) n = (NMBS_ERROR_TRANSPORT, n\<lparr>arg := a\<rparr>)"
proof -
  have "store_at (buf_idx n) [] (n\<lparr>arg := a\<rparr>) = n\<lparr>arg := a\<rparr>"
    using assms(3,4) by (simp add: store_at_def touch_def)
  then show ?thesis using assms by (simp add: recv_def)
qed

lemma run_send_by:
  assumes "platform n = conf" and "fits 2 n"
    and "pwrite conf (with_crc (sofar n)) (byte_timeout_ms n) (arg n) = (int (length (with_crc (sofar n))), a)"
  shows "run_state send_msg n =
    (NMBS_ERROR_NONE, wr (regs_bytes [nmbs_crc_calc (sofar n)]) (n\<lparr>arg := a\<rparr>))"
proof -
  let ?crc = "regs_bytes [nmbs_crc_calc (sofar n)]"
  have t: "touch 0 (buf_idx n) n = n" using assms(2) by (simp add: touch_def fits_def)
  have f: "fits (length ?crc) n" using assms(2) by simp
  have out: "sofar (wr ?crc n) = with_crc (sofar n)" using f by (simp add: with_crc_def)
  have len: "length (with_crc (sofar n)) = buf_idx n + 2"
    using assms(2) by (auto simp: with_crc_def sofar_def fits_def)
  have t2: "touch 0 (buf_idx n + 2) (wr ?crc (n\<lparr>arg := a\<rparr>)) = wr ?crc (n\<lparr>arg := a\<rparr>)" for a
    using assms(2) by (auto simp: touch_def fits_def wr_def hold_def)
  have p: "pwrite conf (with_crc (sofar n)) (byte_timeout_ms n) (arg n) = (int (buf_idx n + 2), a)"
    using assms(3) len by simp
  show ?thesis
    using assms(1) p rtu t t2 out len run_put_2 [OF assms(2)]
    by (simp add: send_msg_def send_def sofar_def [symmetric])
qed

lemma run_header_by:
  assumes n: "platform n = conf" "fits 0 (n\<lparr>buf_idx := 0\<rparr>)"
    and p1: "pread conf 1 (read_timeout_ms n) (arg n) = (1, [u], a1)"
    and p2: "pread conf 1 (byte_timeout_ms n) a1 = (1, [f], a2)"
  shows "run_state recv_msg_header n = ((NMBS_ERROR_NONE, True), wr [u, f] (fresh u f (n\<lparr>arg := a2\<rparr>)))"
proof -
  define m where "m = n\<lparr>byte_timeout_ms := read_timeout_ms n, buf_idx := 0, unit_id := 0, fc := 0,
    transaction_id := 0, broadcast := False, ignored := False, complete := False\<rparr>"
  have m: "platform m = conf" "\<not> complete m" "fits k m = (k \<le> kBufSize)" "arg m = arg n"
      "byte_timeout_ms m = read_timeout_ms n" for k
    using n by (auto simp: m_def fits_def)
  define n2 where "n2 = wr [u] (n\<lparr>buf_idx := 0, unit_id := u, fc := 0, transaction_id := 0,
    broadcast := False, ignored := False, complete := False, arg := a1\<rparr>)"
  have fit: "fits k (fresh u f (n\<lparr>arg := a\<rparr>)) = (k \<le> kBufSize)" for k a
    using n by (auto simp: fits_def)
  have one: "run_state (recv 1) m = (NMBS_ERROR_NONE, hold [u] (m\<lparr>arg := a1\<rparr>))"
    using m p1 by (intro run_recv_by) (simp_all add: kBufSize_def)
  have get: "run_state get_1 (hold [u] (m\<lparr>arg := a\<rparr>)\<lparr>byte_timeout_ms := t\<rparr>) =
      (u, wr [u] (m\<lparr>arg := a, byte_timeout_ms := t\<rparr>))" for a t
    using run_get_1 [of "[]" "m\<lparr>arg := a, byte_timeout_ms := t\<rparr>" u] m by (simp add: kBufSize_def)
  have two: "wr [u] (m\<lparr>arg := a1, byte_timeout_ms := byte_timeout_ms n\<rparr>)\<lparr>unit_id := u\<rparr> = n2"
    by (simp add: n2_def m_def wr_def hold_def)
  have n2: "platform n2 = conf" "\<not> complete n2" "fits 1 n2" "arg n2 = a1" "byte_timeout_ms n2 = byte_timeout_ms n"
    using n by (auto simp: n2_def fits_def kBufSize_def wr_def hold_def)
  have three: "run_state (recv 1) n2 = (NMBS_ERROR_NONE, hold [f] (n2\<lparr>arg := a2\<rparr>))"
    using n2 p2 by (intro run_recv_by) simp_all
  have four: "run_state get_1 (hold [f] (n2\<lparr>arg := a\<rparr>)) = (f, wr [f] (n2\<lparr>arg := a\<rparr>))" for a
    using run_get_1 [of "[]" "n2\<lparr>arg := a\<rparr>" f] n2 by simp
  have five: "wr [f] (n2\<lparr>arg := a\<rparr>)\<lparr>fc := f\<rparr> = wr [u, f] (fresh u f (n\<lparr>arg := a\<rparr>))" for a
  proof -
    have "wr [f] (n2\<lparr>arg := a\<rparr>)\<lparr>fc := f\<rparr> = wr [f] (wr [u] (fresh u f (n\<lparr>arg := a\<rparr>)))"
      by (simp add: n2_def fresh_def wr_def hold_def)
    then show ?thesis by (simp add: fit kBufSize_def)
  qed
  show ?thesis
    using n(1) rtu m(1) one get two three four five
    by (simp add: recv_msg_header_def msg_state_reset_def msg_buf_reset_def m_def [symmetric])
qed

lemma run_res_header_by:
  assumes "platform n = conf" "fits 0 (n\<lparr>buf_idx := 0\<rparr>)"
    and "pread conf 1 (read_timeout_ms n) (arg n) = (1, [unit_id n], a1)"
    and "pread conf 1 (byte_timeout_ms n) a1 = (1, [fc n], a2)"
  shows "run_state recv_res_header n =
    (NMBS_ERROR_NONE, wr [unit_id n, fc n] (fresh (unit_id n) (fc n) (n\<lparr>arg := a2\<rparr>)))"
  using assms rtu run_header_by [OF assms] by (simp add: recv_res_header_def)

end

section \<open>Queues of bytes\<close>

locale byte_queue = polite_port conf for conf :: "'p platform_conf" +
  fixes fine :: "'p \<Rightarrow> bool"
    and pending :: "'p \<Rightarrow> u8 list" and pop :: "nat \<Rightarrow> 'p \<Rightarrow> 'p" and push :: "u8 list \<Rightarrow> 'p \<Rightarrow> 'p"
  assumes read_queue: "fine a \<Longrightarrow> t \<noteq> 0 \<Longrightarrow> c \<le> length (pending a) \<Longrightarrow>
      pread conf c t a = (int c, take c (pending a), pop c a)"
    and pending_pop [simp]: "pending (pop c a) = drop c (pending a)"
    and pop_pop [simp]: "pop c (pop d a) = pop (d + c) a"
    and write_queue: "fine a \<Longrightarrow> pwrite conf bs t a = (int (length bs), push bs a)"
    and fine_pop [simp]: "fine a \<Longrightarrow> fine (pop c a)"
    and fine_push [simp]: "fine a \<Longrightarrow> fine (push bs a)"
begin

definition ready :: "'p nmbs_t \<Rightarrow> bool" where
  "ready n \<longleftrightarrow> platform n = conf \<and> length (buf n) = kBufSize \<and> \<not> oob n \<and>
     byte_timeout_ms n \<noteq> 0 \<and> read_timeout_ms n \<noteq> 0 \<and> fine (arg n)"

lemma run_recv:
  assumes "platform n = conf" and "\<not> complete n" and "byte_timeout_ms n \<noteq> 0" and "fine (arg n)"
    and "c \<le> length (pending (arg n))" and "fits c n"
  shows "run_state (recv c) n =
    (NMBS_ERROR_NONE, hold (take c (pending (arg n))) (n\<lparr>arg := pop c (arg n)\<rparr>))"
  using assms by (intro run_recv_by) (simp_all add: read_queue)

lemma pop_Suc_Suc [simp]: "pop (Suc (Suc 0)) a = pop 2 a"
  by (simp only: numeral_2_eq_2)

lemma run_recv_list:
  assumes "platform n = conf" and "\<not> complete n" and "byte_timeout_ms n \<noteq> 0" and "fine (arg n)"
    and "pending (arg n) = bs @ rest" and "c = length bs" and "fits c n"
  shows "run_state (recv c) n = (NMBS_ERROR_NONE, hold bs (n\<lparr>arg := pop c (arg n)\<rparr>))"
  using run_recv [OF assms(1-4), of c] assms(5-) by simp

lemma run_footer:
  assumes "platform n = conf" and "\<not> complete n" and "byte_timeout_ms n \<noteq> 0" and "fine (arg n)" and "fits 2 n"
    and "pending (arg n) = regs_bytes [nmbs_crc_calc (sofar n)] @ rest"
  shows "run_state recv_msg_footer n =
    (NMBS_ERROR_NONE, wr (regs_bytes [nmbs_crc_calc (sofar n)]) (n\<lparr>arg := pop 2 (arg n)\<rparr>))"
proof -
  have "touch 0 (buf_idx n) n = n" using assms(5) by (simp add: touch_def fits_def)
  then show ?thesis
    using assms rtu
    by (simp add: recv_msg_footer_def on_ok_def run_recv run_get_2 sofar_def [symmetric])
qed

lemma run_send_msg:
  assumes "platform n = conf" and "fits 2 n" and "fine (arg n)"
  shows "run_state send_msg n =
    (NMBS_ERROR_NONE, wr (regs_bytes [nmbs_crc_calc (sofar n)]) (n\<lparr>arg := push (with_crc (sofar n)) (arg n)\<rparr>))"
  using assms by (intro run_send_by) (simp_all add: write_queue)

lemma run_recv_msg_header:
  assumes "ready n" and "pending (arg n) = u # f # rest"
  shows "run_state recv_msg_header n =
    ((NMBS_ERROR_NONE, True), wr [u, f] (fresh u f (n\<lparr>arg := pop 2 (arg n)\<rparr>)))"
proof (rule run_header_by)
  show "pread conf 1 (read_timeout_ms n) (arg n) = (1, [u], pop 1 (arg n))"
    using assms by (subst read_queue) (auto simp: ready_def)
  show "pread conf 1 (byte_timeout_ms n) (pop 1 (arg n)) = (1, [f], pop 2 (arg n))"
    using assms by (subst read_queue) (auto simp: ready_def)
qed (use assms in \<open>auto simp: ready_def fits_def\<close>)

lemma run_recv_req_header:
  assumes "ready n" and "pending (arg n) = u # f # rest" and "u \<noteq> NMBS_BROADCAST_ADDRESS"
    and "address_rtu n = u"
  shows "run_state recv_req_header n =
    ((NMBS_ERROR_NONE, True), wr [u, f] (fresh u f (n\<lparr>arg := pop 2 (arg n)\<rparr>)))"
proof -
  let ?m = "fresh u f (n\<lparr>arg := pop 2 (arg n)\<rparr>)"
  have "wr [u, f] ?m\<lparr>ignored := False\<rparr> = wr [u, f] ?m"
    by (simp add: wr_def hold_def fresh_def)
  then show ?thesis
    using assms rtu run_recv_msg_header [OF assms(1,2)] by (simp add: recv_req_header_def ready_def)
qed

lemma run_recv_res_header:
  assumes "ready n" and "pending (arg n) = unit_id n # fc n # rest"
  shows "run_state recv_res_header n =
    (NMBS_ERROR_NONE, wr [unit_id n, fc n] (fresh (unit_id n) (fc n) (n\<lparr>arg := pop 2 (arg n)\<rparr>)))"
  using assms rtu run_recv_msg_header [OF assms] by (simp add: recv_res_header_def ready_def)

text \<open>The reply of a read: sent by the server, and received by the client that asked for it.\<close>

lemma run_send_registers:
  assumes "platform n = conf" and "fits 0 n" and fine: "fine (arg n)" and "unat q \<le> length regs" and "unat q \<le> 125"
  defines "rs \<equiv> take (unat q) regs"
  defines "reply \<equiv> registers_reply (unit_id n) (fc n) rs"
  shows "run_state (send_registers q regs) n =
    (NMBS_ERROR_NONE, wr reply (n\<lparr>buf_idx := 0, arg := push reply (arg n)\<rparr>))"
proof -
  have len: "length rs = unat q" using assms(4) by (simp add: rs_def)
  define n0 where "n0 = n\<lparr>buf_idx := 0\<rparr>"
  define b :: u8 where "b = of_nat (2 * length rs)"
  define m where "m = [unit_id n, fc n, b] @ regs_bytes rs"
  have n0: "fits k n0 \<longleftrightarrow> k \<le> kBufSize" "platform n0 = conf" "sofar n0 = []" "arg n0 = arg n" for k
    using assms(1,2) by (auto simp: fits_def n0_def sofar_def)
  have q: "(ucast (q * 2) :: u8) = b" using double_byte [of q] len assms(5) by (simp add: b_def)
  have reply: "reply = with_crc m" by (simp add: reply_def registers_reply_def adu_def m_def b_def)
  have "run_state (put_res_header l) n = ((), wr [unit_id n, fc n] n0)" for l
    using run_put_msg_header [OF assms(1,2)] by (simp add: put_res_header_def n0_def)
  moreover have "run_state (put_1 b) (wr [unit_id n, fc n] n0) = ((), wr [unit_id n, fc n, b] n0)"
    using n0 by (simp add: run_put_1 kBufSize_def)
  moreover have "run_state (put_2s rs) (wr [unit_id n, fc n, b] n0) = ((), wr m n0)"
    using n0 len assms(5) by (simp add: run_put_2s kBufSize_def m_def)
  moreover have "run_state send_msg (wr m n0) = (NMBS_ERROR_NONE, wr reply (n0\<lparr>arg := push reply (arg n)\<rparr>))"
    using n0 fine len assms(5) by (simp add: run_send_msg kBufSize_def m_def reply with_crc_def)
  ultimately show ?thesis
    by (simp add: send_registers_def Let_def q n0_def rs_def)
qed

lemma run_recv_registers:
  assumes n: "ready n" and pend: "pending (arg n) = registers_reply (unit_id n) (fc n) rs @ rest"
    and q: "length rs = unat q" "unat q \<le> 125" and out: "length out = length rs"
  defines "reply \<equiv> registers_reply (unit_id n) (fc n) rs"
  shows "run_state (recv_read_registers_res q out) n =
    ((NMBS_ERROR_NONE, rs),
     wr reply (fresh (unit_id n) (fc n) (n\<lparr>arg := pop (length reply) (arg n)\<rparr>)))"
proof -
  define b :: u8 where "b = of_nat (2 * length rs)"
  define m where "m = [unit_id n, fc n, b] @ regs_bytes rs"
  define f where "f a = fresh (unit_id n) (fc n) (n\<lparr>arg := a\<rparr>)" for a
  have f: "fits k (f a) \<longleftrightarrow> k \<le> kBufSize" "platform (f a) = conf" "sofar (f a) = []" "arg (f a) = a"
      "\<not> complete (f a)" "byte_timeout_ms (f a) \<noteq> 0" "f a\<lparr>arg := c\<rparr> = f c" "fine (arg n)" for k a c
    using n by (auto simp: fits_def f_def ready_def)
  have b: "unat b = 2 * unat q" unfolding b_def q(1) using q(2) by (intro unat_byte) simp
  have reply: "reply = with_crc m" by (simp add: reply_def registers_reply_def adu_def m_def b_def)
  have lm: "length m = 3 + 2 * unat q" using q by (simp add: m_def)
  have len: "length reply = 3 + 2 * unat q + 2" by (simp add: reply with_crc_def lm)
  have pend': "pending (arg n) = m @ regs_bytes [nmbs_crc_calc m] @ rest"
    using pend by (simp add: reply_def [symmetric] reply with_crc_def)
  have "run_state recv_res_header n = (NMBS_ERROR_NONE, wr [unit_id n, fc n] (f (pop 2 (arg n))))"
    using run_recv_res_header [OF n] pend' by (simp add: m_def f_def)
  moreover have "run_state (recv 1) (wr [unit_id n, fc n] (f (pop 2 (arg n)))) =
      (NMBS_ERROR_NONE, hold [b] (wr [unit_id n, fc n] (f (pop 3 (arg n)))))"
    using run_recv_list [of "wr [unit_id n, fc n] (f (pop 2 (arg n)))" "[b]" _ 1] pend' f
    by (simp add: m_def kBufSize_def)
  moreover have "run_state get_1 (hold [b] (wr [unit_id n, fc n] (f a))) = (b, wr [unit_id n, fc n, b] (f a))" for a
    using run_get_1 [of "[]" "wr [unit_id n, fc n] (f a)" b] f by (simp add: kBufSize_def)
  moreover have "run_state (recv (2 * unat q)) (wr [unit_id n, fc n, b] (f (pop 3 (arg n)))) =
      (NMBS_ERROR_NONE, hold (regs_bytes rs) (wr [unit_id n, fc n, b] (f (pop (3 + 2 * unat q) (arg n)))))"
    using run_recv_list [of "wr [unit_id n, fc n, b] (f (pop 3 (arg n)))" "regs_bytes rs" _ "2 * unat q"] pend' f q
    by (simp add: m_def kBufSize_def add.commute)
  moreover have "run_state (get_2s (unat q)) (hold (regs_bytes rs) (wr [unit_id n, fc n, b] (f a))) =
      (rs, wr m (f a))" for a
    using run_get_2s [OF _ q(1) [symmetric], of "[]" "wr [unit_id n, fc n, b] (f a)"] f q
    by (simp add: m_def kBufSize_def)
  moreover have "run_state recv_msg_footer (wr m (f (pop (3 + 2 * unat q) (arg n)))) =
      (NMBS_ERROR_NONE, wr reply (f (pop (length reply) (arg n))))"
  proof -
    have "drop (3 + 2 * unat q) (pending (arg n)) = regs_bytes [nmbs_crc_calc m] @ rest"
      unfolding pend' by (simp flip: lm)
    then show ?thesis
      using run_footer [of "wr m (f (pop (3 + 2 * unat q) (arg n)))" rest] f q lm
      unfolding len by (simp add: reply with_crc_def kBufSize_def)
  qed
  ultimately show ?thesis
    using q out b by (simp add: recv_read_registers_res_def f_def)
qed

section \<open>Requests\<close>

text \<open>What an operation leaves as it was: the platform, the addresses and the timeouts.\<close>

definition same_setup :: "'p nmbs_t \<Rightarrow> 'p nmbs_t \<Rightarrow> bool" where
  "same_setup n n' \<longleftrightarrow> platform n' = platform n \<and> length (buf n') = length (buf n) \<and> oob n' = oob n \<and>
     address_rtu n' = address_rtu n \<and> dest_address_rtu n' = dest_address_rtu n \<and>
     byte_timeout_ms n' = byte_timeout_ms n \<and> read_timeout_ms n' = read_timeout_ms n"

lemma ready_same_setup: "ready n \<Longrightarrow> same_setup n n' \<Longrightarrow> fine (arg n') \<Longrightarrow> ready n'"
  by (simp add: ready_def same_setup_def)

lemma same_setup_trans: "same_setup n m \<Longrightarrow> same_setup m l \<Longrightarrow> same_setup n l"
  by (simp add: same_setup_def)

lemma run_msg_state_req:
  assumes "ready n" and "dest_address_rtu n \<noteq> NMBS_BROADCAST_ADDRESS"
    and "pread conf kBufSize 0 (arg n) = (r, [], arg n)"
  shows "\<exists>n1. run_state (msg_state_req f) n = ((), n1) \<and> same_setup n n1 \<and> arg n1 = arg n \<and>
    buf_idx n1 = 0 \<and> unit_id n1 = dest_address_rtu n \<and> fc n1 = f \<and> \<not> broadcast n1"
proof -
  have "store_at 0 [] n = n" for n :: "'p nmbs_t"
    by (simp add: store_at_def touch_def)
  then show ?thesis
    using assms
    by (simp add: msg_state_req_def flush_def msg_state_reset_def msg_buf_reset_def ready_def same_setup_def)
qed

lemma same_setup_wr: "fits (length bs) n \<Longrightarrow> same_setup n (wr bs n)"
  by (auto simp: same_setup_def fits_def wr_def hold_def)

lemma recv_registers_setup:
  assumes "ready n" and "pending (arg n) = registers_reply (unit_id n) (fc n) rs @ rest"
    and "length rs = unat q" and "unat q \<le> 125" and "length out = length rs"
  shows "\<exists>n'. run_state (recv_read_registers_res q out) n = ((NMBS_ERROR_NONE, rs), n') \<and>
    same_setup n n' \<and> arg n' = pop (length (registers_reply (unit_id n) (fc n) rs)) (arg n)"
  using run_recv_registers [OF assms] assms(1,3,4)
  by (auto simp: same_setup_def ready_def wr_def hold_def registers_reply_def adu_def
      with_crc_def kBufSize_def)

text \<open>A request \<open>m\<close> is in the buffer: it is sent, and the reply received.\<close>

lemma run_answered:
  assumes n: "ready n" and n1: "same_setup n n1" "arg n1 = arg n" "buf_idx n1 = 0" "unit_id n1 = u" "fc n1 = f"
    and fit: "length m + 2 \<le> kBufSize"
    and len: "length rs = unat rq" "unat rq \<le> 125" "length out = unat rq"
    and answer: "pending (push (with_crc m) (arg n)) = registers_reply u f rs @ rest"
  shows "\<exists>n2 n'. run_state send_msg (wr m n1) = (NMBS_ERROR_NONE, n2) \<and>
    run_state (recv_read_registers_res rq out) n2 = ((NMBS_ERROR_NONE, rs), n') \<and>
    same_setup n n' \<and> arg n' = pop (length (registers_reply u f rs)) (push (with_crc m) (arg n))"
proof -
  have r1: "platform n1 = conf" "sofar n1 = []" "fits k n1 \<longleftrightarrow> k \<le> kBufSize" "fine (arg n1)" "fine (arg n)" for k
    using n n1 by (auto simp: ready_def same_setup_def fits_def sofar_def)
  define n2 where "n2 = wr (with_crc m) (n1\<lparr>arg := push (with_crc m) (arg n)\<rparr>)"
  have "fits (length (with_crc m)) (n1\<lparr>arg := push (with_crc m) (arg n)\<rparr>)"
    using fit by (simp add: r1 with_crc_def)
  then have "same_setup (n1\<lparr>arg := push (with_crc m) (arg n)\<rparr>) n2"
    unfolding n2_def by (rule same_setup_wr)
  with n1(1) have s2: "same_setup n n2" by (simp add: same_setup_def)
  have "unit_id n2 = u" "fc n2 = f" "arg n2 = push (with_crc m) (arg n)"
    using n1 by (simp_all add: n2_def)
  then obtain n' where "run_state (recv_read_registers_res rq out) n2 = ((NMBS_ERROR_NONE, rs), n')"
      "same_setup n2 n'" "arg n' = pop (length (registers_reply u f rs)) (push (with_crc m) (arg n))"
    using recv_registers_setup [OF ready_same_setup [OF n s2], of rs rest rq out] answer len r1(5) by auto
  moreover have "run_state send_msg (wr m n1) = (NMBS_ERROR_NONE, n2)"
    using r1 n1 fit by (simp add: run_send_msg kBufSize_def with_crc_def n2_def)
  ultimately show ?thesis using same_setup_trans [OF s2] by blast
qed

lemma run_read_write:
  assumes n: "ready n" and u: "dest_address_rtu n \<noteq> NMBS_BROADCAST_ADDRESS"
    and quiet: "pread conf kBufSize 0 (arg n) = (r, [], arg n)"
    and rq: "rq \<noteq> 0" "unat rq \<le> 125" "\<not> past_end ra rq"
    and wq: "wq \<noteq> 0" "unat wq \<le> 121" "\<not> past_end wa wq" "length ws = unat wq"
    and len: "length rs = unat rq" "length out = unat rq"
  defines "request \<equiv> adu (dest_address_rtu n) 23
      (regs_bytes [ra, rq, wa, wq] @ [of_nat (2 * length ws)] @ regs_bytes ws)"
    and "reply \<equiv> registers_reply (dest_address_rtu n) 23 rs"
  assumes answer: "pending (push request (arg n)) = reply @ rest"
  shows "\<exists>n'. run_state (nmbs_read_write_registers ra rq out wa wq ws) n = ((NMBS_ERROR_NONE, rs), n') \<and>
    same_setup n n' \<and> arg n' = pop (length reply) (push request (arg n))"
proof -
  define u where "u = dest_address_rtu n"
  define m where "m = request_head u ra rq wa wq ws"
  obtain n1 where n1: "run_state (msg_state_req 23) n = ((), n1)" "same_setup n n1" "arg n1 = arg n"
      "buf_idx n1 = 0" "unit_id n1 = u" "fc n1 = 23" "\<not> broadcast n1"
    using run_msg_state_req [OF assms(1,2,3), of 23] by (auto simp: u_def)
  have r1: "platform n1 = conf" "fits 0 n1"
    using n n1 by (auto simp: ready_def same_setup_def fits_def kBufSize_def)
  have request: "request = with_crc m" by (simp add: request_def adu_def m_def request_head_def u_def)
  have "length m + 2 \<le> kBufSize" using wq by (simp add: m_def request_head_def kBufSize_def)
  then obtain n2 n' where "run_state send_msg (wr m n1) = (NMBS_ERROR_NONE, n2)"
      "run_state (recv_read_registers_res rq out) n2 = ((NMBS_ERROR_NONE, rs), n')"
      "same_setup n n'" "arg n' = pop (length reply) (push request (arg n))"
    using run_answered [OF n n1(2-6) _ len(1) rq(2) len(2)] answer
    unfolding reply_def u_def [symmetric] request by blast
  then show ?thesis
    using run_read_write_request [OF n1(1) r1 n1(4-6) rq wq, folded m_def, of out] by (intro exI [of _ n']) simp
qed

lemma run_read_holding:
  assumes n: "ready n" and u: "dest_address_rtu n \<noteq> NMBS_BROADCAST_ADDRESS"
    and quiet: "pread conf kBufSize 0 (arg n) = (r, [], arg n)"
    and q: "q \<noteq> 0" "unat q \<le> 125" "\<not> past_end a q"
    and len: "length rs = unat q" "length out = unat q"
  defines "request \<equiv> adu (dest_address_rtu n) 3 (regs_bytes [a, q])"
    and "reply \<equiv> registers_reply (dest_address_rtu n) 3 rs"
  assumes answer: "pending (push request (arg n)) = reply @ rest"
  shows "\<exists>n'. run_state (nmbs_read_holding_registers a q out) n = ((NMBS_ERROR_NONE, rs), n') \<and>
    same_setup n n' \<and> arg n' = pop (length reply) (push request (arg n))"
proof -
  define u where "u = dest_address_rtu n"
  define m where "m = [u, 3] @ regs_bytes [a, q]"
  obtain n1 where n1: "run_state (msg_state_req 3) n = ((), n1)" "same_setup n n1" "arg n1 = arg n"
      "buf_idx n1 = 0" "unit_id n1 = u" "fc n1 = 3" "\<not> broadcast n1"
    using run_msg_state_req [OF assms(1,2,3), of 3] by (auto simp: u_def)
  have r1: "ready n1" "platform n1 = conf" "n1\<lparr>buf_idx := 0\<rparr> = n1" "sofar n1 = []"
      "fits k n1 \<longleftrightarrow> k \<le> kBufSize" for k
    using n n1 by (auto simp: ready_def same_setup_def fits_def sofar_def)
  have request: "request = with_crc m" by (simp add: request_def adu_def m_def u_def)
  have "run_state (put_req_header l) n1 = ((), wr [u, 3] n1)" for l
    using run_put_msg_header [of n1] r1 n1 by (simp add: put_req_header_def)
  moreover have "run_state (put_2 a) (wr [u, 3] n1) = ((), wr ([u, 3] @ regs_bytes [a]) n1)"
    using r1 by (simp add: run_put_2 kBufSize_def)
  moreover have "run_state (put_2 q) (wr ([u, 3] @ regs_bytes [a]) n1) = ((), wr m n1)"
    using r1 by (simp add: run_put_2 kBufSize_def m_def)
  moreover have "length m + 2 \<le> kBufSize" by (simp add: m_def kBufSize_def)
  then obtain n2 n' where "run_state send_msg (wr m n1) = (NMBS_ERROR_NONE, n2)"
      "run_state (recv_read_registers_res q out) n2 = ((NMBS_ERROR_NONE, rs), n')"
      "same_setup n n'" "arg n' = pop (length reply) (push request (arg n))"
    using run_answered [OF n n1(2-6) _ len(1) q(2) len(2)] answer
    unfolding reply_def u_def [symmetric] request by blast
  moreover have "\<not> 125 < q" using q(2) by (simp add: word_less_nat_alt)
  ultimately show ?thesis
    using q n1(1) by (simp add: nmbs_read_holding_registers_def read_registers_def Let_def)
qed

section \<open>The server\<close>

text \<open>The state of a server that has a request's header and waits for its body.\<close>

lemma run_server_header:
  assumes "ready n" and "pending (arg n) = u # f # rest" and "u \<noteq> NMBS_BROADCAST_ADDRESS"
    and "address_rtu n = u"
  shows "run_state (msg_state_reset \<bind> (\<lambda>_. recv_req_header)) n =
    ((NMBS_ERROR_NONE, True), wr [u, f] (fresh u f (n\<lparr>arg := pop 2 (arg n)\<rparr>)))"
proof -
  define m where "m = fresh 0 0 n"
  have "run_state msg_state_reset n = ((), m)"
    by (simp add: msg_state_reset_def msg_buf_reset_def m_def fresh_def)
  moreover have "fresh u f (m\<lparr>arg := a\<rparr>) = fresh u f (n\<lparr>arg := a\<rparr>)" for a
    by (simp add: m_def fresh_def)
  moreover have "ready m" "arg m = arg n" "address_rtu m = address_rtu n"
    using assms(1) by (simp_all add: m_def ready_def)
  ultimately show ?thesis
    using run_recv_req_header [of m u f rest] assms by simp
qed

lemma run_poll_ok:
  assumes "ready n" and "pending (arg n) = u # f # rest" and "u \<noteq> NMBS_BROADCAST_ADDRESS"
    and "address_rtu n = u"
    and "run_state (handle_req_fc cbs) (wr [u, f] (fresh u f (n\<lparr>arg := pop 2 (arg n)\<rparr>))) = (NMBS_ERROR_NONE, n')"
  shows "run_state (nmbs_server_poll cbs) n = (NMBS_ERROR_NONE, n')"
  using run_server_header [OF assms(1-4)] assms(5)
  by (cases "run_state msg_state_reset n") (simp add: nmbs_server_poll_def)

lemma run_get_reg:
  assumes "ready n" and "length cs + 2 + 2 * length rs + length bs \<le> kBufSize"
  shows "run_state get_2 (hold (regs_bytes (r # rs) @ bs) (wr cs (fresh u f (n\<lparr>arg := a\<rparr>)))) =
    (r, hold (regs_bytes rs @ bs) (wr (cs @ regs_bytes [r]) (fresh u f (n\<lparr>arg := a\<rparr>))))"
proof -
  have "fits k (fresh u f (n\<lparr>arg := a\<rparr>)) \<longleftrightarrow> k \<le> kBufSize" for k
    using assms(1) by (auto simp: fits_def ready_def)
  then show ?thesis using assms(2) by (simp add: run_get_2)
qed

text \<open>A callback's answer goes out, from any state whose buffer is whole.\<close>

lemma run_answer:
  assumes "platform n = conf" and "fits 0 n" and "\<not> broadcast n"
    and "cb (unit_id n) (arg n) = (NMBS_ERROR_NONE, regs, a)" and "fine a" and "unat q \<le> length regs" and "unat q \<le> 125"
  defines "reply \<equiv> registers_reply (unit_id n) (fc n) (take (unat q) regs)"
  shows "\<exists>n'. run_state (run_reading_callback cb \<bind> (\<lambda>(err, regs).
        if err \<noteq> NMBS_ERROR_NONE then send_callback_error err
        else unless_broadcast (send_registers q regs))) n = (NMBS_ERROR_NONE, n') \<and>
      run_state (unless_broadcast (run_reading_callback cb \<bind> (\<lambda>(err, regs).
        if err \<noteq> NMBS_ERROR_NONE then send_callback_error err
        else send_registers q regs))) n = (NMBS_ERROR_NONE, n') \<and>
      same_setup n n' \<and> arg n' = push reply a"
proof -
  let ?n = "n\<lparr>arg := a, buf_idx := 0, arg := push reply a\<rparr>"
  have "length reply \<le> kBufSize"
    using assms(6,7) by (simp add: reply_def registers_reply_def adu_def with_crc_def kBufSize_def)
  then have "fits (length reply) ?n" using assms(2) by (auto simp: fits_def)
  then have "same_setup ?n (wr reply ?n)" by (rule same_setup_wr)
  moreover have "run_state (send_registers q regs) (n\<lparr>arg := a\<rparr>) = (NMBS_ERROR_NONE, wr reply ?n)"
    using run_send_registers [of "n\<lparr>arg := a\<rparr>" q regs] assms by simp
  ultimately show ?thesis
    using assms(3,4) by (simp add: run_reading_callback_def unless_broadcast_def same_setup_def)
qed

lemma run_poll_read:
  assumes n: "ready n" "address_rtu n = u" "u \<noteq> NMBS_BROADCAST_ADDRESS"
    and q: "q \<noteq> 0" "unat q \<le> 125" "\<not> past_end a q"
    and cb: "cb_read_holding_registers cbs = Some cb"
  defines "request \<equiv> adu u 3 (regs_bytes [a, q])"
  assumes pend: "pending (arg n) = request"
    and run: "cb a q (replicate 125 0) u (pop (length request) (arg n)) = (NMBS_ERROR_NONE, regs, a')"
    and fine: "fine a'" and len: "unat q \<le> length regs"
  defines "rs \<equiv> take (unat q) regs"
  shows "\<exists>n'. run_state (nmbs_server_poll cbs) n = (NMBS_ERROR_NONE, n') \<and> same_setup n n' \<and>
    arg n' = push (registers_reply u 3 rs) a'"
proof -
  define F where "F x = fresh u 3 (n\<lparr>arg := x\<rparr>)" for x
  define m where "m = [u, 3] @ regs_bytes [a, q]"
  have F: "fits k (F x) \<longleftrightarrow> k \<le> kBufSize" "platform (F x) = conf" "sofar (F x) = []" "arg (F x) = x"
      "\<not> complete (F x)" "byte_timeout_ms (F x) \<noteq> 0" "F x\<lparr>arg := y\<rparr> = F y" "\<not> ignored (F x)"
      "\<not> broadcast (F x)" "fc (F x) = 3" "unit_id (F x) = u" "fine (arg n)" for k x y
    using n by (auto simp: fits_def F_def ready_def)
  have request: "request = with_crc m" by (simp add: request_def adu_def m_def)
  have pend': "pending (arg n) = u # 3 # regs_bytes [a, q] @ regs_bytes [nmbs_crc_calc m]"
    by (simp add: pend request with_crc_def m_def)
  define x where "x = pop (length request) (arg n)"
  have "length request = 8" by (simp add: request with_crc_def m_def)
  then have x8: "x = pop 8 (arg n)" by (simp add: x_def)
  have q125: "\<not> 125 < q" using q(2) by (simp add: word_less_nat_alt)
  have body: "run_state (recv 4) (wr [u, 3] (F (pop 2 (arg n)))) =
      (NMBS_ERROR_NONE, hold (regs_bytes [a, q] @ []) (wr [u, 3] (F (pop 6 (arg n)))))"
    using run_recv_list [of "wr [u, 3] (F (pop 2 (arg n)))" "regs_bytes [a, q]" _ 4] F pend'
    by (simp add: kBufSize_def)
  have g1: "run_state get_2 (hold (regs_bytes [a, q] @ []) (wr [u, 3] (F y))) =
      (a, hold (regs_bytes [q] @ []) (wr ([u, 3] @ regs_bytes [a]) (F y)))" for y
    unfolding F_def by (rule run_get_reg [OF n(1)]) (simp add: kBufSize_def)
  have g2: "run_state get_2 (hold (regs_bytes [q] @ []) (wr ([u, 3] @ regs_bytes [a]) (F y))) =
      (q, wr m (F y))" for y
    using run_get_reg [OF n(1), of "[u, 3] @ regs_bytes [a]" "[]" "[]" q u 3 y]
    by (simp add: F_def m_def kBufSize_def)
  have foot: "run_state recv_msg_footer (wr m (F (pop 6 (arg n)))) = (NMBS_ERROR_NONE, wr request (F x))"
    using run_footer [of "wr m (F (pop 6 (arg n)))" "[]"] F pend'
    unfolding x8 by (simp add: m_def kBufSize_def request with_crc_def)
  have "fits 0 (wr request (F x))" by (simp add: F request with_crc_def m_def kBufSize_def)
  then obtain n' where n': "run_state (run_reading_callback (cb a q (replicate 125 0)) \<bind> (\<lambda>(err, regs).
        if err \<noteq> NMBS_ERROR_NONE then send_callback_error err
        else unless_broadcast (send_registers q regs))) (wr request (F x)) = (NMBS_ERROR_NONE, n')"
      "same_setup (wr request (F x)) n'" "arg n' = push (registers_reply u 3 rs) a'"
    using run_answer [of "wr request (F x)" "cb a q (replicate 125 0)" regs a' q] run fine len q F
    by (auto simp: x_def rs_def)
  have "length request \<le> kBufSize" by (simp add: request with_crc_def m_def kBufSize_def)
  then have "same_setup (F x) (wr request (F x))" by (intro same_setup_wr) (simp add: F)
  with n'(2) have "same_setup n n'" by (auto simp: same_setup_def F_def)
  moreover have "run_state (nmbs_server_poll cbs) n = (NMBS_ERROR_NONE, n')"
  proof (rule run_poll_ok [OF n(1) _ n(3,2)])
    show "pending (arg n) = u # 3 # regs_bytes [a, q] @ regs_bytes [nmbs_crc_calc m]" by (rule pend')
    show "run_state (handle_req_fc cbs) (wr [u, 3] (fresh u 3 (n\<lparr>arg := pop 2 (arg n)\<rparr>))) = (NMBS_ERROR_NONE, n')"
      using body g1 g2 foot n' q(1,3) q125 F cb unfolding F_def [symmetric]
      by (simp add: handle_req_fc_def handle_read_registers_def on_ok_def)
  qed
  ultimately show ?thesis using n'(3) by blast
qed

lemma run_poll_read_write:
  assumes n: "ready n" "address_rtu n = u" "u \<noteq> NMBS_BROADCAST_ADDRESS"
    and rq: "rq \<noteq> 0" "unat rq \<le> 125" "\<not> past_end ra rq"
    and wq: "wq \<noteq> 0" "unat wq \<le> 121" "\<not> past_end wa wq" "length ws = unat wq"
    and cb: "cb_read_holding_registers cbs = Some cbr" "cb_write_multiple_registers cbs = Some cbw"
  defines "request \<equiv> adu u 23 (regs_bytes [ra, rq, wa, wq] @ [of_nat (2 * length ws)] @ regs_bytes ws)"
  assumes pend: "pending (arg n) = request"
    and written: "cbw wa wq ws u (pop (length request) (arg n)) = (NMBS_ERROR_NONE, aw)"
    and read: "cbr ra rq (replicate (unat rq) 0) u aw = (NMBS_ERROR_NONE, rs, a')"
    and fine: "fine a'" and len: "length rs = unat rq"
  shows "\<exists>n'. run_state (nmbs_server_poll cbs) n = (NMBS_ERROR_NONE, n') \<and> same_setup n n' \<and>
    arg n' = push (registers_reply u 23 rs) a'"
proof -
  define F where "F x = fresh u 23 (n\<lparr>arg := x\<rparr>)" for x
  define b :: u8 where "b = of_nat (2 * length ws)"
  define h where "h = [u, 23] @ regs_bytes [ra, rq, wa, wq]"
  define m where "m = h @ [b] @ regs_bytes ws"
  define x where "x = pop (length request) (arg n)"
  have F: "fits k (F x) \<longleftrightarrow> k \<le> kBufSize" "platform (F x) = conf" "sofar (F x) = []" "arg (F x) = x"
      "\<not> complete (F x)" "byte_timeout_ms (F x) \<noteq> 0" "F x\<lparr>arg := y\<rparr> = F y" "\<not> ignored (F x)"
      "\<not> broadcast (F x)" "fc (F x) = 23" "unit_id (F x) = u" "fine (arg n)" for k x y
    using n by (auto simp: fits_def F_def ready_def)
  have request: "request = with_crc m" by (simp add: request_def adu_def m_def h_def b_def)
  have lm: "length h = 10" "length m = 11 + 2 * unat wq" using wq by (simp_all add: m_def h_def)
  have lr: "length request = 13 + 2 * unat wq" by (simp add: request with_crc_def lm)
  have pend': "pending (arg n) = h @ [b] @ regs_bytes ws @ regs_bytes [nmbs_crc_calc m]"
    by (simp add: pend request with_crc_def m_def)
  have b: "unat b = 2 * unat wq" unfolding b_def wq(4) using wq(2) by (intro unat_byte) simp
  have body: "run_state (recv 9) (wr [u, 23] (F (pop 2 (arg n)))) =
      (NMBS_ERROR_NONE, hold (regs_bytes [ra, rq, wa, wq] @ [b]) (wr [u, 23] (F (pop 11 (arg n)))))"
    using run_recv_list [of "wr [u, 23] (F (pop 2 (arg n)))" "regs_bytes [ra, rq, wa, wq] @ [b]" _ 9] F pend'
    by (simp add: kBufSize_def h_def)
  note get = run_get_reg [OF n(1), of _ _ "[b]" _ u 23, folded F_def]
  have g1: "run_state get_2 (hold (regs_bytes [ra, rq, wa, wq] @ [b]) (wr [u, 23] (F y))) =
      (ra, hold (regs_bytes [rq, wa, wq] @ [b]) (wr ([u, 23] @ regs_bytes [ra]) (F y)))" for y
    by (rule get) (simp add: kBufSize_def)
  have g2: "run_state get_2 (hold (regs_bytes [rq, wa, wq] @ [b]) (wr ([u, 23] @ regs_bytes [ra]) (F y))) =
      (rq, hold (regs_bytes [wa, wq] @ [b]) (wr ([u, 23] @ regs_bytes [ra, rq]) (F y)))" for y
    using get [of "[u, 23] @ regs_bytes [ra]" "[wa, wq]" rq y] by (simp add: kBufSize_def)
  have g3: "run_state get_2 (hold (regs_bytes [wa, wq] @ [b]) (wr ([u, 23] @ regs_bytes [ra, rq]) (F y))) =
      (wa, hold (regs_bytes [wq] @ [b]) (wr ([u, 23] @ regs_bytes [ra, rq, wa]) (F y)))" for y
    using get [of "[u, 23] @ regs_bytes [ra, rq]" "[wq]" wa y] by (simp add: kBufSize_def)
  have g4: "run_state get_2 (hold (regs_bytes [wq] @ [b]) (wr ([u, 23] @ regs_bytes [ra, rq, wa]) (F y))) =
      (wq, hold [b] (wr h (F y)))" for y
    using get [of "[u, 23] @ regs_bytes [ra, rq, wa]" "[]" wq y] by (simp add: kBufSize_def h_def)
  have g5: "run_state get_1 (hold [b] (wr h (F y))) = (b, wr (h @ [b]) (F y))" for y
    using run_get_1 [of "[]" "wr h (F y)" b] F lm by (simp add: kBufSize_def)
  have dat: "run_state (recv (2 * unat wq)) (wr (h @ [b]) (F (pop 11 (arg n)))) =
      (NMBS_ERROR_NONE, hold (regs_bytes ws) (wr (h @ [b]) (F (pop (11 + 2 * unat wq) (arg n)))))"
    using run_recv_list [of "wr (h @ [b]) (F (pop 11 (arg n)))" "regs_bytes ws" _ "2 * unat wq"] F pend' lm wq
    by (simp add: kBufSize_def)
  have g6: "run_state (get_2s (unat wq)) (hold (regs_bytes ws) (wr (h @ [b]) (F y))) = (ws, wr m (F y))" for y
    using run_get_2s [OF _ wq(4) [symmetric], of "[]" "wr (h @ [b]) (F y)"] F wq lm by (simp add: kBufSize_def m_def)
  have "drop (11 + 2 * unat wq) (pending (arg n)) = regs_bytes [nmbs_crc_calc m]"
    using pend lm(2) by (simp add: request with_crc_def)
  then have foot: "run_state recv_msg_footer (wr m (F (pop (11 + 2 * unat wq) (arg n)))) =
      (NMBS_ERROR_NONE, wr request (F x))"
    using run_footer [of "wr m (F (pop (11 + 2 * unat wq) (arg n)))" "[]"] F lm wq lr
    by (simp add: kBufSize_def request with_crc_def x_def add.commute)
  have fr: "length request \<le> kBufSize" using lr wq by (simp add: kBufSize_def)
  have w: "run_state (run_callback (cbw wa wq ws)) (wr request (F x)) = (NMBS_ERROR_NONE, wr request (F aw))"
    using written F by (simp add: run_callback_def x_def)
  obtain n' where n': "run_state (unless_broadcast (run_reading_callback (cbr ra rq (replicate (unat rq) 0)) \<bind>
        (\<lambda>(err, regs). if err \<noteq> NMBS_ERROR_NONE then send_callback_error err
          else send_registers rq regs))) (wr request (F aw)) = (NMBS_ERROR_NONE, n')"
      "same_setup (wr request (F aw)) n'" "arg n' = push (registers_reply u 23 rs) a'"
    using run_answer [of "wr request (F aw)" "cbr ra rq (replicate (unat rq) 0)" rs a' rq] read fine len rq F fr
    by auto
  have "same_setup (F aw) (wr request (F aw))" by (intro same_setup_wr) (simp add: F fr)
  with n'(2) have "same_setup n n'" by (auto simp: same_setup_def F_def)
  moreover have "run_state (nmbs_server_poll cbs) n = (NMBS_ERROR_NONE, n')"
  proof (rule run_poll_ok [OF n(1) _ n(3,2)])
    show "pending (arg n) = u # 23 # tl (tl (pending (arg n)))" using pend' by (simp add: h_def)
    have "\<not> 125 < rq" "\<not> 123 < wq" "\<not> 242 < b" using rq(2) wq(2) b by (simp_all add: word_less_nat_alt)
    then show "run_state (handle_req_fc cbs) (wr [u, 23] (fresh u 23 (n\<lparr>arg := pop 2 (arg n)\<rparr>))) =
        (NMBS_ERROR_NONE, n')"
      using body g1 g2 g3 g4 g5 dat g6 foot w n'(1) rq(1,3) wq(1,3) b F cb unfolding F_def [symmetric]
      by (simp add: handle_req_fc_def handle_read_write_registers_def on_ok_def)
  qed
  ultimately show ?thesis using n'(3) by blast
qed

end

end
