(* ===== verification/ModbusClient.thy ===== *)
theory ModbusClient
  imports NanoClient Command Status
begin

text \<open>
  \<open>src/modbus_client.cpp\<close>: the client of the serial interface. A \<open>Serial\<close> is a record of
  operations on a state of its own, each one the virtual function of \<open>serial.hpp\<close> that the
  client calls; the two callbacks turn its exceptions into the results nanomodbus expects,
  and \<open>check\<close> turns the errors of nanomodbus into exceptions.
\<close>

section \<open>The serial interface\<close>

record 's serial_ops =
  s_open :: "'s \<Rightarrow> (exc + unit) \<times> 's"
  s_isOpen :: "'s \<Rightarrow> bool"
  s_read :: "nat \<Rightarrow> millis \<Rightarrow> 's \<Rightarrow> (exc + u8 list) \<times> 's"
  s_write :: "u8 list \<Rightarrow> 's \<Rightarrow> (exc + unit) \<times> 's"
  s_getTimeout :: "'s \<Rightarrow> millis"

record 's CallbackContext =
  serial :: 's
  logger :: "log_line list"

type_synonym 's modbus_client = "'s CallbackContext nmbs_t"

definition kByteTimeoutMs :: int where "kByteTimeoutMs = 50"

definition context_log :: "string \<Rightarrow> 's CallbackContext \<Rightarrow> 's CallbackContext" where
  "context_log msg ctx = ctx\<lparr>logger := logger ctx @ [(Error, msg)]\<rparr>"

text \<open>The two handlers of a caught exception: \<open>what()\<close> where there is one.\<close>

fun failure_line :: "string \<Rightarrow> exc \<Rightarrow> string" where
  "failure_line access UnknownException = access @ '' failed with an unknown exception''"
| "failure_line access e = access @ '' failed: '' @ exc_what e"

definition readSerial ::
  "'s serial_ops \<Rightarrow> nat \<Rightarrow> int \<Rightarrow> 's CallbackContext \<Rightarrow> int \<times> u8 list \<times> 's CallbackContext" where
  "readSerial ops count byteTimeoutMs ctx =
     (case s_read ops count byteTimeoutMs (serial ctx) of
        (Inr data, s) \<Rightarrow>
          let ctx = ctx\<lparr>serial := s\<rparr>;
              received = min (length data) count;
              ctx = (if received \<noteq> length data
                     then context_log (''serial read returned '' @ to_string (length data)
                            @ '' bytes for a request of '' @ to_string count @ ''; ignoring the excess'') ctx
                     else ctx)
          in (int received, take received data, ctx)
      | (Inl e, s) \<Rightarrow> (-1, [], context_log (failure_line ''serial read'' e) (ctx\<lparr>serial := s\<rparr>)))"

definition writeSerial ::
  "'s serial_ops \<Rightarrow> u8 list \<Rightarrow> int \<Rightarrow> 's CallbackContext \<Rightarrow> int \<times> 's CallbackContext" where
  "writeSerial ops bytes byteTimeoutMs ctx =
     (case s_write ops bytes (serial ctx) of
        (Inr u, s) \<Rightarrow> (int (length bytes), ctx\<lparr>serial := s\<rparr>)
      | (Inl e, s) \<Rightarrow> (-1, context_log (failure_line ''serial write'' e) (ctx\<lparr>serial := s\<rparr>)))"

text \<open>\<open>check(err, context)\<close>, with the value the caller goes on to return.\<close>

definition nmbs_check :: "nmbs_error \<Rightarrow> string \<Rightarrow> 'a \<Rightarrow> exc + 'a" where
  "nmbs_check err context v =
     (if err \<noteq> NMBS_ERROR_NONE
      then Inl (DriverException (context @ '' failed: '' @ nmbs_strerror err)) else Inr v)"

section \<open>The client\<close>

definition serial_conf :: "'s serial_ops \<Rightarrow> 's CallbackContext platform_conf" where
  "serial_conf ops =
     \<lparr>transport = NMBS_TRANSPORT_RTU, pread = readSerial ops, pwrite = writeSerial ops\<rparr>"

text \<open>A conversion to \<open>int32_t\<close>.\<close>

definition to_i32 :: "int \<Rightarrow> int" where
  "to_i32 n = sint (word_of_int n :: u32)"

definition GripperModbusClient_create ::
  "'s serial_ops \<Rightarrow> 's \<Rightarrow> u8 \<Rightarrow> (exc + 's modbus_client)" where
  "GripperModbusClient_create ops s slaveAddress =
     (case (if \<not> s_isOpen ops s then s_open ops s else (Inr (), s)) of
        (Inl e, s) \<Rightarrow> Inl e
      | (Inr u, s) \<Rightarrow>
          let n = nmbs_create (serial_conf ops) \<lparr>serial = s, logger = []\<rparr>;
              n = nmbs_set_read_timeout (to_i32 (s_getTimeout ops s)) n;
              n = nmbs_set_byte_timeout kByteTimeoutMs n
          in Inr (nmbs_set_destination_rtu_address slaveAddress n))"

definition client_readStatus :: "'s modbus_client \<Rightarrow> (exc + GripperStatus) \<times> 's modbus_client" where
  "client_readStatus n =
     (let ((err, registers), n) =
        run_state (nmbs_read_holding_registers kStatusAddress (of_nat kStatusRegisterCount)
                     (replicate kStatusRegisterCount 0)) n
      in (nmbs_check err ''readStatus''
            (status_overlay (bytesFromRegisters registers (status_data GripperStatus_init))), n))"

definition client_writeCommand :: "'s modbus_client \<Rightarrow> GripperCommand \<Rightarrow> (exc + unit) \<times> 's modbus_client" where
  "client_writeCommand n command =
     (let (err, n) =
        run_state (nmbs_write_multiple_registers kCommandAddress (of_nat kCommandRegisterCount)
                     (registersFromBytes kCommandRegisterCount (command_data command))) n
      in (nmbs_check err ''writeCommand'' (), n))"

definition client_exchange ::
  "'s modbus_client \<Rightarrow> GripperCommand \<Rightarrow> (exc + GripperStatus) \<times> 's modbus_client" where
  "client_exchange n command =
     (let commandRegisters = registersFromBytes kCommandRegisterCount (command_data command);
          ((err, statusRegisters), n) =
        run_state (nmbs_read_write_registers kStatusAddress (of_nat kStatusRegisterCount)
                     (replicate kStatusRegisterCount 0)
                     kCommandAddress (of_nat kCommandRegisterCount) commandRegisters) n
      in (nmbs_check err ''exchange''
            (status_overlay (bytesFromRegisters statusRegisters (status_data GripperStatus_init))), n))"

end
