(* ===== verification/FakeServer.thy ===== *)
theory FakeServer
  imports NanoServer ModbusClient RegisterModel
begin

text \<open>
  The fake gripper as a Modbus server (\<open>src/fake/gripper_server.cpp\<close>) and the serial that
  leads to it (\<open>src/fake/gripper_serial.cpp\<close>). The server's state is the nanomodbus instance
  whose user argument is the \<open>Impl\<close>: the device and the two byte queues. A write hands the
  bytes over and polls the server, all within the call; a read takes from the reply.
\<close>

section \<open>The server\<close>

record Impl =
  impl_model :: RegisterModel
  fromClient :: "u8 list"
  toClient :: "u8 list"

type_synonym GripperServer = "Impl nmbs_t"

definition readFromClient :: "nat \<Rightarrow> int \<Rightarrow> Impl \<Rightarrow> int \<times> u8 list \<times> Impl" where
  "readFromClient count timeout impl =
     (let available = min count (length (fromClient impl))
      in (int available, take available (fromClient impl),
          impl\<lparr>fromClient := drop available (fromClient impl)\<rparr>))"

definition writeToClient :: "u8 list \<Rightarrow> int \<Rightarrow> Impl \<Rightarrow> int \<times> Impl" where
  "writeToClient bytes timeout impl = (int (length bytes), impl\<lparr>toClient := toClient impl @ bytes\<rparr>)"

definition onReadHoldingRegisters ::
  "u16 \<Rightarrow> u16 \<Rightarrow> u16 list \<Rightarrow> u8 \<Rightarrow> Impl \<Rightarrow> nmbs_error \<times> u16 list \<times> Impl" where
  "onReadHoldingRegisters address quantity registersOut unitId impl =
     (if \<not> containsRange address quantity then (NMBS_EXCEPTION_ILLEGAL_DATA_ADDRESS, registersOut, impl)
      else let (regs, m) = model_read (impl_model impl) address quantity registersOut
           in (NMBS_ERROR_NONE, regs, impl\<lparr>impl_model := m\<rparr>))"

definition onWriteMultipleRegisters ::
  "u16 \<Rightarrow> u16 \<Rightarrow> u16 list \<Rightarrow> u8 \<Rightarrow> Impl \<Rightarrow> nmbs_error \<times> Impl" where
  "onWriteMultipleRegisters address quantity values unitId impl =
     (if \<not> containsRange address quantity then (NMBS_EXCEPTION_ILLEGAL_DATA_ADDRESS, impl)
      else (NMBS_ERROR_NONE, impl\<lparr>impl_model := model_write (impl_model impl) address quantity values\<rparr>))"

definition fake_conf :: "Impl platform_conf" where
  "fake_conf = \<lparr>transport = NMBS_TRANSPORT_RTU, pread = readFromClient, pwrite = writeToClient\<rparr>"

definition fake_callbacks :: "Impl nmbs_callbacks" where
  "fake_callbacks =
     nmbs_callbacks_create\<lparr>cb_read_holding_registers := Some onReadHoldingRegisters,
       cb_write_multiple_registers := Some onWriteMultipleRegisters\<rparr>"

definition GripperServer_create :: "RegisterModel \<Rightarrow> u8 \<Rightarrow> exc + GripperServer" where
  "GripperServer_create model slaveAddress =
     (case nmbs_server_create slaveAddress fake_conf \<lparr>impl_model = model, fromClient = [], toClient = []\<rparr> of
        None \<Rightarrow> Inl (DriverException (''creating the fake gripper's Modbus server failed: ''
                       @ nmbs_strerror NMBS_ERROR_INVALID_ARGUMENT))
      | Some server \<Rightarrow> Inr (nmbs_set_byte_timeout 10 (nmbs_set_read_timeout 10 server)))"

text \<open>\<open>deliver\<close> ignores what \<open>nmbs_server_poll\<close> returns.\<close>

definition deliver :: "u8 list \<Rightarrow> GripperServer \<Rightarrow> GripperServer" where
  "deliver request server =
     snd (run_state (nmbs_server_poll fake_callbacks)
       (server\<lparr>arg := (arg server)\<lparr>fromClient := fromClient (arg server) @ request\<rparr>\<rparr>))"

definition drain :: "nat \<Rightarrow> GripperServer \<Rightarrow> u8 list \<times> GripperServer" where
  "drain mx server =
     (let count = min mx (length (toClient (arg server)))
      in (take count (toClient (arg server)),
          server\<lparr>arg := (arg server)\<lparr>toClient := drop count (toClient (arg server))\<rparr>\<rparr>))"

definition discardPendingReply :: "GripperServer \<Rightarrow> GripperServer" where
  "discardPendingReply server = server\<lparr>arg := (arg server)\<lparr>toClient := []\<rparr>\<rparr>"

section \<open>The serial\<close>

record GripperSerial =
  serial_open :: bool
  gripperServer :: GripperServer

definition GripperSerial_create :: "GripperServer \<Rightarrow> GripperSerial" where
  "GripperSerial_create server = \<lparr>serial_open = False, gripperServer = server\<rparr>"

definition GripperSerial_open :: "GripperSerial \<Rightarrow> (exc + unit) \<times> GripperSerial" where
  "GripperSerial_open s = (Inr (), s\<lparr>serial_open := True\<rparr>)"

definition GripperSerial_close :: "GripperSerial \<Rightarrow> GripperSerial" where
  "GripperSerial_close s = s\<lparr>serial_open := False\<rparr>"

definition GripperSerial_read :: "nat \<Rightarrow> millis \<Rightarrow> GripperSerial \<Rightarrow> (exc + u8 list) \<times> GripperSerial" where
  "GripperSerial_read sz timeout s =
     (if timeout = 0 then (Inr [], s)
      else let (data, server) = drain sz (gripperServer s) in (Inr data, s\<lparr>gripperServer := server\<rparr>))"

definition GripperSerial_write :: "u8 list \<Rightarrow> GripperSerial \<Rightarrow> (exc + unit) \<times> GripperSerial" where
  "GripperSerial_write data s = (Inr (), s\<lparr>gripperServer := deliver data (gripperServer s)\<rparr>)"

definition GripperSerial_getTimeout :: "GripperSerial \<Rightarrow> millis" where
  "GripperSerial_getTimeout s = 100"

definition fake_serial :: "GripperSerial serial_ops" where
  "fake_serial =
     \<lparr>s_open = GripperSerial_open, s_isOpen = serial_open, s_read = GripperSerial_read,
      s_write = GripperSerial_write, s_getTimeout = GripperSerial_getTimeout\<rparr>"

text \<open>What \<open>makeFakeGripper\<close> puts behind the driver.\<close>

definition fake_client :: "RegisterModel \<Rightarrow> u8 \<Rightarrow> exc + GripperSerial modbus_client" where
  "fake_client model slaveAddress =
     (case GripperServer_create model slaveAddress of
        Inl e \<Rightarrow> Inl e
      | Inr server \<Rightarrow> GripperModbusClient_create fake_serial (GripperSerial_create server) slaveAddress)"

end
