(* ===== verification/FakeLink.thy ===== *)
theory FakeLink
  imports NanoFrames FakeServer Device
begin

text \<open>
  The whole path of an exchange with the fake gripper: the driver's client, the serial, the
  nanomodbus server and the device, down to the bytes. Both ends are interpretations of
  \<open>byte_queue\<close>; the result is that one exchange over the bytes is one \<open>device_exchange\<close>.
\<close>

section \<open>The two ends of the wire\<close>

interpretation server: byte_queue fake_conf "\<lambda>a. True" fromClient
    "\<lambda>c a. a\<lparr>fromClient := drop c (fromClient a)\<rparr>" "\<lambda>bs a. a\<lparr>toClient := toClient a @ bs\<rparr>"
  by unfold_locales
    (auto simp: fake_conf_def readFromClient_def writeToClient_def Let_def add.commute)

text \<open>Whatever the serial returns, the callback hands on no more than was asked for.\<close>

interpretation serial_port: polite_port "serial_conf ops" for ops :: "'s serial_ops"
  by unfold_locales
    (auto simp: serial_conf_def readSerial_def Let_def split: prod.splits sum.splits)

definition reply_bytes :: "GripperSerial CallbackContext \<Rightarrow> u8 list" where
  "reply_bytes ctx = toClient (arg (gripperServer (serial ctx)))"

definition take_reply :: "nat \<Rightarrow> GripperSerial CallbackContext \<Rightarrow> GripperSerial CallbackContext" where
  "take_reply c ctx = ctx\<lparr>serial := (serial ctx)\<lparr>gripperServer := (gripperServer (serial ctx))
     \<lparr>arg := (arg (gripperServer (serial ctx)))\<lparr>toClient := drop c (reply_bytes ctx)\<rparr>\<rparr>\<rparr>\<rparr>"

definition hand_over :: "u8 list \<Rightarrow> GripperSerial CallbackContext \<Rightarrow> GripperSerial CallbackContext" where
  "hand_over bs ctx = ctx\<lparr>serial := (serial ctx)\<lparr>gripperServer := deliver bs (gripperServer (serial ctx))\<rparr>\<rparr>"

interpretation client: byte_queue "serial_conf fake_serial" "\<lambda>ctx. True" reply_bytes take_reply hand_over
  by unfold_locales
    (auto simp: serial_conf_def readSerial_def fake_serial_def GripperSerial_read_def drain_def
      writeSerial_def GripperSerial_write_def reply_bytes_def take_reply_def hand_over_def Let_def add.commute)


section \<open>One exchange\<close>

definition fake_server :: "GripperSerial modbus_client \<Rightarrow> GripperServer" where
  "fake_server n = gripperServer (serial (arg n))"

definition fake_model :: "GripperSerial modbus_client \<Rightarrow> RegisterModel" where
  "fake_model n = impl_model (arg (fake_server n))"

text \<open>Between two transactions: both ends set up for the same address, nothing in flight.\<close>

definition fake_idle :: "GripperSerial modbus_client \<Rightarrow> bool" where
  "fake_idle n \<longleftrightarrow> client.ready n \<and> server.ready (fake_server n) \<and> dest_address_rtu n \<noteq> 0 \<and>
     address_rtu (fake_server n) = dest_address_rtu n \<and>
     fromClient (arg (fake_server n)) = [] \<and> toClient (arg (fake_server n)) = []"

lemma hand_over_server [simp]:
  "gripperServer (serial (hand_over bs ctx)) = deliver bs (gripperServer (serial ctx))"
  "gripperServer (serial (take_reply c ctx)) = (gripperServer (serial ctx))
     \<lparr>arg := (arg (gripperServer (serial ctx)))\<lparr>toClient := drop c (toClient (arg (gripperServer (serial ctx))))\<rparr>\<rparr>"
  by (simp_all add: hand_over_def take_reply_def reply_bytes_def)

lemma server_ready_arg: "server.ready (s\<lparr>arg := a\<rparr>) \<longleftrightarrow> server.ready s"
  by (simp add: server.ready_def)

lemma quiet_flush:
  "\<exists>r. pread (serial_conf fake_serial) kBufSize 0 ctx = (r, [], ctx)"
  by (simp add: serial_conf_def readSerial_def fake_serial_def GripperSerial_read_def)

lemma fake_callbacks_simps [simp]:
  "cb_read_holding_registers fake_callbacks = Some onReadHoldingRegisters"
  "cb_write_multiple_registers fake_callbacks = Some onWriteMultipleRegisters"
  by (simp_all add: fake_callbacks_def nmbs_callbacks_create_def)

lemma register_ranges:
  "(of_nat kStatusRegisterCount :: u16) \<noteq> 0" "unat (of_nat kStatusRegisterCount :: u16) = kStatusRegisterCount"
  "(of_nat kCommandRegisterCount :: u16) \<noteq> 0" "unat (of_nat kCommandRegisterCount :: u16) = kCommandRegisterCount"
  "kStatusRegisterCount = 3" "kCommandRegisterCount = 3"
  "\<not> past_end kStatusAddress (of_nat kStatusRegisterCount)"
  "\<not> past_end kCommandAddress (of_nat kCommandRegisterCount)"
  "\<not> past_end kStatusAddress 3" "\<not> past_end kCommandAddress 3"
  by (simp_all add: model_consts past_end_def)

text \<open>What the server does with the exchange's request: the device's exchange, and its answer sent.\<close>

lemma deliver_exchange:
  fixes s :: GripperServer and m :: RegisterModel
  defines "m \<equiv> impl_model (arg s)"
  assumes s: "server.ready s" "address_rtu s = u" "u \<noteq> 0" "fromClient (arg s) = []" "toClient (arg s) = []"
    and ws: "length ws = kCommandRegisterCount"
  defines "request \<equiv> adu u 23 (regs_bytes [kStatusAddress, of_nat kStatusRegisterCount, kCommandAddress,
        of_nat kCommandRegisterCount] @ [of_nat (2 * length ws)] @ regs_bytes ws)"
    and "m' \<equiv> model_write m kCommandAddress (of_nat kCommandRegisterCount) ws"
  defines "rs \<equiv> fst (model_read m' kStatusAddress (of_nat kStatusRegisterCount) (replicate kStatusRegisterCount 0))"
  shows "\<exists>s'. deliver request s = s' \<and> server.same_setup s s' \<and>
    arg s' = \<lparr>impl_model = m', fromClient = [], toClient = registers_reply u 23 rs\<rparr>"
proof -
  define s0 where "s0 = s\<lparr>arg := (arg s)\<lparr>fromClient := fromClient (arg s) @ request\<rparr>\<rparr>"
  define a1 where "a1 = \<lparr>impl_model = m', fromClient = [], toClient = []\<rparr>"
  have ready0: "server.ready s0" "address_rtu s0 = u" "fromClient (arg s0) = request"
    using s by (simp_all add: s0_def server_ready_arg)
  have arg0: "(arg s0)\<lparr>fromClient := drop (length request) (fromClient (arg s0))\<rparr> =
      \<lparr>impl_model = m, fromClient = [], toClient = []\<rparr>"
    using s by (cases "arg s") (simp add: s0_def m_def)
  have rs: "length rs = kStatusRegisterCount"
    by (simp add: rs_def status_block_read)
  have written: "onWriteMultipleRegisters kCommandAddress (of_nat kCommandRegisterCount) ws u
      \<lparr>impl_model = m, fromClient = [], toClient = []\<rparr> = (NMBS_ERROR_NONE, a1)"
    by (simp add: onWriteMultipleRegisters_def a1_def m'_def)
  have read: "onReadHoldingRegisters kStatusAddress (of_nat kStatusRegisterCount)
      (replicate kStatusRegisterCount 0) u a1 = (NMBS_ERROR_NONE, rs, a1)"
    by (simp add: onReadHoldingRegisters_def a1_def rs_def status_block_read)
  have "\<exists>s'. run_state (nmbs_server_poll fake_callbacks) s0 = (NMBS_ERROR_NONE, s') \<and>
      server.same_setup s0 s' \<and> arg s' = a1\<lparr>toClient := toClient a1 @ registers_reply u 23 rs\<rparr>"
    using ready0(3) s(3) ws written read arg0 rs
    by (intro server.run_poll_read_write [OF ready0(1,2), where rq = "of_nat kStatusRegisterCount"
          and ra = kStatusAddress and wq = "of_nat kCommandRegisterCount" and wa = kCommandAddress
          and ws = ws and cbr = onReadHoldingRegisters and cbw = onWriteMultipleRegisters and aw = a1])
       (simp_all add: register_ranges request_def NMBS_BROADCAST_ADDRESS_def)
  then obtain s' where s': "run_state (nmbs_server_poll fake_callbacks) s0 = (NMBS_ERROR_NONE, s')"
      "server.same_setup s0 s'" "arg s' = a1\<lparr>toClient := toClient a1 @ registers_reply u 23 rs\<rparr>"
    by blast
  have "deliver request s = s'" using s'(1) by (simp add: deliver_def s0_def)
  moreover have "server.same_setup s s'" using s'(2) by (simp add: s0_def server.same_setup_def)
  ultimately show ?thesis using s'(3) by (simp add: a1_def)
qed

lemma deliver_read:
  fixes s :: GripperServer
  assumes s: "server.ready s" "address_rtu s = u" "u \<noteq> 0" "fromClient (arg s) = []" "toClient (arg s) = []"
  defines "rs \<equiv> fst (model_read (impl_model (arg s)) kStatusAddress (of_nat kStatusRegisterCount)
      (replicate kStatusRegisterCount 0))"
  shows "\<exists>s'. deliver (adu u 3 (regs_bytes [kStatusAddress, of_nat kStatusRegisterCount])) s = s' \<and>
    server.same_setup s s' \<and>
    arg s' = \<lparr>impl_model = impl_model (arg s), fromClient = [], toClient = registers_reply u 3 rs\<rparr>"
proof -
  define request where "request = adu u 3 (regs_bytes [kStatusAddress, of_nat kStatusRegisterCount])"
  define s0 where "s0 = s\<lparr>arg := (arg s)\<lparr>fromClient := fromClient (arg s) @ request\<rparr>\<rparr>"
  define a1 where "a1 = \<lparr>impl_model = impl_model (arg s), fromClient = [], toClient = []\<rparr>"
  have ready0: "server.ready s0" "address_rtu s0 = u" "fromClient (arg s0) = request"
    using s by (simp_all add: s0_def server_ready_arg)
  have arg0: "(arg s0)\<lparr>fromClient := []\<rparr> = a1"
    using s by (cases "arg s") (simp add: s0_def a1_def)
  define regs where "regs = fst (model_read (impl_model (arg s)) kStatusAddress (of_nat kStatusRegisterCount)
      (replicate 125 0))"
  have rs: "take 3 regs = rs" "3 \<le> length regs"
    by (simp_all add: regs_def rs_def model_read_def register_ranges)
  have read: "onReadHoldingRegisters kStatusAddress 3 (replicate 125 0) u a1 = (NMBS_ERROR_NONE, regs, a1)"
    using block_ranges(1) by (simp add: onReadHoldingRegisters_def a1_def regs_def model_read_def register_ranges)
  have "\<exists>s'. run_state (nmbs_server_poll fake_callbacks) s0 = (NMBS_ERROR_NONE, s') \<and>
      server.same_setup s0 s' \<and> arg s' = a1\<lparr>toClient := toClient a1 @ registers_reply u 3 (take 3 regs)\<rparr>"
    using ready0(3) s(3) read arg0 rs
      server.run_poll_read [OF ready0(1,2), where q = 3 and a = kStatusAddress and cb = onReadHoldingRegisters
        and cbs = fake_callbacks and regs = regs and a' = a1]
    by (simp add: register_ranges request_def NMBS_BROADCAST_ADDRESS_def)
  then obtain s' where s': "run_state (nmbs_server_poll fake_callbacks) s0 = (NMBS_ERROR_NONE, s')"
      "server.same_setup s0 s'" "arg s' = a1\<lparr>toClient := toClient a1 @ registers_reply u 3 rs\<rparr>"
    unfolding rs by blast
  have "deliver request s = s'" using s'(1) by (simp add: deliver_def s0_def)
  moreover have "server.same_setup s s'" using s'(2) by (simp add: s0_def server.same_setup_def)
  ultimately show ?thesis using s'(3) by (simp add: a1_def request_def)
qed

text \<open>A whole transaction: the request handed over, the reply taken, both ends idle again.\<close>

lemma fake_idle_after:
  assumes n: "fake_idle n" and same: "client.same_setup n n'"
    and s': "server.same_setup (fake_server n) s'"
      "arg s' = \<lparr>impl_model = m', fromClient = [], toClient = reply\<rparr>"
    and out: "deliver request (fake_server n) = s'"
    and arg: "arg n' = take_reply (length reply) (hand_over request (arg n))"
  shows "fake_idle n' \<and> fake_model n' = m' \<and> logger (arg n') = logger (arg n)"
proof -
  have server: "fake_server n' = s'\<lparr>arg := (arg s')\<lparr>toClient := []\<rparr>\<rparr>"
    using out s'(2) by (simp add: fake_server_def arg)
  have "server.ready s'"
    using n s'(1) unfolding fake_idle_def by (blast intro: server.ready_same_setup)
  moreover have "client.ready n'"
    using n same unfolding fake_idle_def by (blast intro: client.ready_same_setup)
  ultimately show ?thesis
    using n same s' unfolding fake_idle_def server fake_model_def
    by (simp add: server_ready_arg server.same_setup_def client.same_setup_def arg take_reply_def hand_over_def)
qed

lemma status_of_slice:
  "fst (model_read m kStatusAddress (of_nat kStatusRegisterCount) (replicate kStatusRegisterCount 0)) =
     slice (registers m) (unat kStatusAddress) kStatusRegisterCount"
  by (simp add: status_block_read)

lemma fake_exchange_refines:
  assumes n: "fake_idle n"
  shows "\<exists>n'. client_exchange n c = (fst (device_exchange (fake_model n) c), n') \<and>
    fake_idle n' \<and> fake_model n' = snd (device_exchange (fake_model n) c) \<and>
    logger (arg n') = logger (arg n)"
proof -
  define u where "u = dest_address_rtu n"
  define ws where "ws = registersFromBytes kCommandRegisterCount (command_data c)"
  define m' where "m' = model_write (fake_model n) kCommandAddress (of_nat kCommandRegisterCount) ws"
  define rs where "rs = fst (model_read m' kStatusAddress (of_nat kStatusRegisterCount)
      (replicate kStatusRegisterCount 0))"
  define request where "request = adu u 23 (regs_bytes [kStatusAddress, of_nat kStatusRegisterCount,
      kCommandAddress, of_nat kCommandRegisterCount] @ [of_nat (2 * length ws)] @ regs_bytes ws)"
  have lengths: "length ws = kCommandRegisterCount" "length rs = kStatusRegisterCount"
    by (simp_all add: ws_def rs_def status_of_slice)
  obtain s' where s': "deliver request (fake_server n) = s'" "server.same_setup (fake_server n) s'"
      "arg s' = \<lparr>impl_model = m', fromClient = [], toClient = registers_reply u 23 rs\<rparr>"
    using deliver_exchange [of "fake_server n" u ws] n lengths(1)
    by (auto simp: fake_idle_def u_def request_def m'_def rs_def fake_model_def)
  obtain r where quiet: "pread (serial_conf fake_serial) kBufSize 0 (arg n) = (r, [], arg n)"
    using quiet_flush by blast
  have pend: "reply_bytes (hand_over request (arg n)) = registers_reply u 23 rs @ []"
    using s' by (simp add: reply_bytes_def fake_server_def)
  obtain n' where n': "run_state (nmbs_read_write_registers kStatusAddress (of_nat kStatusRegisterCount)
        (replicate kStatusRegisterCount 0) kCommandAddress (of_nat kCommandRegisterCount) ws) n =
      ((NMBS_ERROR_NONE, rs), n')" "client.same_setup n n'"
      "arg n' = take_reply (length (registers_reply u 23 rs)) (hand_over request (arg n))"
    using client.run_read_write [of n r "of_nat kStatusRegisterCount" kStatusAddress
        "of_nat kCommandRegisterCount" kCommandAddress ws rs "replicate kStatusRegisterCount 0" "[]"]
      n quiet pend lengths
    by (auto simp: register_ranges fake_idle_def NMBS_BROADCAST_ADDRESS_def u_def request_def)
  have "client_exchange n c = (fst (device_exchange (fake_model n) c), n')"
    using n'(1) by (simp add: client_exchange_def ws_def [symmetric] nmbs_check_def device_exchange_def
        device_readStatus_def m'_def [symmetric] split_beta rs_def Let_def del: device_readStatus_eq)
  moreover have "snd (device_exchange (fake_model n) c) = m'"
    by (simp add: device_exchange_def m'_def ws_def)
  ultimately show ?thesis
    using fake_idle_after [OF n n'(2) s'(2,3,1) n'(3)] by auto
qed

lemma fake_readStatus_refines:
  assumes n: "fake_idle n"
  shows "\<exists>n'. client_readStatus n = (fst (device_readStatus (fake_model n)), n') \<and>
    fake_idle n' \<and> fake_model n' = fake_model n \<and> logger (arg n') = logger (arg n)"
proof -
  define u where "u = dest_address_rtu n"
  define rs where "rs = fst (model_read (fake_model n) kStatusAddress (of_nat kStatusRegisterCount)
      (replicate kStatusRegisterCount 0))"
  define request where "request = adu u 3 (regs_bytes [kStatusAddress, of_nat kStatusRegisterCount])"
  have len: "length rs = kStatusRegisterCount"
    by (simp add: rs_def status_of_slice)
  obtain s' where s': "deliver request (fake_server n) = s'" "server.same_setup (fake_server n) s'"
      "arg s' = \<lparr>impl_model = fake_model n, fromClient = [], toClient = registers_reply u 3 rs\<rparr>"
    using deliver_read [of "fake_server n" u] n
    by (auto simp: fake_idle_def u_def request_def rs_def fake_model_def)
  obtain r where quiet: "pread (serial_conf fake_serial) kBufSize 0 (arg n) = (r, [], arg n)"
    using quiet_flush by blast
  have pend: "reply_bytes (hand_over request (arg n)) = registers_reply u 3 rs @ []"
    using s' by (simp add: reply_bytes_def fake_server_def)
  obtain n' where n': "run_state (nmbs_read_holding_registers kStatusAddress (of_nat kStatusRegisterCount)
        (replicate kStatusRegisterCount 0)) n = ((NMBS_ERROR_NONE, rs), n')" "client.same_setup n n'"
      "arg n' = take_reply (length (registers_reply u 3 rs)) (hand_over request (arg n))"
    using client.run_read_holding [of n r "of_nat kStatusRegisterCount" kStatusAddress
        rs "replicate kStatusRegisterCount 0" "[]"] n quiet pend len
    by (auto simp: register_ranges fake_idle_def NMBS_BROADCAST_ADDRESS_def u_def request_def)
  have "client_readStatus n = (fst (device_readStatus (fake_model n)), n')"
    using n'(1) by (simp add: client_readStatus_def nmbs_check_def
        device_readStatus_def split_beta rs_def Let_def del: device_readStatus_eq)
  then show ?thesis
    using fake_idle_after [OF n n'(2) s'(2,3,1) n'(3)] by auto
qed

section \<open>Creation, and the contract of the whole link\<close>

lemma fake_serial_simps [simp]:
  "s_open fake_serial = GripperSerial_open" "s_isOpen fake_serial = serial_open"
  "s_getTimeout fake_serial s = 100"
  by (simp_all add: fake_serial_def GripperSerial_getTimeout_def)

lemma fake_client_created:
  assumes "u \<noteq> 0"
  shows "\<exists>n. fake_client m u = Inr n \<and> fake_idle n \<and> fake_model n = m \<and> logger (arg n) = []"
  using assms
  by (simp add: fake_client_def GripperServer_create_def nmbs_server_create_def GripperModbusClient_create_def
      GripperSerial_create_def GripperSerial_open_def to_i32_def
      nmbs_create_def nmbs_set_byte_timeout_def nmbs_set_read_timeout_def nmbs_set_destination_rtu_address_def
      fake_idle_def client.ready_def server.ready_def fake_server_def fake_model_def kByteTimeoutMs_def)

lemma fake_client_broadcast:
  "\<exists>what. fake_client m 0 = Inl (DriverException what)"
  by (simp add: fake_client_def GripperServer_create_def nmbs_server_create_def fake_conf_def)

definition fake_linv :: "GripperSerial modbus_client \<Rightarrow> bool" where
  "fake_linv n \<longleftrightarrow> fake_idle n \<and> device_inv (fake_model n)"

text \<open>Every contract of the device is one of the link that carries its exchanges as bytes.\<close>

lemma fake_link_of:
  assumes "exchange_link device_exchange I R"
  shows "exchange_link client_exchange (\<lambda>n. fake_idle n \<and> I (fake_model n)) R"
proof
  fix n c
  assume n: "fake_idle n \<and> I (fake_model n)"
  then obtain n' where "client_exchange n c = (fst (device_exchange (fake_model n) c), n')" "fake_idle n'"
      "fake_model n' = snd (device_exchange (fake_model n) c)"
    using fake_exchange_refines by blast
  with n show "fake_idle (snd (client_exchange n c)) \<and> I (fake_model (snd (client_exchange n c)))"
    by (simp add: exchange_link.keeps [OF assms])
next
  fix n c s n'
  assume n: "fake_idle n \<and> I (fake_model n)" and x: "client_exchange n c = (Inr s, n')"
  then have "fst (device_exchange (fake_model n) c) = Inr s"
    using fake_exchange_refines [of n c] by auto
  then show "R c s"
    using exchange_link.answers [OF assms, of "fake_model n" c s] n by (metis prod.collapse)
qed

interpretation fake: exchange_link client_exchange fake_linv device_answer
  unfolding fake_linv_def [abs_def] by (rule fake_link_of) (rule device.exchange_link_axioms)

definition fake_healthy :: "GripperSerial modbus_client \<Rightarrow> bool" where
  "fake_healthy n \<longleftrightarrow> fake_idle n \<and> device_healthy (fake_model n)"

interpretation healthy_fake: exchange_link client_exchange fake_healthy no_fault
  unfolding fake_healthy_def [abs_def] by (rule fake_link_of) (rule healthy.exchange_link_axioms)

text \<open>The world in which the exchange thread of a fake gripper starts.\<close>

lemma fake_launch:
  assumes "fake_idle n" "fake_model n = RegisterModel_init"
  shows "\<exists>n' w. launch client_readStatus seeded started (GripperState_create n p im) = Inr w
    \<and> client (gs w) = n' \<and> fake_idle n' \<and> fake_model n' = RegisterModel_init
    \<and> pc (gs w) = CheckRunning \<and> running (gs w) \<and> countOf (record_of w) = 0"
proof -
  obtain n' where r: "client_readStatus n = (fst (device_readStatus (fake_model n)), n')"
      "fake_idle n'" "fake_model n' = fake_model n"
    using fake_readStatus_refines [OF assms(1)] by blast
  define g where "g = GripperState_create n p im"
  have "initial_read client_readStatus kInitialReadAttempts g =
      (Inr (documented_status (model_status RegisterModel_init)), g\<lparr>client := n'\<rparr>)"
    using r assms(2) by (simp add: kInitialReadAttempts_def numeral_eq_Suc g_def GripperState_create_def)
  with r assms(2) show ?thesis
    by (auto simp: launch_def initializeImage_def start_def g_def [symmetric] image_simps)
qed

end
