(* ===== verification/NanoAccept.thy ===== *)
theory NanoAccept
  imports NanoFrames
begin

text \<open>
  What nanomodbus.c accepts from a transport that may deliver anything: when an operation
  reports success, the bytes it received are a frame for the request that was sent. Each
  lemma reads a successful run backwards. \<open>took a bs a'\<close> is what a provider says of its argument
  when reads delivered \<open>bs\<close>, \<open>gave\<close> of a message sent, \<open>dropped\<close> of input that was thrown away.
\<close>

locale exact_port = polite_port conf for conf :: "'p platform_conf" +
  fixes took :: "'p \<Rightarrow> u8 list \<Rightarrow> 'p \<Rightarrow> bool" and gave :: "'p \<Rightarrow> u8 list \<Rightarrow> 'p \<Rightarrow> bool"
    and dropped :: "'p \<Rightarrow> 'p \<Rightarrow> bool"
  assumes exact: "pread conf c t a = (int c, bs, a') \<Longrightarrow> length bs = c \<and> took a bs a'"
    and took_append: "took a bs b \<Longrightarrow> took b cs d \<Longrightarrow> took a (bs @ cs) d"
    and gives: "pwrite conf bs t a = (int (length bs), a') \<Longrightarrow> gave a bs a'"
    and drops: "pread conf kBufSize 0 a = (r, bs, a') \<Longrightarrow> dropped a a'"
begin

definition sane :: "'p nmbs_t \<Rightarrow> bool" where
  "sane n \<longleftrightarrow> platform n = conf \<and> \<not> complete n"

lemma recv_ok:
  assumes "run_state (recv c) n = (NMBS_ERROR_NONE, n')" and "sane n" and "fits c n"
  shows "\<exists>bs a. length bs = c \<and> n' = hold bs (n\<lparr>arg := a\<rparr>) \<and> took (arg n) bs a"
proof -
  obtain r bs a where p: "pread conf c (byte_timeout_ms n) (arg n) = (r, bs, a)"
    by (cases "pread conf c (byte_timeout_ms n) (arg n)")
  from assms(1,2) p have r: "r = int c" "n' = store_at (buf_idx n) bs (n\<lparr>arg := a\<rparr>)"
    by (auto simp: recv_def sane_def Let_def split: if_splits)
  then have "length bs = c" "took (arg n) bs a" using exact p by blast+
  moreover from this(1) have "n' = hold bs (n\<lparr>arg := a\<rparr>)"
    using r(2) assms(3) \<open>length bs = c\<close> store_hold [of bs "n\<lparr>arg := a\<rparr>"] by simp
  ultimately show ?thesis by blast
qed

lemma footer_ok:
  assumes "run_state recv_msg_footer n = (NMBS_ERROR_NONE, n')" and n: "sane n" and fit: "fits 2 n"
  shows "\<exists>a. n' = wr (regs_bytes [nmbs_crc_calc (sofar n)]) (n\<lparr>arg := a\<rparr>)
    \<and> took (arg n) (regs_bytes [nmbs_crc_calc (sofar n)]) a"
proof -
  have t: "touch 0 (buf_idx n) n = n" using fit by (simp add: touch_def fits_def)
  obtain e n2 where r: "run_state (recv 2) n = (e, n2)" by (cases "run_state (recv 2) n")
  have e: "e = NMBS_ERROR_NONE"
    using assms(1) n rtu r t by (auto simp: recv_msg_footer_def on_ok_def sane_def split: if_splits)
  then obtain bs a where bs: "length bs = 2" "n2 = hold bs (n\<lparr>arg := a\<rparr>)" "took (arg n) bs a"
    using recv_ok [OF _ n fit] r by blast
  then obtain x y where xy: "bs = [x, y]" by (auto simp: length_Suc_conv numeral_2_eq_2)
  have c: "nmbs_crc_calc (sofar n) = pack16 x y \<and> n' = wr [x, y] (n\<lparr>arg := a\<rparr>)"
    using assms(1) n rtu r t bs xy e fit run_get_2 [of "[]" "n\<lparr>arg := a\<rparr>" x y]
    by (auto simp: recv_msg_footer_def on_ok_def sane_def sofar_def split: if_splits)
  then show ?thesis using bs(3) xy by (auto intro!: exI [of _ a])
qed

lemma header_ok:
  assumes run: "run_state recv_msg_header n = ((NMBS_ERROR_NONE, b), n')"
    and n: "platform n = conf" "fits 0 n"
  shows "\<exists>u f a. n' = wr [u, f] (fresh u f (n\<lparr>arg := a\<rparr>)) \<and> took (arg n) [u, f] a"
proof -
  define m where "m = n\<lparr>byte_timeout_ms := read_timeout_ms n, buf_idx := 0, unit_id := 0, fc := 0,
    transaction_id := 0, broadcast := False, ignored := False, complete := False\<rparr>"
  have m: "sane m" "fits k m = (k \<le> kBufSize)" "platform m = conf" for k
    using n by (auto simp: m_def sane_def fits_def)
  obtain e n1 where r1: "run_state (recv 1) m = (e, n1)" by (cases "run_state (recv 1) m")
  have e: "e = NMBS_ERROR_NONE"
    using run n rtu r1 by (auto simp: recv_msg_header_def msg_state_reset_def msg_buf_reset_def
        m_def [symmetric] split: if_splits)
  then obtain u a where n1: "n1 = hold [u] (m\<lparr>arg := a\<rparr>)" and ta: "took (arg n) [u] a"
    using recv_ok [OF _ m(1), of 1 n1] r1 m(2) by (auto simp: length_Suc_conv kBufSize_def m_def)
  define n2 where "n2 = wr [u] (n\<lparr>buf_idx := 0, unit_id := u, fc := 0, transaction_id := 0,
    broadcast := False, ignored := False, complete := False, arg := a\<rparr>)"
  have get: "run_state get_1 (hold [u] (m\<lparr>arg := a, byte_timeout_ms := t\<rparr>)) =
      (u, wr [u] (m\<lparr>arg := a, byte_timeout_ms := t\<rparr>))" for t
    using run_get_1 [of "[]" "m\<lparr>arg := a, byte_timeout_ms := t\<rparr>" u] m by (simp add: kBufSize_def)
  have two: "wr [u] (m\<lparr>arg := a, byte_timeout_ms := byte_timeout_ms n\<rparr>)\<lparr>unit_id := u\<rparr> = n2"
    by (simp add: n2_def m_def wr_def hold_def)
  have n2: "sane n2" "fits 1 n2"
    using n by (auto simp: n2_def sane_def fits_def kBufSize_def wr_def hold_def)
  obtain e2 n3 where r2: "run_state (recv 1) n2 = (e2, n3)" by (cases "run_state (recv 1) n2")
  have e2: "e2 = NMBS_ERROR_NONE"
    using run n rtu m(3) r1 e n1 get two r2
    by (auto simp: recv_msg_header_def msg_state_reset_def msg_buf_reset_def m_def [symmetric] split: if_splits)
  then obtain f c where n3: "n3 = hold [f] (n2\<lparr>arg := c\<rparr>)" and tc: "took a [f] c"
    using recv_ok [OF _ n2(1), of 1 n3] r2 n2(2) by (auto simp: length_Suc_conv n2_def)
  have get2: "run_state get_1 (hold [f] (n2\<lparr>arg := c\<rparr>)) = (f, wr [f] (n2\<lparr>arg := c\<rparr>))"
    using run_get_1 [of "[]" "n2\<lparr>arg := c\<rparr>" f] n2 by simp
  have "n' = wr [f] (n2\<lparr>arg := c\<rparr>)\<lparr>fc := f\<rparr>"
    using run n rtu m(3) r1 e n1 get two r2 e2 n3 get2
    by (auto simp: recv_msg_header_def msg_state_reset_def msg_buf_reset_def m_def [symmetric] split: if_splits)
  also have "\<dots> = wr [f] (wr [u] (fresh u f (n\<lparr>arg := c\<rparr>)))"
    by (simp add: n2_def fresh_def wr_def hold_def)
  also have "\<dots> = wr [u, f] (fresh u f (n\<lparr>arg := c\<rparr>))"
    using n by (subst wr_wr) (auto simp: fits_def kBufSize_def)
  finally show ?thesis using took_append [OF ta tc] by auto
qed

lemma res_header_ok:
  assumes run: "run_state recv_res_header n = (NMBS_ERROR_NONE, n')"
    and n: "platform n = conf" "fits 0 n"
  shows "\<exists>a. n' = wr [unit_id n, fc n] (fresh (unit_id n) (fc n) (n\<lparr>arg := a\<rparr>)) \<and> took (arg n) [unit_id n, fc n] a"
proof -
  obtain e b n1 where r1: "run_state recv_msg_header n = ((e, b), n1)"
    by (metis surj_pair)
  have e: "e = NMBS_ERROR_NONE"
    using run r1 by (auto simp: recv_res_header_def split: if_splits)
  obtain u f a where n1: "n1 = wr [u, f] (fresh u f (n\<lparr>arg := a\<rparr>))" "took (arg n) [u, f] a"
    using header_ok [OF _ n] r1 e by blast
  have "error_of_exception x \<noteq> NMBS_ERROR_NONE" for x by (simp add: error_of_exception_def)
  then have "u = unit_id n \<and> f = fc n \<and> n' = n1"
    using run r1 e n1 rtu n(1)
    by (auto simp: recv_res_header_def on_ok_def split: if_splits prod.splits)
  with n1 show ?thesis by auto
qed

lemma register_bytes_exist: "length bs = 2 * k \<Longrightarrow> \<exists>rs. length rs = k \<and> bs = regs_bytes rs"
proof (induction k arbitrary: bs)
  case (Suc k)
  then obtain x y cs where bs: "bs = x # y # cs" "length cs = 2 * k"
    by (auto simp: length_Suc_conv)
  from Suc.IH [OF bs(2)] obtain rs where rs: "length rs = k" "cs = regs_bytes rs" by blast
  from rs bs(1) show ?case by (intro exI [of _ "pack16 x y # rs"]) simp
qed simp

lemma registers_ok:
  assumes run: "run_state (recv_read_registers_res q out) n = ((NMBS_ERROR_NONE, rs), n')"
    and n: "platform n = conf" "fits 0 n" and out: "length out = unat q"
  shows "length rs = unat q \<and>
    (\<exists>a. n' = wr (registers_reply (unit_id n) (fc n) rs) (fresh (unit_id n) (fc n) (n\<lparr>arg := a\<rparr>)) \<and>
       took (arg n) (registers_reply (unit_id n) (fc n) rs) a)"
proof -
  define F where "F x = fresh (unit_id n) (fc n) (n\<lparr>arg := x\<rparr>)" for x
  have F: "fits k (F x) \<longleftrightarrow> k \<le> kBufSize" "sane (F x)" "sofar (F x) = []" "F x\<lparr>arg := y\<rparr> = F y" "arg (F x) = x" for k x y
    using n by (auto simp: fits_def F_def sane_def)
  have W: "sane (wr bs (F x))" for bs x using F by (simp add: sane_def)
  note def = recv_read_registers_res_def
  obtain e1 n1 where r1: "run_state recv_res_header n = (e1, n1)" by (metis surj_pair)
  have e1: "e1 = NMBS_ERROR_NONE" using run r1 by (auto simp: def split: if_splits)
  then obtain a1 where n1: "n1 = wr [unit_id n, fc n] (F a1)" and t1: "took (arg n) [unit_id n, fc n] a1"
    using res_header_ok [OF _ n] r1 unfolding F_def by blast
  obtain e2 n2 where r2: "run_state (recv 1) n1 = (e2, n2)" by (metis surj_pair)
  have e2: "e2 = NMBS_ERROR_NONE" using run r1 e1 r2 by (auto simp: def split: if_splits)
  then obtain b a2 where n2: "n2 = hold [b] (wr [unit_id n, fc n] (F a2))" and t2: "took a1 [b] a2"
    using recv_ok [of 1 n1 n2] r2 n1 F W by (auto simp: length_Suc_conv kBufSize_def)
  define n3 where "n3 = wr [unit_id n, fc n, b] (F a2)"
  have r3: "run_state get_1 n2 = (b, n3)"
    using run_get_1 [of "[]" "wr [unit_id n, fc n] (F a2)" b] F by (simp add: n2 n3_def kBufSize_def)
  have b: "unat b \<le> 250" "unat b = unat q * 2"
    using run r1 e1 r2 e2 r3 by (auto simp: def split: if_splits)
  obtain e4 n4 where r4: "run_state (recv (unat b)) n3 = (e4, n4)" by (metis surj_pair)
  have e4: "e4 = NMBS_ERROR_NONE" using run r1 e1 r2 e2 r3 b r4 by (auto simp: def split: if_splits)
  then obtain bs a4 where bs: "length bs = unat b" "n4 = hold bs (wr [unit_id n, fc n, b] (F a4))" "took a2 bs a4"
    using recv_ok [of "unat b" n3 n4] r4 F b W by (auto simp: n3_def kBufSize_def)
  then obtain rs' where rs': "length rs' = unat q" "bs = regs_bytes rs'"
    using register_bytes_exist b(2) by (metis mult.commute)
  define m where "m = [unit_id n, fc n, b] @ regs_bytes rs'"
  have r5: "run_state (get_2s (unat q)) n4 = (rs', wr m (F a4))"
    using run_get_2s [OF _ rs'(1) [symmetric], of "[]" "wr [unit_id n, fc n, b] (F a4)"] F b rs'
    by (simp add: bs(2) m_def kBufSize_def)
  obtain e6 n6 where r6: "run_state recv_msg_footer (wr m (F a4)) = (e6, n6)" by (metis surj_pair)
  have fin: "e6 = NMBS_ERROR_NONE \<and> n' = n6 \<and> rs = rs'"
    using run r1 e1 r2 e2 r3 b r4 e4 r5 r6 out rs'(1) by (auto simp: def split: if_splits)
  have fit: "fits 2 (wr m (F a4))" "fits (length m) (F a4)" "fits (length m + 2) (F a4)"
    using F b rs' by (auto simp: m_def kBufSize_def)
  obtain a6 where "n6 = wr (regs_bytes [nmbs_crc_calc m]) (wr m (F a6))" and t6: "took a4 (regs_bytes [nmbs_crc_calc m]) a6"
    using footer_ok [of "wr m (F a4)" n6] r6 fin fit F W by auto
  then have "n6 = wr (with_crc m) (F a6)"
    using fit by (simp add: with_crc_def F)
  moreover have "b = of_nat (2 * unat q)" using b(2) by (metis mult.commute of_nat_unat ucast_id)
  then have "with_crc m = registers_reply (unit_id n) (fc n) rs"
    using fin rs' by (simp add: registers_reply_def adu_def m_def)
  moreover have "took (arg n) (with_crc m) a6"
    using took_append [OF took_append [OF took_append [OF t1 t2] bs(3)] t6] rs' by (simp add: m_def with_crc_def)
  ultimately show ?thesis using fin rs' by (auto simp: F_def)
qed

text \<open>A request that went out, and what was thrown away before it.\<close>

lemma send_msg_ok:
  assumes run: "run_state send_msg n = (NMBS_ERROR_NONE, n')" and n: "platform n = conf" "fits 2 n"
  shows "\<exists>a. n' = wr (regs_bytes [nmbs_crc_calc (sofar n)]) (n\<lparr>arg := a\<rparr>) \<and> gave (arg n) (with_crc (sofar n)) a"
proof -
  let ?crc = "regs_bytes [nmbs_crc_calc (sofar n)]"
  have t: "touch 0 (buf_idx n) n = n" using n(2) by (simp add: touch_def fits_def)
  have out: "take (buf_idx n + 2) (buf (wr ?crc n)) = with_crc (sofar n)"
    using sofar_wr [of ?crc n] n(2) by (simp add: sofar_def with_crc_def)
  have len: "length (with_crc (sofar n)) = buf_idx n + 2"
    using n(2) by (auto simp: with_crc_def sofar_def fits_def)
  obtain r a where p: "pwrite conf (with_crc (sofar n)) (byte_timeout_ms n) (arg n) = (r, a)"
    by (cases "pwrite conf (with_crc (sofar n)) (byte_timeout_ms n) (arg n)")
  have t2: "touch 0 (buf_idx n + 2) (wr ?crc (n\<lparr>arg := a\<rparr>)) = wr ?crc (n\<lparr>arg := a\<rparr>)"
    using n(2) by (auto simp: touch_def fits_def wr_def hold_def)
  have "r = int (buf_idx n + 2) \<and> n' = wr ?crc (n\<lparr>arg := a\<rparr>)"
    using run n rtu t t2 out p run_put_2 [OF n(2)]
    by (auto simp: send_msg_def send_def sofar_def [symmetric] with_crc_def Let_def split: if_splits prod.splits)
  then show ?thesis using gives [of "with_crc (sofar n)"] p by (auto simp: len intro!: exI [of _ a])
qed

lemma msg_state_req_ok:
  assumes "run_state (msg_state_req f) n = (x, n')" and "intact conf n"
  shows "platform n' = conf" "fits 0 n'" "buf_idx n' = 0" "unit_id n' = dest_address_rtu n" "fc n' = f"
    "dropped (arg n) (arg n')"
proof -
  have "reach conf 0 n'"
    using moves_msg_state_req [of "buf_idx n" f] assms
    by (auto simp: moves_def reach_def intact_def dest: nm_specD)
  then show "platform n' = conf" "fits 0 n'" "buf_idx n' = 0" by (auto simp: reach_def fits_def)
  show "unit_id n' = dest_address_rtu n" "fc n' = f" "dropped (arg n) (arg n')"
    using assms drops
    by (auto simp: intact_def msg_state_req_def flush_def msg_state_reset_def msg_buf_reset_def store_at_def touch_def
        split: prod.splits if_splits)
qed

lemma read_write_ok:
  assumes run: "run_state (nmbs_read_write_registers ra rq out wa wq ws) n = ((NMBS_ERROR_NONE, rs), n')"
    and n: "intact conf n" and out: "length out = unat rq" and ws: "length ws = unat wq"
  defines "u \<equiv> dest_address_rtu n"
  shows "length rs = unat rq \<and> sofar n' = registers_reply u 23 rs \<and> fits 0 n' \<and> unat rq \<le> 125 \<and>
    (\<exists>a b. dropped (arg n) a \<and> gave a (with_crc (request_head u ra rq wa wq ws)) b \<and>
       took b (registers_reply u 23 rs) (arg n'))"
proof -
  define m where "m = request_head u ra rq wa wq ws"
  have rq: "\<not> rq < 1" "\<not> 125 < rq" "\<not> past_end ra rq"
    and wq: "\<not> wq < 1" "\<not> 121 < wq" "\<not> past_end wa wq"
    using run by (auto simp: nmbs_read_write_registers_def Let_def split: if_splits)
  have bounds: "unat rq \<le> 125" "unat wq \<le> 121" using rq wq by (simp_all add: word_less_nat_alt)
  obtain n1 where r1: "run_state (msg_state_req 23) n = ((), n1)"
    by (cases "run_state (msg_state_req 23) n") simp
  note n1 = msg_state_req_ok [OF r1 n, folded u_def]
  have fit: "fits k n1 \<longleftrightarrow> k \<le> kBufSize" for k using n1(2,3) by (auto simp: fits_def)
  have lm: "length m + 2 \<le> kBufSize" using bounds ws by (simp add: m_def request_head_def kBufSize_def)
  define k :: "('p, nmbs_error \<times> u16 list) nm" where "k = send_msg \<bind> (\<lambda>err. if err \<noteq> NMBS_ERROR_NONE then nm_return (err, out)
      else recv_read_registers_res rq out)"
  have "run_state (nmbs_read_write_registers ra rq out wa wq ws) n = run_state k (wr m n1)"
    unfolding m_def k_def
    by (rule run_read_write_request [OF r1 n1(1-5) _ bounds(1) rq(3) _ bounds(2) wq(3) ws]) (use rq(1) wq(1) in auto)
  with run have go: "run_state k (wr m n1) = ((NMBS_ERROR_NONE, rs), n')" by simp
  obtain e n2 where r2: "run_state send_msg (wr m n1) = (e, n2)" by (metis surj_pair)
  have fm: "sofar (wr m n1) = m" "fits 2 (wr m n1)" "platform (wr m n1) = conf"
    using lm n1(1,3) by (simp_all add: fit sofar_wr [of m n1] fits_wr [of m 2 n1]) (simp add: sofar_def)
  have "e = NMBS_ERROR_NONE" using go r2 by (auto simp: k_def split: if_splits)
  then obtain b where n2: "n2 = wr (with_crc m) (n1\<lparr>arg := b\<rparr>)" and g: "gave (arg n1) (with_crc m) b"
    using send_msg_ok [OF _ fm(3,2), of n2] r2 fm(1) lm by (auto simp: with_crc_def fit)
  have n2f: "platform n2 = conf" "fits 0 n2" "unit_id n2 = u" "fc n2 = 23" "arg n2 = b"
    using n1 lm by (auto simp: n2 fit with_crc_def intro!: fits_wr)
  have "run_state (recv_read_registers_res rq out) n2 = ((NMBS_ERROR_NONE, rs), n')"
    using go r2 \<open>e = NMBS_ERROR_NONE\<close> by (auto simp: k_def)
  from registers_ok [OF this n2f(1,2) out] obtain a where
      rs: "length rs = unat rq" "n' = wr (registers_reply u 23 rs) (fresh u 23 (n2\<lparr>arg := a\<rparr>))"
      and t: "took b (registers_reply u 23 rs) a"
    unfolding n2f by blast
  have "fits (length (registers_reply u 23 rs)) (fresh u 23 (n2\<lparr>arg := a\<rparr>))"
    using n2f bounds(1) rs(1)
    by (auto simp: fits_def registers_reply_def adu_def with_crc_def kBufSize_def)
  moreover have "arg n' = a" by (simp add: rs(2))
  ultimately show ?thesis
    using rs bounds(1) n1(6) g t unfolding m_def [symmetric] by (auto intro: fits_wr)
qed

end

end
