(* ===== verification/LinkProperties.thy ===== *)
theory LinkProperties
  imports FakeLink NanoAccept Demo
begin

text \<open>
  Properties of the Modbus path: the client against a serial that may do anything, and the
  client, the server and the device together. The interpretations \<open>serial_port\<close>, \<open>any_serial\<close>
  and \<open>fake\<close> carry the proofs.
\<close>

text \<open>
  What an exchange does with the serial: \<open>serial_reads\<close> is a sequence of reads that each delivered all
  that was asked for, with the bytes they gave in their order; \<open>serial_discards\<close> is the read of nanomodbus's
  flush, whatever it gives.
\<close>

inductive serial_reads :: "'s serial_ops \<Rightarrow> 's \<Rightarrow> u8 list \<Rightarrow> 's \<Rightarrow> bool" for ops where
  none: "serial_reads ops s [] s"
| more: "s_read ops k t s = (Inr got, s1) \<Longrightarrow> k \<le> length got \<Longrightarrow> serial_reads ops s1 bs s2
    \<Longrightarrow> serial_reads ops s (take k got @ bs) s2"

lemma serial_reads_trans:
  "serial_reads ops a bs b \<Longrightarrow> serial_reads ops b cs c \<Longrightarrow> serial_reads ops a (bs @ cs) c"
  by (induction rule: serial_reads.induct) (auto intro: serial_reads.more)

definition serial_discards :: "'s serial_ops \<Rightarrow> 's \<Rightarrow> 's \<Rightarrow> bool" where
  "serial_discards ops s s' \<longleftrightarrow> s' = snd (s_read ops kBufSize 0 s)"

interpretation any_serial: exact_port "serial_conf ops" "\<lambda>a bs a'. serial_reads ops (serial a) bs (serial a')"
    "\<lambda>a bs a'. s_write ops bs (serial a) = (Inr (), serial a')" "\<lambda>a a'. serial_discards ops (serial a) (serial a')"
  for ops :: "'s serial_ops"
proof unfold_locales
  fix c t a bs a'
  assume "pread (serial_conf ops) c t a = (int c, bs, a')"
  then obtain got where r: "s_read ops c t (serial a) = (Inr got, serial a')" and b: "c \<le> length got" "bs = take c got"
    by (auto simp: serial_conf_def readSerial_def context_log_def Let_def split: prod.splits sum.splits if_splits)
  from serial_reads.more [OF r b(1) serial_reads.none] b show "length bs = c \<and> serial_reads ops (serial a) bs (serial a')"
    by simp
next
  fix bs t a a'
  assume "pwrite (serial_conf ops) bs t a = (int (length bs), a')"
  then show "s_write ops bs (serial a) = (Inr (), serial a')"
    by (auto simp: serial_conf_def writeSerial_def split: prod.splits sum.splits)
next
  fix a r bs a'
  assume "pread (serial_conf ops) kBufSize 0 a = (r, bs, a')"
  then show "serial_discards ops (serial a) (serial a')"
    by (auto simp: serial_discards_def serial_conf_def readSerial_def context_log_def Let_def
        split: prod.splits sum.splits if_splits)
qed (auto intro: serial_reads_trans)

text \<open>An exchange that returns a status is a read-write of nanomodbus that succeeded.\<close>

definition command_registers :: "GripperCommand \<Rightarrow> u16 list" where
  "command_registers c = registersFromBytes kCommandRegisterCount (command_data c)"

lemma length_command_registers [simp]: "length (command_registers c) = 3"
  by (simp add: command_registers_def register_ranges)

lemma exchange_returns:
  assumes "client_exchange n c = (Inr s, n')"
  obtains rs where "run_state (nmbs_read_write_registers kStatusAddress (of_nat kStatusRegisterCount)
      (replicate kStatusRegisterCount 0) kCommandAddress (of_nat kCommandRegisterCount)
      (command_registers c)) n = ((NMBS_ERROR_NONE, rs), n')"
    "s = status_overlay (bytesFromRegisters rs (status_data GripperStatus_init))"
  using assms
  by (auto simp: client_exchange_def command_registers_def [symmetric] nmbs_check_def Let_def
      split: prod.splits if_splits)

section \<open>The fake link\<close>

text \<open>C16: One \<open>exchange()\<close> with the fake gripper, through the driver's Modbus client, the byte
  queues, the Modbus server and its callbacks, is one exchange with the device: same answer,
  same device state, nothing logged, and both ends ready for the next one.\<close>

theorem exchange_over_bytes:
  assumes "fake_idle n"
  shows "\<exists>n'. client_exchange n c = (fst (device_exchange (fake_model n) c), n') \<and> fake_idle n' \<and>
    fake_model n' = snd (device_exchange (fake_model n) c) \<and> logger (arg n') = logger (arg n)"
  by (rule fake_exchange_refines [OF assms])

theorem exchange_over_bytes_witness:
  "\<exists>n n'. fake_client RegisterModel_init 9 = Inr n \<and> client_exchange n GripperCommand_defaults =
     (fst (device_exchange RegisterModel_init GripperCommand_defaults), n') \<and> fake_idle n'"
proof -
  obtain n where n: "fake_client RegisterModel_init 9 = Inr n" "fake_idle n" "fake_model n = RegisterModel_init"
    using fake_client_created [of 9 RegisterModel_init] by auto
  with exchange_over_bytes [OF n(2), of GripperCommand_defaults] show ?thesis by auto
qed

text \<open>C18: Every record a fake gripper publishes, its exchanges carried as bytes, answers the command
  in the same record, in every interleaving of the thread, its callers and the clock.\<close>

theorem fake_gripper_answers:
  assumes "fake_client RegisterModel_init u = Inr n" and "u \<noteq> 0"
    and "launch client_readStatus seeded started (GripperState_create n p im) = Inr w"
    and "runs client_exchange any_event w k w'" and "countOf (record_of w') \<noteq> 0"
  shows "device_answer (xCommand (record_of w')) (xStatus (record_of w'))"
proof -
  have "fake_idle n" "fake_model n = RegisterModel_init"
    using fake_client_created [OF assms(2), of RegisterModel_init] assms(1) by auto
  from fake_launch [OF this, of seeded started p im] assms(3) have "fake.link_inv w"
    by (auto simp: fake.link_inv_def fake_linv_def)
  from fake.record_answers [OF assms(4) this assms(5)] show ?thesis .
qed

text \<open>Five steps of a started thread carry one exchange up to its record.\<close>

lemma five_steps_publish:
  assumes "pc (gs w) = CheckRunning" and "running (gs w)"
    and "xchg (client (gs w)) (image_command (img (gs w))) = (Inr s, l)" and "countOf (record_of w) = 0"
  shows "countOf (record_of (run_block xchg (replicate 5 ThreadStep) w)) \<noteq> 0"
  using assms
  by (simp add: numeral_eq_Suc thread_step_def note_success_def Let_def image_simps split_beta)

theorem fake_gripper_answers_witness:
  "\<exists>n w w' k. fake_client RegisterModel_init 9 = Inr n \<and>
     launch client_readStatus 0 0 (GripperState_create n 1000 demo_image) = Inr w \<and>
     runs client_exchange any_event w k w' \<and> countOf (record_of w') \<noteq> 0 \<and>
     device_answer (xCommand (record_of w')) (xStatus (record_of w'))"
proof -
  obtain n where n: "fake_client RegisterModel_init 9 = Inr n" "fake_idle n" "fake_model n = RegisterModel_init"
    using fake_client_created [of 9 RegisterModel_init] by auto
  define g where "g = GripperState_create n 1000 demo_image"
  obtain n' w where w: "launch client_readStatus 0 0 g = Inr w" "pc (gs w) = CheckRunning" "running (gs w)"
      "client (gs w) = n'" "countOf (record_of w) = 0" and r: "fake_idle n'"
    unfolding g_def using fake_launch [OF n(2,3), of 0 0 1000 demo_image] by blast
  define c where "c = image_command (img (gs w))"
  obtain n'' where "client_exchange n' c = (fst (device_exchange (fake_model n') c), n'')"
    using fake_exchange_refines [OF r] by blast
  then have x: "client_exchange (client (gs w)) c = (Inr (projr (fst (device_exchange (fake_model n') c))), n'')"
    by (simp add: w(4) device_exchange_def)
  define w' where "w' = run_block client_exchange (replicate 5 ThreadStep) w"
  have count: "countOf (record_of w') \<noteq> 0"
    unfolding w'_def
    by (rule five_steps_publish) (rule w(2) w(3) w(5) x [unfolded c_def])+
  have "list_all any_event (replicate 5 ThreadStep)" by (simp add: list_all_iff)
  then have runs: "runs client_exchange any_event w (block_exchanges client_exchange (replicate 5 ThreadStep) w) w'"
    unfolding w'_def by (rule run_block_counts)
  have nine: "(9 :: u8) \<noteq> 0" by simp
  from fake_gripper_answers [OF n(1) nine w(1) [unfolded g_def] runs count] n(1) w(1) runs count
  show ?thesis unfolding g_def by blast
qed

section \<open>Any serial\<close>

lemma client_intact:
  assumes "intact (serial_conf ops) n"
    and "n' \<in> {snd (client_exchange n c), snd (client_readStatus n), snd (client_writeCommand n c)}"
  shows "intact (serial_conf ops) n'"
proof -
  have n: "reach (serial_conf ops) (buf_idx n) n" using assms by (simp add: intact_def reach_def)
  have safe: "intact (serial_conf ops) (snd (run_state m n))" if "safe (serial_conf ops) (buf_idx n) m"
    for m :: "('a CallbackContext, 'b) nm"
    using that n by (cases "run_state m n") (auto simp: safe_def dest: nm_specD)
  show ?thesis
    using assms(2) safe [OF serial_port.safe_read_write_registers] safe [OF serial_port.safe_read_registers]
      safe [OF serial_port.safe_write_registers]
    by (auto simp: client_exchange_def client_readStatus_def client_writeCommand_def
        nmbs_read_holding_registers_def Let_def split_beta)
qed

text \<open>C21: Whatever the serial port delivers (too many bytes, too few, garbage, exceptions), the
  client's three operations stay within the 260-byte message buffer.\<close>

theorem client_stays_in_buffer:
  assumes "platform n = serial_conf ops" and "length (buf n) = kBufSize" and "\<not> oob n"
    and "n' \<in> {snd (client_exchange n c), snd (client_readStatus n), snd (client_writeCommand n c)}"
  shows "length (buf n') = kBufSize \<and> \<not> oob n'"
  using client_intact [OF _ assms(4), of ops] assms(1-3) by (simp add: intact_def)

text \<open>A serial that answers every read with more bytes than were asked for.\<close>

definition chatty_serial :: "unit serial_ops" where
  "chatty_serial =
     \<lparr>s_open = (\<lambda>s. (Inr (), s)), s_isOpen = (\<lambda>s. True), s_read = (\<lambda>k t s. (Inr (replicate (k + 7) 0xFF), s)),
      s_write = (\<lambda>bs s. (Inr (), s)), s_getTimeout = (\<lambda>s. 100)\<rparr>"

definition chatty_client :: "unit modbus_client" where
  "chatty_client = nmbs_create (serial_conf chatty_serial) \<lparr>serial = (), logger = []\<rparr>"

theorem client_stays_in_buffer_witness:
  "length (buf (snd (client_exchange chatty_client GripperCommand_defaults))) = kBufSize \<and>
   \<not> oob (snd (client_exchange chatty_client GripperCommand_defaults))"
  by (rule client_stays_in_buffer [where n = chatty_client and ops = chatty_serial and c = GripperCommand_defaults])
     (simp_all add: chatty_client_def nmbs_create_def)

text \<open>C19: What \<open>exchange()\<close> has done to the serial port when it returns a status, whatever the port
  delivered, in this order: one read that threw away what had come before, one write of the request
  frame for this command, and reads that gave, byte for byte, a complete reply frame: the gripper's
  address, function code 23, six bytes of registers and a matching checksum. The status is what those
  registers say.\<close>

theorem exchange_accepts_only_replies:
  assumes "client_exchange n c = (Inr s, n')" and "platform n = serial_conf ops"
    and "length (buf n) = kBufSize" and "\<not> oob n"
  defines "u \<equiv> dest_address_rtu n"
  shows "\<exists>rs quiet asked. length rs = 3
    \<and> serial_discards ops (serial (arg n)) quiet
    \<and> s_write ops (with_crc (request_head u kStatusAddress 3 kCommandAddress 3 (command_registers c))) quiet = (Inr (), asked)
    \<and> serial_reads ops asked (registers_reply u 23 rs) (serial (arg n'))
    \<and> take (buf_idx n') (buf n') = registers_reply u 23 rs
    \<and> s = status_overlay (bytesFromRegisters rs (status_data GripperStatus_init))"
proof -
  obtain rs where run: "run_state (nmbs_read_write_registers kStatusAddress (of_nat kStatusRegisterCount)
      (replicate kStatusRegisterCount 0) kCommandAddress (of_nat kCommandRegisterCount)
      (command_registers c)) n = ((NMBS_ERROR_NONE, rs), n')"
    and s: "s = status_overlay (bytesFromRegisters rs (status_data GripperStatus_init))"
    by (rule exchange_returns [OF assms(1)])
  have "intact (serial_conf ops) n" using assms by (simp add: intact_def)
  from any_serial.read_write_ok [OF run this, folded u_def]
  obtain quiet asked where "length rs = 3" "sofar n' = registers_reply u 23 rs"
      "serial_discards ops (serial (arg n)) quiet"
      "s_write ops (with_crc (request_head u kStatusAddress 3 kCommandAddress 3 (command_registers c))) quiet = (Inr (), asked)"
      "serial_reads ops asked (registers_reply u 23 rs) (serial (arg n'))"
    by (auto simp: register_ranges)
  with s show ?thesis unfolding sofar_def by blast
qed

theorem exchange_accepts_only_replies_witness:
  "\<exists>n n' s rs. fake_client RegisterModel_init 9 = Inr n \<and>
     client_exchange n GripperCommand_defaults = (Inr s, n') \<and> length rs = 3 \<and>
     (\<exists>asked. serial_reads fake_serial asked (registers_reply (dest_address_rtu n) 23 rs) (serial (arg n')))"
proof -
  obtain n where n: "fake_client RegisterModel_init 9 = Inr n" "fake_idle n" "fake_model n = RegisterModel_init"
      "buf_idx n = 0"
    using fake_client_created [of 9 RegisterModel_init]
    by (auto simp: fake_client_def GripperModbusClient_create_def nmbs_create_def nmbs_set_byte_timeout_def
        nmbs_set_read_timeout_def nmbs_set_destination_rtu_address_def Let_def split: sum.splits prod.splits)
  obtain n' where x: "client_exchange n GripperCommand_defaults =
      (fst (device_exchange RegisterModel_init GripperCommand_defaults), n')"
    using fake_exchange_refines [OF n(2)] n(3) by metis
  then obtain s where s: "client_exchange n GripperCommand_defaults = (Inr s, n')"
    by (auto simp: device_exchange_def)
  have "platform n = serial_conf fake_serial" "length (buf n) = kBufSize" "\<not> oob n"
    using n(2,4) by (simp_all add: fake_idle_def client.ready_def)
  from exchange_accepts_only_replies [OF s this] n(1) s show ?thesis by blast
qed

section \<open>Any request\<close>

text \<open>What a poll does once the header has arrived.\<close>

lemma poll_after_header:
  assumes "run_state (msg_state_reset \<bind> (\<lambda>_. recv_req_header)) s = ((NMBS_ERROR_NONE, True), s1)"
    and "run_state (handle_req_fc cbs) s1 = (e, s2)"
  shows "snd (run_state (nmbs_server_poll cbs) s) =
    (if e \<noteq> NMBS_ERROR_NONE \<and> e \<noteq> NMBS_ERROR_TIMEOUT then snd (run_state flush s2) else s2)"
  using assms
  by (cases "run_state msg_state_reset s"; cases "run_state flush s2")
     (auto simp: nmbs_server_poll_def)

lemma ready_arg_fields:
  "server.ready s \<Longrightarrow> server.ready (s\<lparr>arg := a\<rparr>)" by (simp add: server_ready_arg)

text \<open>C22: A request to the fake gripper's server, whatever follows its function code, keeps the
  server within its message buffer, as long as that code is not one of 16, 20, 21 and 43.\<close>

theorem server_stays_in_buffer:
  assumes "server.ready s" and "address_rtu s = u" and "u \<noteq> 0" and "fromClient (arg s) = []"
    and "checked_fc f"
  shows "\<not> oob (deliver (u # f # rest) s) \<and> length (buf (deliver (u # f # rest) s)) = kBufSize"
proof -
  define s0 where "s0 = s\<lparr>arg := (arg s)\<lparr>fromClient := fromClient (arg s) @ u # f # rest\<rparr>\<rparr>"
  define s1 where "s1 = wr [u, f] (fresh u f (s0\<lparr>arg := (arg s0)\<lparr>fromClient := rest\<rparr>\<rparr>))"
  have s0: "server.ready s0" "fromClient (arg s0) = u # f # rest" "address_rtu s0 = u"
    using assms by (simp_all add: s0_def server_ready_arg)
  have h: "run_state (msg_state_reset \<bind> (\<lambda>_. recv_req_header)) s0 = ((NMBS_ERROR_NONE, True), s1)"
    using server.run_server_header [OF s0(1,2) _ s0(3)] assms(3) s0(2)
    by (simp add: s1_def NMBS_BROADCAST_ADDRESS_def)
  have "reach fake_conf 2 s1 \<and> checked_fc (fc s1)"
    using s0 assms(5) by (auto simp: s1_def server.ready_def reach_def wr_def hold_def kBufSize_def)
  moreover obtain e s2 where r: "run_state (handle_req_fc fake_callbacks) s1 = (e, s2)"
    by (metis surj_pair)
  ultimately have "intact fake_conf s2"
    using server.safe_dispatch [of fake_callbacks] by (auto dest: nm_specD)
  then have "reach fake_conf (buf_idx s2) s2" by (simp add: intact_def reach_def)
  then have "reach fake_conf (buf_idx s2) (snd (run_state flush s2))"
    using server.moves_flush unfolding moves_def by (cases "run_state flush s2") (auto dest: nm_specD)
  with poll_after_header [OF h r] \<open>intact fake_conf s2\<close> show ?thesis
    by (simp add: deliver_def s0_def [symmetric] intact_def reach_def)
qed

definition idle_server :: GripperServer where
  "idle_server = (nmbs_create fake_conf \<lparr>impl_model = RegisterModel_init, fromClient = [], toClient = []\<rparr>)
     \<lparr>address_rtu := 9, byte_timeout_ms := 10, read_timeout_ms := 10\<rparr>"

lemma idle_server [simp]:
  "server.ready idle_server" "address_rtu idle_server = 9" "fromClient (arg idle_server) = []"
  by (simp_all add: idle_server_def nmbs_create_def server.ready_def)

theorem server_stays_in_buffer_witness:
  "\<not> oob (deliver (9 # 3 # replicate 300 0xFF) idle_server)"
proof -
  have "(9 :: u8) \<noteq> 0" "checked_fc 3" by (simp_all add: checked_fc_def)
  from server_stays_in_buffer [OF idle_server(1,2) this(1) idle_server(3) this(2)] show ?thesis by blast
qed

text \<open>Function code 16 is different: its handler receives the announced number of register bytes
  before it checks that number, so a request that announces 255 of them is stored past the end of
  the 260-byte message buffer.\<close>

theorem write_registers_overflows:
  assumes "server.ready s" and "address_rtu s = u" and "u \<noteq> 0" and "fromClient (arg s) = []"
    and "length data = 255"
  shows "oob (deliver ([u, 16, ah, al, qh, ql, 255] @ data) s)"
proof -
  define body where "body = [ah, al, qh, ql, 255] @ data"
  define s0 where "s0 = s\<lparr>arg := (arg s)\<lparr>fromClient := fromClient (arg s) @ u # 16 # body\<rparr>\<rparr>"
  define F where "F q = fresh u 16 (s0\<lparr>arg := (arg s0)\<lparr>fromClient := q\<rparr>\<rparr>)" for q
  have s0: "server.ready s0" "fromClient (arg s0) = u # 16 # body" "address_rtu s0 = u"
    using assms by (simp_all add: s0_def server_ready_arg)
  have F: "fits k (F q) \<longleftrightarrow> k \<le> kBufSize" "platform (F q) = fake_conf" "\<not> complete (F q)"
      "byte_timeout_ms (F q) \<noteq> 0" "fromClient (arg (F q)) = q"
      "F q\<lparr>arg := (arg (F q))\<lparr>fromClient := r\<rparr>\<rparr> = F r" "buf_idx (F q) = 0" "length (buf (F q)) = kBufSize" for k q r
    using s0 by (auto simp: fits_def F_def server.ready_def)
  have h: "run_state (msg_state_reset \<bind> (\<lambda>_. recv_req_header)) s0 =
      ((NMBS_ERROR_NONE, True), wr [u, 16] (F body))"
    using server.run_server_header [OF s0(1,2) _ s0(3)] assms(3) s0(2)
    by (simp add: F_def NMBS_BROADCAST_ADDRESS_def)
  have five: "run_state (recv 5) (wr [u, 16] (F body)) =
      (NMBS_ERROR_NONE, hold [ah, al, qh, ql, 255] (wr [u, 16] (F data)))"
    using server.run_recv_list [of "wr [u, 16] (F body)" "[ah, al, qh, ql, 255]" data 5] F
    by (simp add: body_def kBufSize_def)
  define s3 where "s3 = wr [u, 16, ah, al, qh, ql, 255] (F data)"
  have g1: "run_state get_2 (hold [ah, al, qh, ql, 255] (wr [u, 16] (F data))) =
      (pack16 ah al, hold [qh, ql, 255] (wr [u, 16, ah, al] (F data)))"
    using F by (simp add: run_get_2 kBufSize_def)
  have g2: "run_state get_2 (hold [qh, ql, 255] (wr [u, 16, ah, al] (F data))) =
      (pack16 qh ql, hold [255] (wr [u, 16, ah, al, qh, ql] (F data)))"
    using F by (simp add: run_get_2 kBufSize_def)
  have g3: "run_state get_1 (hold [255] (wr [u, 16, ah, al, qh, ql] (F data))) = (255, s3)"
    using F run_get_1 [of "[]" "wr [u, 16, ah, al, qh, ql] (F data)" 255] by (simp add: s3_def kBufSize_def)
  have rq: "pread (platform s3) 255 (byte_timeout_ms s3) (arg s3) =
      (255, data, (arg s3)\<lparr>fromClient := []\<rparr>)"
    using F assms(5) by (simp add: s3_def fake_conf_def readFromClient_def)
  define s4 where "s4 = store_at (buf_idx s3) data (s3\<lparr>arg := (arg s3)\<lparr>fromClient := []\<rparr>\<rparr>)"
  have r4: "run_state (recv 255) s3 = (NMBS_ERROR_NONE, s4)"
    using F rq by (simp add: recv_def s4_def) (simp add: s3_def F)
  have "oob s4"
    using F assms(5) by (simp add: s4_def store_at_def touch_def s3_def wr_def hold_def kBufSize_def)
  moreover have "run_state (handle_req_fc fake_callbacks) (wr [u, 16] (F body)) = (NMBS_ERROR_INVALID_REQUEST, s4)"
    using five g1 g2 g3 r4
    by (simp add: handle_req_fc_def handle_write_multiple_registers_def on_ok_def F_def)
  from poll_after_header [OF h this]
  have "deliver ([u, 16, ah, al, qh, ql, 255] @ data) s = snd (run_state flush s4)"
    using assms(4) by (simp add: deliver_def s0_def body_def)
  ultimately show ?thesis by (auto simp: flush_def store_at_def touch_def split: prod.splits)
qed

theorem write_registers_overflows_witness:
  "oob (deliver ([9, 16, 0, 0, 0, 127, 255] @ replicate 255 0) idle_server)"
proof -
  have "(9 :: u8) \<noteq> 0" "length (replicate 255 (0 :: u8)) = 255" by simp_all
  from write_registers_overflows [OF idle_server(1,2) this(1) idle_server(3) this(2)] show ?thesis .
qed

end
