(* ===== verification/PortInterface.thy ===== *)
theory PortInterface
  imports Prelude
begin

text \<open>
  \<open>src/detail/serial_port.hpp\<close>: the operations of a \<open>SerialPort\<close> as its two implementations
  provide them and \<open>DefaultSerial\<close> calls them. \<open>'p\<close> is the port object, \<open>'o\<close> the operating
  system behind it. \<open>None\<close>: a loop that has not ended within the fuel of the implementation.
\<close>

record ('p, 'o) port_ops =
  p_open :: "string \<Rightarrow> nat \<Rightarrow> 'o \<Rightarrow> (exc + 'p) \<times> 'o"
  p_close :: "'p \<Rightarrow> 'o \<Rightarrow> 'o"
  p_read :: "'p \<Rightarrow> nat \<Rightarrow> millis \<Rightarrow> 'o \<Rightarrow> ((exc + u8 list) \<times> 'p \<times> 'o) option"
  p_write :: "'p \<Rightarrow> u8 list \<Rightarrow> millis \<Rightarrow> 'o \<Rightarrow> ((exc + nat) \<times> 'p \<times> 'o) option"
  p_drain :: "'p \<Rightarrow> millis \<Rightarrow> 'o \<Rightarrow> ((exc + bool) \<times> 'o) option"

end
