(* ===== verification/PosixSerial.thy ===== *)
theory PosixSerial
  imports PortInterface
begin

text \<open>
  \<open>src/detail/posix/serial_port.cpp\<close>: the serial port over termios and a non-blocking descriptor.
  The system calls are the fields of \<open>posix_os\<close>, functions on a state of their own that also
  carries the clock; a failing call returns its \<open>errno\<close>. The macros a platform may lack are
  \<open>posix_build\<close>. The loops take fuel: \<open>None\<close> is a loop that has not ended within it.
\<close>

section \<open>The system interface\<close>

datatype errno = EINTR | EAGAIN | EWOULDBLOCK | ENOENT | ENODEV | ENXIO | EIO | OtherErrno nat

datatype iflag = IXOFF | IXANY | INPCK | IUCLC | OtherIflag nat
datatype cflag = CSTOPB | CRTSCTS | CREAD | CLOCAL | OtherCflag nat

datatype speed_t = BaudConstant nat

record termios =
  c_iflag :: "iflag set"
  c_cflag :: "cflag set"
  c_lflag :: "nat set"
  c_oflag :: "nat set"
  c_vmin :: u8
  c_vtime :: u8
  c_ispeed :: speed_t
  c_ospeed :: speed_t

datatype poll_event = POLLIN | POLLOUT | POLLERR | POLLNVAL | POLLHUP

datatype ioctl_request = TIOCEXCL | TIOCNXCL | TIOCMBIC_RTS_DTR

record posix_build =
  has_B460800 :: bool
  has_B500000 :: bool
  has_B921600 :: bool
  has_B1000000 :: bool
  has_IUCLC :: bool
  has_CRTSCTS :: bool
  has_TIOCEXCL :: bool
  has_TIOCMBIC :: bool
  has_TIOCNXCL :: bool
  has_TIOCOUTQ :: bool

definition all_features :: posix_build where
  "all_features =
     \<lparr>has_B460800 = True, has_B500000 = True, has_B921600 = True, has_B1000000 = True, has_IUCLC = True,
      has_CRTSCTS = True, has_TIOCEXCL = True, has_TIOCMBIC = True, has_TIOCNXCL = True, has_TIOCOUTQ = True\<rparr>"

record 'o posix_os =
  sys_now :: "'o \<Rightarrow> time \<times> 'o"
  sys_open :: "string \<Rightarrow> 'o \<Rightarrow> (errno + int) \<times> 'o"
  sys_close :: "int \<Rightarrow> 'o \<Rightarrow> 'o"
  sys_read :: "int \<Rightarrow> nat \<Rightarrow> 'o \<Rightarrow> (errno + u8 list) \<times> 'o"
  sys_write :: "int \<Rightarrow> u8 list \<Rightarrow> 'o \<Rightarrow> (errno + nat) \<times> 'o"
  sys_poll :: "int \<Rightarrow> poll_event \<Rightarrow> int \<Rightarrow> 'o \<Rightarrow> (errno + poll_event list) \<times> 'o"
  sys_ioctl :: "int \<Rightarrow> ioctl_request \<Rightarrow> 'o \<Rightarrow> 'o"
  sys_outq :: "int \<Rightarrow> 'o \<Rightarrow> nat option \<times> 'o"
  sys_tcdrain :: "int \<Rightarrow> 'o \<Rightarrow> errno option \<times> 'o"
  sys_tcgetattr :: "int \<Rightarrow> 'o \<Rightarrow> (errno + termios) \<times> 'o"
  sys_tcsetattr :: "int \<Rightarrow> termios \<Rightarrow> 'o \<Rightarrow> errno option \<times> 'o"
  sys_cfmakeraw :: "termios \<Rightarrow> termios"
  sys_cfsetspeed :: "speed_t \<Rightarrow> termios \<Rightarrow> errno + termios"
  sys_sleep_for :: "time \<Rightarrow> 'o \<Rightarrow> 'o"
  sys_message :: "errno \<Rightarrow> string"

definition kWireBitsPerByte :: nat where "kWireBitsPerByte = 10"

definition os_fail :: "'o posix_os \<Rightarrow> string \<Rightarrow> errno \<Rightarrow> exc" where
  "os_fail os context e = SerialIOException (context @ '': '' @ sys_message os e)"

definition failHungUp :: "string \<Rightarrow> exc" where
  "failHungUp context = SerialIOException (context @ '': the other end hung up'')"

section \<open>Configuration\<close>

text \<open>\<open>None\<close> is the 0 of the code: the platform has no such rate.\<close>

definition baudConstant :: "posix_build \<Rightarrow> nat \<Rightarrow> speed_t option" where
  "baudConstant b baudrate =
     (if baudrate \<in> {1200, 2400, 4800, 9600, 19200, 38400, 57600, 115200, 230400}
        \<or> (has_B460800 b \<and> baudrate = 460800) \<or> (has_B500000 b \<and> baudrate = 500000)
        \<or> (has_B921600 b \<and> baudrate = 921600) \<or> (has_B1000000 b \<and> baudrate = 1000000)
      then Some (BaudConstant baudrate) else None)"

definition raw_8n1 :: "'o posix_os \<Rightarrow> posix_build \<Rightarrow> termios \<Rightarrow> termios" where
  "raw_8n1 os b tty =
     (let tty = sys_cfmakeraw os tty;
          tty = tty\<lparr>c_iflag := c_iflag tty - {IXOFF, IXANY, INPCK}\<rparr>;
          tty = (if has_IUCLC b then tty\<lparr>c_iflag := c_iflag tty - {IUCLC}\<rparr> else tty);
          tty = tty\<lparr>c_cflag := c_cflag tty - {CSTOPB}\<rparr>;
          tty = (if has_CRTSCTS b then tty\<lparr>c_cflag := c_cflag tty - {CRTSCTS}\<rparr> else tty);
          tty = tty\<lparr>c_cflag := c_cflag tty \<union> {CREAD, CLOCAL}\<rparr>
      in tty\<lparr>c_vmin := 0, c_vtime := 0\<rparr>)"

definition posix_configure ::
  "'o posix_os \<Rightarrow> posix_build \<Rightarrow> int \<Rightarrow> nat \<Rightarrow> 'o \<Rightarrow> (exc + unit) \<times> 'o" where
  "posix_configure os b fd baudrate w =
     (case baudConstant b baudrate of
        None \<Rightarrow> (Inl (SerialIOException (''unsupported baud rate '' @ to_string baudrate)), w)
      | Some speed \<Rightarrow>
          (case sys_tcgetattr os fd w of
             (Inl e, w) \<Rightarrow> (Inl (os_fail os ''reading the serial port attributes'' e), w)
           | (Inr tty, w) \<Rightarrow>
               (case sys_cfsetspeed os speed (raw_8n1 os b tty) of
                  Inl e \<Rightarrow> (Inl (os_fail os ''setting the baud rate'' e), w)
                | Inr tty \<Rightarrow>
                    (case sys_tcsetattr os fd tty w of
                       (Some e, w) \<Rightarrow> (Inl (os_fail os ''configuring the serial port'' e), w)
                     | (None, w) \<Rightarrow> (Inr (), w)))))"

definition applyLineDefaults :: "'o posix_os \<Rightarrow> posix_build \<Rightarrow> int \<Rightarrow> 'o \<Rightarrow> 'o" where
  "applyLineDefaults os b fd w =
     (let w = (if has_TIOCEXCL b then sys_ioctl os fd TIOCEXCL w else w)
      in if has_TIOCMBIC b then sys_ioctl os fd TIOCMBIC_RTS_DTR w else w)"

section \<open>Opening and closing\<close>

record SerialPort =
  port_fd :: int
  port_baudrate :: nat

definition SerialPort_init :: SerialPort where
  "SerialPort_init = \<lparr>port_fd = -1, port_baudrate = 0\<rparr>"

definition posix_open ::
  "'o posix_os \<Rightarrow> posix_build \<Rightarrow> string \<Rightarrow> nat \<Rightarrow> SerialPort \<Rightarrow> 'o \<Rightarrow> (exc + SerialPort) \<times> 'o" where
  "posix_open os b port baudrate sp w =
     (case sys_open os port w of
        (Inl e, w) \<Rightarrow>
          (Inl (if e \<in> {ENOENT, ENODEV, ENXIO}
                then SerialIOException (''no serial port named '' @ quoted port @ '' (is the device connected?)'')
                else os_fail os (''opening serial port '' @ quoted port) e), w)
      | (Inr fd, w) \<Rightarrow>
          (case posix_configure os b fd baudrate w of
             (Inl e, w) \<Rightarrow> (Inl e, sys_close os fd w)
           | (Inr u, w) \<Rightarrow>
               (Inr (sp\<lparr>port_fd := fd, port_baudrate := baudrate\<rparr>), applyLineDefaults os b fd w)))"

definition posix_close :: "'o posix_os \<Rightarrow> posix_build \<Rightarrow> SerialPort \<Rightarrow> 'o \<Rightarrow> SerialPort \<times> 'o" where
  "posix_close os b sp w =
     (if port_fd sp \<ge> 0
      then let w = (if has_TIOCNXCL b then sys_ioctl os (port_fd sp) TIOCNXCL w else w);
               w = sys_close os (port_fd sp) w
           in (sp\<lparr>port_fd := -1\<rparr>, w)
      else (sp, w))"

section \<open>Waiting\<close>

datatype WaitResult = Ready | Interrupted | TimedOut

definition kInt32Max :: int where "kInt32Max = 2 ^ 31 - 1"
definition kNanosecondsMax :: time where "kNanosecondsMax = 2 ^ 63 - 1"

text \<open>An empty list of returned events is a \<open>poll\<close> that timed out.\<close>

definition waitReady ::
  "'o posix_os \<Rightarrow> int \<Rightarrow> poll_event \<Rightarrow> time \<Rightarrow> string \<Rightarrow> 'o \<Rightarrow> (exc + WaitResult) \<times> 'o" where
  "waitReady os fd events remaining context w =
     (let ms = ceil_ms remaining
      in case sys_poll os fd events (min ms kInt32Max) w of
           (Inl e, w) \<Rightarrow> (if e = EINTR then Inr Interrupted else Inl (os_fail os context e), w)
         | (Inr revents, w) \<Rightarrow>
             (if POLLERR \<in> set revents \<or> POLLNVAL \<in> set revents then Inl (os_fail os context EIO)
              else if events \<notin> set revents \<and> POLLHUP \<in> set revents then Inl (failHungUp context)
              else Inr (if revents = [] then TimedOut else Ready), w))"

section \<open>Reading\<close>

text \<open>\<open>received\<close> is what the buffer holds so far.\<close>

fun posix_read_loop ::
  "nat \<Rightarrow> 'o posix_os \<Rightarrow> int \<Rightarrow> nat \<Rightarrow> time \<Rightarrow> u8 list \<Rightarrow> bool \<Rightarrow> 'o \<Rightarrow> ((exc + u8 list) \<times> 'o) option" where
  "posix_read_loop 0 os fd sz deadline received polledReadable w = None"
| "posix_read_loop (Suc fuel) os fd sz deadline received polledReadable w =
     (if \<not> length received < sz then Some (Inr received, w)
      else let (count, w) = sys_read os fd (sz - length received) w;
               nothing_buffered =
                 (let (now, w) = sys_now os w;
                      remaining = deadline - now
                  in if remaining \<le> 0 then Some (Inr received, w)
                     else case waitReady os fd POLLIN remaining ''waiting for serial input'' w of
                            (Inl e, w) \<Rightarrow> Some (Inl e, w)
                          | (Inr result, w) \<Rightarrow>
                              if result = TimedOut then Some (Inr received, w)
                              else posix_read_loop fuel os fd sz deadline received (result = Ready) w)
           in case count of
                Inr (b # bs) \<Rightarrow> posix_read_loop fuel os fd sz deadline (received @ b # bs) polledReadable w
              | Inr [] \<Rightarrow>
                  if polledReadable then Some (Inl (failHungUp ''reading from the serial port''), w)
                  else nothing_buffered
              | Inl e \<Rightarrow>
                  if e = EINTR then posix_read_loop fuel os fd sz deadline received polledReadable w
                  else if e \<noteq> EAGAIN \<and> e \<noteq> EWOULDBLOCK
                  then Some (Inl (os_fail os ''reading from the serial port'' e), w)
                  else nothing_buffered)"

definition posix_read ::
  "nat \<Rightarrow> 'o posix_os \<Rightarrow> SerialPort \<Rightarrow> nat \<Rightarrow> millis \<Rightarrow> 'o \<Rightarrow> ((exc + u8 list) \<times> 'o) option" where
  "posix_read fuel os sp sz timeout w =
     (let (now, w) = sys_now os w
      in posix_read_loop fuel os (port_fd sp) sz (now + ns_of_ms timeout) [] False w)"

section \<open>Writing\<close>

text \<open>The result is the number of bytes sent.\<close>

fun posix_write_loop ::
  "nat \<Rightarrow> 'o posix_os \<Rightarrow> int \<Rightarrow> u8 list \<Rightarrow> bool \<Rightarrow> time \<Rightarrow> nat \<Rightarrow> 'o \<Rightarrow> ((exc + nat) \<times> 'o) option" where
  "posix_write_loop 0 os fd data unbounded deadline sent w = None"
| "posix_write_loop (Suc fuel) os fd data unbounded deadline sent w =
     (if \<not> sent < length data then Some (Inr sent, w)
      else let (count, w) = sys_write os fd (drop sent data) w;
               nothing_sent =
                 (let (now, w) = (if unbounded then (0, w) else sys_now os w);
                      remaining = (if unbounded then kNanosecondsMax else deadline - now)
                  in if remaining \<le> 0 then Some (Inr sent, w)
                     else case waitReady os fd POLLOUT remaining ''waiting to send on the serial port'' w of
                            (Inl e, w) \<Rightarrow> Some (Inl e, w)
                          | (Inr result, w) \<Rightarrow>
                              if result = TimedOut then Some (Inr sent, w)
                              else posix_write_loop fuel os fd data unbounded deadline sent w)
           in case count of
                Inr (Suc k) \<Rightarrow> posix_write_loop fuel os fd data unbounded deadline (sent + Suc k) w
              | Inr 0 \<Rightarrow> nothing_sent
              | Inl e \<Rightarrow>
                  if e = EINTR then posix_write_loop fuel os fd data unbounded deadline sent w
                  else if e \<noteq> EAGAIN \<and> e \<noteq> EWOULDBLOCK
                  then Some (Inl (os_fail os ''writing to the serial port'' e), w)
                  else nothing_sent)"

definition posix_write ::
  "nat \<Rightarrow> 'o posix_os \<Rightarrow> SerialPort \<Rightarrow> u8 list \<Rightarrow> millis \<Rightarrow> 'o \<Rightarrow> ((exc + nat) \<times> 'o) option" where
  "posix_write fuel os sp data timeout w =
     (let unbounded = (timeout = 0);
          (now, w) = sys_now os w
      in posix_write_loop fuel os (port_fd sp) data unbounded (now + ns_of_ms timeout) 0 w)"

section \<open>Draining\<close>

fun outq_loop ::
  "nat \<Rightarrow> 'o posix_os \<Rightarrow> int \<Rightarrow> bool \<Rightarrow> time \<Rightarrow> time \<Rightarrow> 'o \<Rightarrow> (bool \<times> 'o) option" where
  "outq_loop 0 os fd unbounded deadline byteTime w = None"
| "outq_loop (Suc fuel) os fd unbounded deadline byteTime w =
     (case sys_outq os fd w of
        (Some (Suc k), w) \<Rightarrow>
          (let (now, w) = (if unbounded then (deadline, w) else sys_now os w)
           in if \<not> unbounded \<and> now \<ge> deadline then Some (False, w)
              else outq_loop fuel os fd unbounded deadline byteTime
                     (sys_sleep_for os (byteTime * int (Suc k)) w))
      | (_, w) \<Rightarrow> Some (True, w))"

fun tcdrain_loop :: "nat \<Rightarrow> 'o posix_os \<Rightarrow> int \<Rightarrow> 'o \<Rightarrow> ((exc + unit) \<times> 'o) option" where
  "tcdrain_loop 0 os fd w = None"
| "tcdrain_loop (Suc fuel) os fd w =
     (case sys_tcdrain os fd w of
        (None, w) \<Rightarrow> Some (Inr (), w)
      | (Some e, w) \<Rightarrow>
          if e \<noteq> EINTR then Some (Inl (os_fail os ''draining the serial port'' e), w)
          else tcdrain_loop fuel os fd w)"

text \<open>Microseconds per byte, in the nanoseconds of the clock.\<close>

definition byte_time :: "nat \<Rightarrow> time" where
  "byte_time baudrate = int (1000000 * kWireBitsPerByte div baudrate) * 1000"

definition posix_drain ::
  "nat \<Rightarrow> 'o posix_os \<Rightarrow> posix_build \<Rightarrow> SerialPort \<Rightarrow> millis \<Rightarrow> 'o \<Rightarrow> ((exc + bool) \<times> 'o) option" where
  "posix_drain fuel os b sp timeout w =
     (let emptied =
        (if has_TIOCOUTQ b
         then let (now, w) = sys_now os w
              in outq_loop fuel os (port_fd sp) (timeout = 0) (now + ns_of_ms timeout)
                   (byte_time (port_baudrate sp)) w
         else Some (True, w))
      in case emptied of
           None \<Rightarrow> None
         | Some (False, w) \<Rightarrow> Some (Inr False, w)
         | Some (True, w) \<Rightarrow>
             (case tcdrain_loop fuel os (port_fd sp) w of
                None \<Rightarrow> None
              | Some (Inl e, w) \<Rightarrow> Some (Inl e, w)
              | Some (Inr u, w) \<Rightarrow> Some (Inr True, w)))"


section \<open>As a port\<close>

definition posix_port :: "nat \<Rightarrow> 'o posix_os \<Rightarrow> posix_build \<Rightarrow> (SerialPort, 'o) port_ops" where
  "posix_port fuel os b =
     \<lparr>p_open = (\<lambda>port baudrate. posix_open os b port baudrate SerialPort_init),
      p_close = (\<lambda>sp w. snd (posix_close os b sp w)),
      p_read = (\<lambda>sp sz timeout w. map_option (\<lambda>(r, w). (r, sp, w)) (posix_read fuel os sp sz timeout w)),
      p_write = (\<lambda>sp data timeout w. map_option (\<lambda>(r, w). (r, sp, w)) (posix_write fuel os sp data timeout w)),
      p_drain = posix_drain fuel os b\<rparr>"

end
