(* ===== verification/PosixProperties.thy ===== *)
theory PosixProperties
  imports PosixSerial
begin

text \<open>
  What the reads of \<open>PosixSerial\<close> promise on an operating system that keeps \<open>posix_contract\<close>: they
  end, return the bytes the terminal delivered, in order, and come back short only at the deadline;
  with a zero timeout they never wait. \<open>tty\<close> is a terminal that keeps the contract, on which the
  false hang-up of \<open>SerialPort::read\<close> shows.
\<close>

section \<open>What POSIX promises\<close>

text \<open>
  \<open>clk\<close> reads the monotonic clock, \<open>got\<close> the bytes that reads have returned so far and \<open>intr\<close> a
  bound on the signals still to come. A call returns no more than asked for; a signal uses up
  one of \<open>intr\<close>; a poll takes time, and one that times out takes the time it was given.
\<close>

definition posix_contract ::
  "'o posix_os \<Rightarrow> ('o \<Rightarrow> time) \<Rightarrow> ('o \<Rightarrow> u8 list) \<Rightarrow> ('o \<Rightarrow> nat) \<Rightarrow> bool" where
  "posix_contract os clk got intr \<longleftrightarrow>
     (\<forall>w t w'. sys_now os w = (t, w')
        \<longrightarrow> clk w \<le> t \<and> t \<le> clk w' \<and> got w' = got w \<and> intr w' \<le> intr w)
   \<and> (\<forall>fd n w r w'. sys_read os fd n w = (r, w')
        \<longrightarrow> clk w \<le> clk w' \<and> intr w' \<le> intr w \<and> (r = Inl EINTR \<longrightarrow> intr w' < intr w)
           \<and> (case r of Inl e \<Rightarrow> got w' = got w | Inr bs \<Rightarrow> length bs \<le> n \<and> got w' = got w @ bs))
   \<and> (\<forall>fd ev ms w r w'. 0 < ms \<longrightarrow> sys_poll os fd ev ms w = (r, w')
        \<longrightarrow> clk w < clk w' \<and> intr w' \<le> intr w \<and> got w' = got w
           \<and> (r = Inr [] \<longrightarrow> clk w + ns_of_ms ms \<le> clk w'))"

lemma contract_now:
  assumes "posix_contract os clk got intr" "sys_now os w = (t, w')"
  shows "clk w \<le> t" "t \<le> clk w'" "got w' = got w" "intr w' \<le> intr w"
  using assms(1) [unfolded posix_contract_def, THEN conjunct1, rule_format, OF assms(2)] by simp_all

lemma contract_read:
  assumes "posix_contract os clk got intr" "sys_read os fd n w = (r, w')"
  shows "clk w \<le> clk w'" "intr w' \<le> intr w" "r = Inl EINTR \<Longrightarrow> intr w' < intr w"
    "r = Inl e \<Longrightarrow> got w' = got w" "r = Inr bs \<Longrightarrow> length bs \<le> n" "r = Inr bs \<Longrightarrow> got w' = got w @ bs"
  using assms(1) [unfolded posix_contract_def, THEN conjunct2, THEN conjunct1, rule_format, OF assms(2)]
  by simp_all

lemma contract_poll:
  assumes "posix_contract os clk got intr" "0 < ms" "sys_poll os fd ev ms w = (r, w')"
  shows "clk w < clk w'" "intr w' \<le> intr w" "got w' = got w"
    "r = Inr [] \<Longrightarrow> clk w + ns_of_ms ms \<le> clk w'"
  using assms(1) [unfolded posix_contract_def, THEN conjunct2, THEN conjunct2, rule_format, OF assms(2,3)]
  by simp_all

section \<open>Waiting\<close>

lemma ceil_ms_pos: "0 < t \<Longrightarrow> 0 < ceil_ms t"
  using ceil_ms_bounds(1) [of t] by (simp add: ns_of_ms_def)

lemma waitReady_contract:
  assumes c: "posix_contract os clk got intr" and pos: "0 < remaining"
    and run: "waitReady os fd ev remaining context w = (r, w')"
  shows "clk w < clk w'" "intr w' \<le> intr w" "got w' = got w"
    "r = Inr TimedOut \<Longrightarrow> remaining \<le> ns_of_ms kInt32Max \<Longrightarrow> clk w + remaining \<le> clk w'"
proof -
  let ?ms = "min (ceil_ms remaining) kInt32Max"
  obtain p where p: "sys_poll os fd ev ?ms w = (p, w')"
    and r: "r = Inr TimedOut \<Longrightarrow> p = Inr []"
    using run
    by (cases "sys_poll os fd ev ?ms w") (auto simp: waitReady_def Let_def split: sum.splits if_splits)
  have ms: "0 < ?ms" using ceil_ms_pos [OF pos] by (simp add: kInt32Max_def)
  note poll = contract_poll [OF c ms p]
  show "clk w < clk w'" "intr w' \<le> intr w" "got w' = got w" by (fact poll)+
  have "remaining \<le> ns_of_ms ?ms" if "remaining \<le> ns_of_ms kInt32Max"
    using that ceil_ms_bounds(1) [of remaining] by (simp add: min_def)
  then show "clk w + remaining \<le> clk w'"
    if "r = Inr TimedOut" "remaining \<le> ns_of_ms kInt32Max"
    using poll(4) [OF r [OF that(1)]] that(2) by simp
qed

section \<open>The loop of \<open>read\<close>\<close>

text \<open>The branches of one turn: what the read returned, then the clock and the wait.\<close>

lemma read_loop_full:
  "\<not> length received < sz \<Longrightarrow>
     posix_read_loop (Suc fuel) os fd sz deadline received pr w = Some (Inr received, w)"
  by simp

definition after_nothing ::
  "nat \<Rightarrow> 'o posix_os \<Rightarrow> int \<Rightarrow> nat \<Rightarrow> time \<Rightarrow> u8 list \<Rightarrow> 'o \<Rightarrow> ((exc + u8 list) \<times> 'o) option" where
  "after_nothing fuel os fd sz deadline received w =
     (let (now, w) = sys_now os w;
          remaining = deadline - now
      in if remaining \<le> 0 then Some (Inr received, w)
         else case waitReady os fd POLLIN remaining ''waiting for serial input'' w of
                (Inl e, w) \<Rightarrow> Some (Inl e, w)
              | (Inr result, w) \<Rightarrow>
                  if result = TimedOut then Some (Inr received, w)
                  else posix_read_loop fuel os fd sz deadline received (result = Ready) w)"

lemma read_loop_step:
  assumes "length received < sz" "sys_read os fd (sz - length received) w = (count, w')"
  shows "posix_read_loop (Suc fuel) os fd sz deadline received pr w =
     (case count of
        Inr (b # bs) \<Rightarrow> posix_read_loop fuel os fd sz deadline (received @ b # bs) pr w'
      | Inr [] \<Rightarrow> if pr then Some (Inl (failHungUp ''reading from the serial port''), w')
                 else after_nothing fuel os fd sz deadline received w'
      | Inl e \<Rightarrow>
          if e = EINTR then posix_read_loop fuel os fd sz deadline received pr w'
          else if e \<noteq> EAGAIN \<and> e \<noteq> EWOULDBLOCK
          then Some (Inl (os_fail os ''reading from the serial port'' e), w')
          else after_nothing fuel os fd sz deadline received w')"
  using assms
  by (subst posix_read_loop.simps(2))
     (simp add: after_nothing_def Let_def del: posix_read_loop.simps split: sum.split list.split)

declare posix_read_loop.simps(2) [simp del]


text \<open>
  What a turn leaves for the induction: \<open>Q\<close> holds of every way it can end, and of the loop
  again from a state that is nearer to the end.
\<close>

lemma after_nothing_cases:
  assumes c: "posix_contract os clk got intr"
  obtains
    (expired) w' where "after_nothing fuel os fd sz deadline received w = Some (Inr received, w')"
      "got w' = got w" "deadline - clk w \<le> ns_of_ms kInt32Max \<Longrightarrow> deadline \<le> clk w'"
  | (failed) e w' where "after_nothing fuel os fd sz deadline received w = Some (Inl e, w')"
  | (again) pr w' where
      "after_nothing fuel os fd sz deadline received w
         = posix_read_loop fuel os fd sz deadline received pr w'"
      "clk w < deadline" "clk w < clk w'" "intr w' \<le> intr w" "got w' = got w"
proof -
  obtain now w1 where n: "sys_now os w = (now, w1)" by (cases "sys_now os w")
  note now = contract_now [OF c n]
  obtain r w2 where r: "waitReady os fd POLLIN (deadline - now) ''waiting for serial input'' w1 = (r, w2)"
    by (cases "waitReady os fd POLLIN (deadline - now) ''waiting for serial input'' w1")
  show thesis
  proof (cases "deadline - now \<le> 0")
    case True
    then have "after_nothing fuel os fd sz deadline received w = Some (Inr received, w1)"
      by (simp add: after_nothing_def n)
    then show ?thesis using expired now True by force
  next
    case False
    then have pos: "0 < deadline - now" by simp
    note wait = waitReady_contract [OF c pos r]
    have run: "after_nothing fuel os fd sz deadline received w =
        (case r of Inl e \<Rightarrow> Some (Inl e, w2)
         | Inr result \<Rightarrow> if result = TimedOut then Some (Inr received, w2)
             else posix_read_loop fuel os fd sz deadline received (result = Ready) w2)"
      using False by (simp add: after_nothing_def n r)
    show ?thesis
    proof (cases r)
      case (Inl e)
      then show ?thesis using failed run by simp
    next
      case (Inr result)
      show ?thesis
      proof (cases "result = TimedOut")
        case True
        have "deadline \<le> clk w2" if "deadline - clk w \<le> ns_of_ms kInt32Max"
          using wait(4) Inr True that now by simp
        then show ?thesis using expired run Inr True wait(3) now(3) by simp
      next
        case F: False
        show ?thesis
          by (rule again [of "result = Ready" w2]) (use run Inr F wait now pos in auto)
      qed
    qed
  qed
qed

section \<open>Reads end\<close>

lemma read_loop_total:
  assumes c: "posix_contract os clk got intr"
    and "sz - length received + intr w + nat (deadline - clk w) < fuel"
  shows "\<exists>r w'. posix_read_loop fuel os fd sz deadline received pr w = Some (r, w')"
  using assms(2)
proof (induction fuel arbitrary: received pr w)
  case 0
  then show ?case by simp
next
  case (Suc fuel)
  show ?case
  proof (cases "length received < sz")
    case False
    then show ?thesis by (simp add: read_loop_full)
  next
    case True
    obtain count w1 where rd: "sys_read os fd (sz - length received) w = (count, w1)"
      by (cases "sys_read os fd (sz - length received) w")
    note read = contract_read [OF c rd]
    have quiet: "\<exists>r w'. after_nothing fuel os fd sz deadline received w1 = Some (r, w')"
      by (cases rule: after_nothing_cases [OF c, of fuel fd sz deadline received w1])
         (use Suc read(1,2) in \<open>simp_all\<close>)
    have go: "\<exists>r w'. posix_read_loop fuel os fd sz deadline (received @ b # bs) pr w1 = Some (r, w')" for b bs
      by (rule Suc.IH) (use Suc.prems read(1,2) True in simp)
    have signal: "\<exists>r w'. posix_read_loop fuel os fd sz deadline received pr w1 = Some (r, w')"
      if "count = Inl EINTR"
      by (rule Suc.IH) (use Suc.prems read(1,3) that in simp)
    show ?thesis
      using quiet go signal by (auto simp: read_loop_step [OF True rd] split: sum.split list.split)
  qed
qed

section \<open>Reads return what was delivered\<close>

lemma read_loop_delivers:
  assumes c: "posix_contract os clk got intr"
    and "posix_read_loop fuel os fd sz deadline received pr w = Some (Inr bs, w')"
    and "length received \<le> sz"
  shows "length bs \<le> sz \<and> (\<exists>new. bs = received @ new \<and> got w' = got w @ new)
    \<and> (deadline - clk w \<le> ns_of_ms kInt32Max \<longrightarrow> length bs < sz \<longrightarrow> deadline \<le> clk w')"
  using assms(2,3)
proof (induction fuel arbitrary: received pr w)
  case 0
  then show ?case by simp
next
  case (Suc fuel)
  show ?case
  proof (cases "length received < sz")
    case False
    then show ?thesis using Suc.prems by (simp add: read_loop_full)
  next
    case True
    obtain count w1 where rd: "sys_read os fd (sz - length received) w = (count, w1)"
      by (cases "sys_read os fd (sz - length received) w")
    note read = contract_read [OF c rd]
    note run = Suc.prems(1) [unfolded read_loop_step [OF True rd]]
    have quiet: ?thesis if "after_nothing fuel os fd sz deadline received w1 = Some (Inr bs, w')" "got w1 = got w"
      by (cases rule: after_nothing_cases [OF c, of fuel fd sz deadline received w1])
         (use that Suc read(1) True in \<open>fastforce+\<close>)
    show ?thesis
    proof (cases count)
      case (Inl e)
      then show ?thesis
        using run quiet Suc.IH [of received pr w1] Suc.prems(2) read(1,4) by (force split: if_splits)
    next
      case (Inr data)
      show ?thesis
      proof (cases data)
        case Nil
        then show ?thesis using run quiet Inr read(6) by (simp split: if_splits)
      next
        case (Cons b rest)
        with run Inr have more: "posix_read_loop fuel os fd sz deadline (received @ b # rest) pr w1 = Some (Inr bs, w')"
          by simp
        have "length (received @ b # rest) \<le> sz" using read(5) [OF Inr] Cons True by simp
        from Suc.IH [OF more this] show ?thesis using read(1) read(6) [OF Inr] Cons by force
      qed
    qed
  qed
qed


section \<open>A zero timeout\<close>

lemma sys_poll_irrelevant [simp]:
  "sys_now (os\<lparr>sys_poll := p\<rparr>) = sys_now os"
  "sys_read (os\<lparr>sys_poll := p\<rparr>) = sys_read os"
  "os_fail (os\<lparr>sys_poll := p\<rparr>) = os_fail os"
  by (simp_all add: os_fail_def fun_eq_iff)

lemma after_nothing_expired:
  assumes c: "posix_contract os clk got intr" and "deadline \<le> clk w"
  shows "after_nothing fuel os fd sz deadline received w = Some (Inr received, snd (sys_now os w))"
proof -
  obtain now w1 where n: "sys_now os w = (now, w1)" by (cases "sys_now os w")
  show ?thesis using contract_now(1) [OF c n] assms(2) by (simp add: after_nothing_def n)
qed

lemma after_nothing_expired_blind:
  assumes c: "posix_contract os clk got intr" and "deadline \<le> clk w"
  shows "after_nothing fuel (os\<lparr>sys_poll := p\<rparr>) fd sz deadline received w
    = Some (Inr received, snd (sys_now os w))"
proof -
  obtain now w1 where n: "sys_now os w = (now, w1)" by (cases "sys_now os w")
  show ?thesis using contract_now(1) [OF c n] assms(2) by (simp add: after_nothing_def n)
qed

lemma read_loop_expired:
  assumes c: "posix_contract os clk got intr"
  shows "deadline \<le> clk w \<Longrightarrow>
    posix_read_loop fuel (os\<lparr>sys_poll := p\<rparr>) fd sz deadline received pr w
      = posix_read_loop fuel os fd sz deadline received pr w"
proof (induction fuel arbitrary: received pr w)
  case 0
  then show ?case by simp
next
  case (Suc fuel)
  show ?case
  proof (cases "length received < sz")
    case False
    then show ?thesis by (simp add: read_loop_full)
  next
    case True
    obtain count w1 where rd: "sys_read os fd (sz - length received) w = (count, w1)"
      by (cases "sys_read os fd (sz - length received) w")
    have rd': "sys_read (os\<lparr>sys_poll := p\<rparr>) fd (sz - length received) w = (count, w1)"
      using rd by simp
    have late: "deadline \<le> clk w1" using contract_read(1) [OF c rd] Suc.prems by simp
    show ?thesis
      unfolding read_loop_step [OF True rd] read_loop_step [OF True rd']
      using after_nothing_expired [OF c late] after_nothing_expired_blind [OF c late] Suc.IH [OF late]
      by (simp split: sum.split list.split)
  qed
qed

section \<open>Writes\<close>

text \<open>
  \<open>acc\<close> is what the terminal has taken so far: a write adds the part of its bytes it reports, and
  no other call adds any.
\<close>

definition posix_accepts :: "'o posix_os \<Rightarrow> ('o \<Rightarrow> u8 list) \<Rightarrow> bool" where
  "posix_accepts os acc \<longleftrightarrow>
     (\<forall>fd data w r w'. sys_write os fd data w = (r, w')
        \<longrightarrow> (case r of Inl e \<Rightarrow> acc w' = acc w | Inr k \<Rightarrow> k \<le> length data \<and> acc w' = acc w @ take k data))
   \<and> (\<forall>w. acc (snd (sys_now os w)) = acc w)
   \<and> (\<forall>fd ev ms w. acc (snd (sys_poll os fd ev ms w)) = acc w)
   \<and> (\<forall>fd w. acc (snd (sys_outq os fd w)) = acc w)
   \<and> (\<forall>d w. acc (sys_sleep_for os d w) = acc w)
   \<and> (\<forall>fd w. acc (snd (sys_tcdrain os fd w)) = acc w)"

lemma accepts_write:
  assumes "posix_accepts os acc" "sys_write os fd data w = (r, w')"
  shows "r = Inl e \<Longrightarrow> acc w' = acc w" "r = Inr k \<Longrightarrow> k \<le> length data" "r = Inr k \<Longrightarrow> acc w' = acc w @ take k data"
  using assms(1) [unfolded posix_accepts_def, THEN conjunct1, rule_format, OF assms(2)] by simp_all

lemma accepts_other:
  assumes "posix_accepts os acc"
  shows "sys_now os w = (t, w') \<Longrightarrow> acc w' = acc w" "sys_poll os fd ev ms w = (p, w') \<Longrightarrow> acc w' = acc w"
    "sys_outq os fd w = (q, w') \<Longrightarrow> acc w' = acc w" "acc (sys_sleep_for os d w) = acc w"
    "sys_tcdrain os fd w = (e, w') \<Longrightarrow> acc w' = acc w"
  using assms by (simp_all add: posix_accepts_def del: split_paired_All) (metis snd_conv)+

lemma accepts_waitReady:
  "posix_accepts os acc \<Longrightarrow> waitReady os fd ev remaining context w = (r, w') \<Longrightarrow> acc w' = acc w"
  by (auto simp: waitReady_def Let_def accepts_other(2) split: prod.splits sum.splits if_splits)

lemma write_loop_accepts:
  assumes c: "posix_accepts os acc"
  shows "posix_write_loop fuel os fd data unbounded deadline sent w = Some (r, w') \<Longrightarrow> sent \<le> length data \<Longrightarrow>
     \<exists>n. sent \<le> n \<and> n \<le> length data \<and> acc w' = acc w @ take (n - sent) (drop sent data) \<and> (\<forall>k. r = Inr k \<longrightarrow> k = n)"
proof (induction fuel arbitrary: sent w)
  case 0
  then show ?case by simp
next
  case (Suc fuel)
  note accepts = accepts_other [OF c] accepts_waitReady [OF c]
  show ?case
  proof (cases "sent < length data")
    case False
    then show ?thesis using Suc.prems by auto
  next
    case True
    obtain count w1 where wr: "sys_write os fd (drop sent data) w = (count, w1)"
      by (cases "sys_write os fd (drop sent data) w")
    note wrote = accepts_write [OF c wr]
    have same: ?thesis
      if "posix_write_loop fuel os fd data unbounded deadline sent w2 = Some (r, w') \<or> (w' = w2 \<and> (\<forall>k. r = Inr k \<longrightarrow> k = sent))"
        "acc w2 = acc w" for w2
      using that Suc.IH [of sent w2] Suc.prems(2) by (auto intro: exI [of _ sent])
    show ?thesis
    proof (cases "\<exists>k. count = Inr (Suc k)")
      case True
      then obtain k where k: "count = Inr (Suc k)" by blast
      have "posix_write_loop fuel os fd data unbounded deadline (sent + Suc k) w1 = Some (r, w')"
        using Suc.prems(1) \<open>sent < length data\<close> wr k by simp
      moreover have "sent + Suc k \<le> length data" using wrote(2) [OF k] \<open>sent < length data\<close> by simp
      ultimately obtain n where n: "sent + Suc k \<le> n" "n \<le> length data"
          "acc w' = acc w1 @ take (n - (sent + Suc k)) (drop (sent + Suc k) data)" "\<forall>k. r = Inr k \<longrightarrow> k = n"
        using Suc.IH by blast
      have "acc w' = acc w @ take (n - sent) (drop sent data)"
      proof -
        have "n - sent = Suc k + (n - (sent + Suc k))" using n(1) by simp
        then have "take (n - sent) (drop sent data)
            = take (Suc k) (drop sent data) @ take (n - (sent + Suc k)) (drop (sent + Suc k) data)"
          by (metis take_add drop_drop add.commute)
        then show ?thesis using n(3) wrote(3) [OF k] by simp
      qed
      then show ?thesis using n by (intro exI [of _ n]) simp
    next
      case F: False
      then have keep: "acc w1 = acc w" using wrote(1,3) by (cases count) (auto intro: nat.exhaust)
      obtain now w2 where n: "(if unbounded then (0, w1) else sys_now os w1) = (now, w2)"
        by (cases "if unbounded then (0, w1) else sys_now os w1")
      then have keep2: "acc w2 = acc w" using keep accepts(1) by (auto split: if_splits)
      let ?remaining = "if unbounded then kNanosecondsMax else deadline - now"
      obtain res w3 where wait: "waitReady os fd POLLOUT ?remaining ''waiting to send on the serial port'' w2 = (res, w3)"
        by (cases "waitReady os fd POLLOUT ?remaining ''waiting to send on the serial port'' w2")
      have keep3: "acc w3 = acc w" using accepts(6) [OF wait] keep2 by simp
      have "posix_write_loop (Suc fuel) os fd data unbounded deadline sent w \<in>
          {posix_write_loop fuel os fd data unbounded deadline sent w1, Some (Inr sent, w2),
           posix_write_loop fuel os fd data unbounded deadline sent w3, Some (Inr sent, w3)}
          \<union> {Some (Inl e, w1) | e. True} \<union> {Some (Inl e, w3) | e. True}"
        using True wr F n wait
        by (cases unbounded) (auto simp: Let_def kNanosecondsMax_def split: sum.split nat.split prod.split)
      with Suc.prems(1) show ?thesis
        using same [OF _ keep] same [OF _ keep2] same [OF _ keep3] by auto
    qed
  qed
qed

lemma outq_loop_accepts:
  assumes c: "posix_accepts os acc"
  shows "outq_loop fuel os fd unbounded deadline byteTime w = Some (r, w') \<Longrightarrow> acc w' = acc w"
  by (induction fuel arbitrary: w)
     (auto simp: Let_def accepts_other [OF c] split: option.splits nat.splits prod.splits if_splits)

lemma tcdrain_loop_accepts:
  assumes c: "posix_accepts os acc"
  shows "tcdrain_loop fuel os fd w = Some (r, w') \<Longrightarrow> acc w' = acc w"
  by (induction fuel arbitrary: w)
     (auto simp: accepts_other [OF c] split: option.splits prod.splits if_splits)

lemma drain_accepts:
  assumes c: "posix_accepts os acc"
  shows "posix_drain fuel os b sp timeout w = Some (r, w') \<Longrightarrow> acc w' = acc w"
  by (auto simp: posix_drain_def Let_def accepts_other [OF c] tcdrain_loop_accepts [OF c] outq_loop_accepts [OF c]
        split: if_splits option.splits prod.splits bool.splits sum.splits)

section \<open>A terminal\<close>

text \<open>
  \<open>tty_coming\<close> are the bytes on the line with their arrival times. As on a terminal with \<open>VMIN\<close>
  and \<open>VTIME\<close> 0, a read with nothing buffered returns no bytes. Nobody hangs up.
\<close>

record tty =
  tty_clock :: time
  tty_coming :: "(time \<times> u8) list"
  tty_got :: "u8 list"
  tty_sent :: "u8 list"

definition tty_read :: "int \<Rightarrow> nat \<Rightarrow> tty \<Rightarrow> (errno + u8 list) \<times> tty" where
  "tty_read fd n t =
     (let bs = take n (takeWhile (\<lambda>(at, b). at \<le> tty_clock t) (tty_coming t))
      in (Inr (map snd bs), t\<lparr>tty_coming := drop (length bs) (tty_coming t), tty_got := tty_got t @ map snd bs\<rparr>))"

definition tty_poll :: "int \<Rightarrow> poll_event \<Rightarrow> int \<Rightarrow> tty \<Rightarrow> (errno + poll_event list) \<times> tty" where
  "tty_poll fd event ms t =
     (let expiry = tty_clock t + ns_of_ms ms;
          next = (case tty_coming t of [] \<Rightarrow> expiry + 1 | (at, b) # _ \<Rightarrow> max at (tty_clock t + 1))
      in if next \<le> expiry then (Inr [event], t\<lparr>tty_clock := next\<rparr>)
         else (Inr [], t\<lparr>tty_clock := expiry\<rparr>))"

definition tty_os :: "tty posix_os" where
  "tty_os =
     \<lparr>sys_now = (\<lambda>t. (tty_clock t, t)),
      sys_open = (\<lambda>name t. (Inr 3, t)),
      sys_close = (\<lambda>fd t. t),
      sys_read = tty_read,
      sys_write = (\<lambda>fd data t. (Inr (length data), t\<lparr>tty_sent := tty_sent t @ data\<rparr>)),
      sys_poll = tty_poll,
      sys_ioctl = (\<lambda>fd request t. t),
      sys_outq = (\<lambda>fd t. (Some 0, t)),
      sys_tcdrain = (\<lambda>fd t. (None, t)),
      sys_tcgetattr = (\<lambda>fd t. (Inr \<lparr>c_iflag = {}, c_cflag = {}, c_lflag = {}, c_oflag = {}, c_vmin = 0,
        c_vtime = 0, c_ispeed = BaudConstant 9600, c_ospeed = BaudConstant 9600\<rparr>, t)),
      sys_tcsetattr = (\<lambda>fd attributes t. (None, t)),
      sys_cfmakeraw = (\<lambda>attributes. attributes),
      sys_cfsetspeed = (\<lambda>baud attributes. Inr (attributes\<lparr>c_ispeed := baud, c_ospeed := baud\<rparr>)),
      sys_sleep_for = (\<lambda>d t. t\<lparr>tty_clock := tty_clock t + d\<rparr>),
      sys_message = (\<lambda>e. ''error'')\<rparr>"

definition tty_at :: "time \<Rightarrow> (time \<times> u8) list \<Rightarrow> tty" where
  "tty_at t coming = \<lparr>tty_clock = t, tty_coming = coming, tty_got = [], tty_sent = []\<rparr>"

definition tty_port :: SerialPort where
  "tty_port = \<lparr>port_fd = 3, port_baudrate = 115200\<rparr>"

lemma tty_contract: "posix_contract tty_os tty_clock tty_got (\<lambda>t. 0)"
  unfolding posix_contract_def
  by (auto simp: tty_os_def tty_read_def tty_poll_def Let_def ns_of_ms_def max_def
        split: list.splits if_splits)

lemma tty_accepts: "posix_accepts tty_os tty_sent"
  by (auto simp: posix_accepts_def tty_os_def tty_poll_def Let_def split: list.splits)

end
