(* ===== verification/DefaultSerial.thy ===== *)
theory DefaultSerial
  imports PortInterface ModbusClient
begin

text \<open>
  \<open>src/detail/default_serial.cpp\<close> and \<open>src/default_serial_factory.cpp\<close>: the serial of a desktop,
  over either implementation of \<open>SerialPort\<close>. The files it looks up for the latency timer are the
  fields of \<open>file_ops\<close>. The three systems of the preprocessor are \<open>target\<close>.
\<close>

datatype target = Linux | MacOS | Windows

record SerialConfig =
  cfg_port :: string
  cfg_baudrate :: u32
  cfg_timeout :: millis
  cfg_latencyTimerMs :: int

definition SerialConfig_defaults :: "string \<Rightarrow> SerialConfig" where
  "SerialConfig_defaults port =
     \<lparr>cfg_port = port, cfg_baudrate = 115200, cfg_timeout = 500, cfg_latencyTimerMs = 1\<rparr>"

text \<open>
  \<open>f_canonical\<close> is the canonical path, as its directory and its file name, where there is one;
  \<open>f_read_int\<close> the number a file starts with; \<open>f_write_int\<close> whether the file opened, and whether
  the number was taken.
\<close>

record 'o file_ops =
  f_canonical :: "string \<Rightarrow> 'o \<Rightarrow> (string \<times> string) option"
  f_exists :: "string \<Rightarrow> 'o \<Rightarrow> bool"
  f_read_int :: "string \<Rightarrow> 'o \<Rightarrow> int option"
  f_write_int :: "string \<Rightarrow> int \<Rightarrow> 'o \<Rightarrow> (bool \<times> bool) \<times> 'o"

definition sysfs_devices :: string where
  "sysfs_devices = ''/sys/bus/usb-serial/devices''"

definition latencyTimerPath :: "'o file_ops \<Rightarrow> string \<Rightarrow> string \<Rightarrow> 'o \<Rightarrow> string" where
  "latencyTimerPath fs port sysfsDevices w =
     (case f_canonical fs port w of
        None \<Rightarrow> []
      | Some (dir, filename) \<Rightarrow>
          let attribute = sysfsDevices @ ''/'' @ filename @ ''/latency_timer''
          in if f_exists fs attribute w then attribute else [])"

record 'p DefaultSerial =
  ds_port :: "'p option"
  ds_config :: SerialConfig
  ds_log :: "log_line list"

definition DefaultSerial_create :: "SerialConfig \<Rightarrow> 'p DefaultSerial" where
  "DefaultSerial_create config = \<lparr>ds_port = None, ds_config = config, ds_log = []\<rparr>"

definition ds_say :: "Level \<Rightarrow> string \<Rightarrow> 'p DefaultSerial \<Rightarrow> 'p DefaultSerial" where
  "ds_say l msg d = d\<lparr>ds_log := ds_log d @ [(l, msg)]\<rparr>"

text \<open>\<open>std::to_string\<close> of an \<open>int\<close>.\<close>

definition int_to_string :: "int \<Rightarrow> string" where
  "int_to_string n = (if n < 0 then ''-'' @ to_string (nat (- n)) else to_string (nat n))"

definition applyLatencyTimer :: "target \<Rightarrow> 'o file_ops \<Rightarrow> int \<Rightarrow> string \<Rightarrow> 'o \<Rightarrow> bool \<times> 'o" where
  "applyLatencyTimer t fs latencyTimerMs path w =
     (if t = Linux
      then if f_read_int fs path w = Some latencyTimerMs then (True, w)
           else let ((opened, good), w') = f_write_int fs path latencyTimerMs w
                in (opened \<and> good, w')
      else (False, w))"

definition ds_latency :: "target \<Rightarrow> 'o file_ops \<Rightarrow> 'p DefaultSerial \<Rightarrow> 'o \<Rightarrow> 'p DefaultSerial \<times> 'o" where
  "ds_latency t fs d w =
     (let config = ds_config d;
          ms = int_to_string (cfg_latencyTimerMs config)
      in if t = Linux \<and> cfg_latencyTimerMs config > 0
         then let timerPath = latencyTimerPath fs (cfg_port config) sysfs_devices w
              in if timerPath = []
                 then (ds_say Debug (cfg_port config @ '' is not an FTDI adapter; no latency_timer to set.'') d, w)
                 else let (applied, w) = applyLatencyTimer t fs (cfg_latencyTimerMs config) timerPath w
                      in if applied
                         then (ds_say Info (''FTDI latency_timer set to '' @ ms @ '' ms on ''
                                 @ cfg_port config @ ''.'') d, w)
                         else (ds_say Warn (''Could not set FTDI latency_timer to '' @ ms @ '' ms on ''
                                 @ cfg_port config @ ''. Modbus cycle latency may be ~3x higher than expected (the kernel default is 16 ms). Either run with permissions to write /sys/bus/usb-serial/devices/<dev>/latency_timer, or ship a udev rule that sets it at plug time.'') d, w)
         else if t = MacOS \<and> cfg_latencyTimerMs config > 0
         then (ds_say Warn (''FTDI latency timer left at the macOS default (~16 ms) on '' @ cfg_port config
                 @ ''; the exchange rate is capped near 60 Hz. macOS has no API to set it from here ''
                 @ em_dash @ '' configure the FTDI driver instead (see the README's macOS serial-port notes).'') d, w)
         else (d, w))"

definition ds_open ::
  "target \<Rightarrow> ('p, 'o) port_ops \<Rightarrow> 'o file_ops \<Rightarrow> 'p DefaultSerial \<Rightarrow> 'o
     \<Rightarrow> (exc + unit) \<times> 'p DefaultSerial \<times> 'o" where
  "ds_open t ops fs d w =
     (let config = ds_config d
      in if ds_port d \<noteq> None
         then (Inr (), ds_say Debug (''open() called on '' @ cfg_port config
                 @ '' but the port is already open; ignoring.'') d, w)
         else if cfg_port config = []
         then (Inl (SerialIOException ''Cannot open serial port: port path is empty''), d, w)
         else let d = ds_say Debug (''opening serial port '' @ quoted (cfg_port config) @ '' at ''
                        @ to_string (unat (cfg_baudrate config)) @ '' baud'') d
              in case p_open ops (cfg_port config) (unat (cfg_baudrate config)) w of
                   (Inl e, w) \<Rightarrow> (Inl e, d, w)
                 | (Inr p, w) \<Rightarrow> let (d, w) = ds_latency t fs (d\<lparr>ds_port := Some p\<rparr>) w in (Inr (), d, w))"

definition ds_isOpen :: "'p DefaultSerial \<Rightarrow> bool" where
  "ds_isOpen d = (ds_port d \<noteq> None)"

text \<open>Dropping the port runs its destructor, which closes it.\<close>

definition ds_close :: "('p, 'o) port_ops \<Rightarrow> 'p DefaultSerial \<Rightarrow> 'o \<Rightarrow> 'p DefaultSerial \<times> 'o" where
  "ds_close ops d w =
     (case ds_port d of None \<Rightarrow> (d, w) | Some p \<Rightarrow> (d\<lparr>ds_port := None\<rparr>, p_close ops p w))"

definition ds_read ::
  "('p, 'o) port_ops \<Rightarrow> 'p DefaultSerial \<Rightarrow> nat \<Rightarrow> millis \<Rightarrow> 'o
     \<Rightarrow> ((exc + u8 list) \<times> 'p DefaultSerial \<times> 'o) option" where
  "ds_read ops d sz timeout w =
     (case ds_port d of
        None \<Rightarrow> Some (Inl (SerialIOException ''read called on closed port''), d, w)
      | Some p \<Rightarrow>
          (case p_read ops p sz timeout w of
             None \<Rightarrow> None
           | Some (r, p, w) \<Rightarrow> Some (r, d\<lparr>ds_port := Some p\<rparr>, w)))"

definition ds_write ::
  "('p, 'o) port_ops \<Rightarrow> 'p DefaultSerial \<Rightarrow> u8 list \<Rightarrow> 'o
     \<Rightarrow> ((exc + unit) \<times> 'p DefaultSerial \<times> 'o) option" where
  "ds_write ops d data w =
     (case ds_port d of
        None \<Rightarrow> Some (Inl (SerialIOException ''write called on closed port''), d, w)
      | Some p \<Rightarrow>
          (case p_write ops p data (cfg_timeout (ds_config d)) w of
             None \<Rightarrow> None
           | Some (Inl e, p, w) \<Rightarrow> Some (Inl e, d\<lparr>ds_port := Some p\<rparr>, w)
           | Some (Inr written, p, w) \<Rightarrow>
               (let d = d\<lparr>ds_port := Some p\<rparr>
                in if written < length data
                   then Some (Inl (SerialIOException (''write timeout: wrote '' @ to_string written @ '' of ''
                          @ to_string (length data) @ '' bytes'')), d, w)
                   else case p_drain ops p (cfg_timeout (ds_config d)) w of
                          None \<Rightarrow> None
                        | Some (Inl e, w) \<Rightarrow> Some (Inl e, d, w)
                        | Some (Inr drained, w) \<Rightarrow>
                            if \<not> drained
                            then Some (Inl (SerialIOException ''write timeout: the bytes written did not drain''), d, w)
                            else Some (Inr (), d, w))))"

definition ds_getTimeout :: "'p DefaultSerial \<Rightarrow> millis" where
  "ds_getTimeout d = cfg_timeout (ds_config d)"

definition ds_getConfig :: "'p DefaultSerial \<Rightarrow> SerialConfig" where
  "ds_getConfig d = ds_config d"

section \<open>The factory\<close>

definition hex_digit :: "nat \<Rightarrow> char" where
  "hex_digit d = ''0123456789ABCDEF'' ! d"

definition toHex :: "u8 \<Rightarrow> string" where
  "toHex v = ''0x'' @ [hex_digit (unat (drop_bit 4 v AND 0x0F)), hex_digit (unat (v AND 0x0F))]"

text \<open>The line \<open>makeSerial\<close> logs and the serial it returns.\<close>

definition makeSerial :: "SerialConfig \<Rightarrow> u8 \<Rightarrow> log_line \<times> 'p DefaultSerial" where
  "makeSerial config modbusSlaveAddress =
     ((Info, ''connecting to a gripper on '' @ cfg_port config @ '' at ''
        @ to_string (unat (cfg_baudrate config)) @ '' bps, Modbus slave address '' @ toHex modbusSlaveAddress),
      DefaultSerial_create config)"

end
