(* ===== verification/SerialProperties.thy ===== *)
theory SerialProperties
  imports PosixProperties DefaultSerial
begin

text \<open>
  Properties of the serial port of a POSIX system and of the desktop serial built on a port.
\<close>

lemma posix_write_accepts:
  assumes "posix_accepts os acc" "posix_write fuel os sp data timeout w = Some (r, w')"
  shows "\<exists>n \<le> length data. acc w' = acc w @ take n data \<and> (\<forall>k. r = Inr k \<longrightarrow> k = n)"
proof -
  obtain now w1 where n: "sys_now os w = (now, w1)" by (cases "sys_now os w")
  show ?thesis
    using write_loop_accepts [OF assms(1), of fuel "port_fd sp" data "timeout = 0" "now + ns_of_ms timeout" 0 w1 r w']
      assms(2) accepts_other(1) [OF assms(1) n]
    by (auto simp: posix_write_def n)
qed

section \<open>Reading\<close>

text \<open>C23: \<open>SerialPort::read\<close> always comes back, after no more turns than bytes asked for, signals and
  nanoseconds of the timeout together. What it returns is at most what was asked for and exactly
  the bytes the terminal delivered, in order; it returns fewer only once the timeout has passed,
  for every timeout a poll can express (24 days).
\<close>

theorem posix_read_correct:
  assumes "posix_contract os clk got intr"
    and "sz + intr w + nat (ns_of_ms timeout) < fuel"
    and "timeout \<le> kInt32Max"
  shows "\<exists>r w'. posix_read fuel os sp sz timeout w = Some (r, w')
     \<and> (\<forall>bs. r = Inr bs \<longrightarrow> length bs \<le> sz \<and> got w' = got w @ bs
          \<and> (length bs < sz \<longrightarrow> clk w + ns_of_ms timeout \<le> clk w'))"
proof -
  obtain now w1 where n: "sys_now os w = (now, w1)" by (cases "sys_now os w")
  note now = contract_now [OF assms(1) n]
  let ?run = "posix_read_loop fuel os (port_fd sp) sz (now + ns_of_ms timeout) [] False w1"
  have "nat (now + ns_of_ms timeout - clk w1) \<le> nat (ns_of_ms timeout)" using now by simp
  with assms(2) now(4) have "sz - length [] + intr w1 + nat (now + ns_of_ms timeout - clk w1) < fuel" by simp
  from read_loop_total [OF assms(1) this] obtain r w' where run: "?run = Some (r, w')" by blast
  have short: "now + ns_of_ms timeout - clk w1 \<le> ns_of_ms kInt32Max"
    using assms(3) now(2) by (simp add: ns_of_ms_def)
  have "length bs \<le> sz \<and> got w' = got w @ bs \<and> (length bs < sz \<longrightarrow> clk w + ns_of_ms timeout \<le> clk w')"
    if "r = Inr bs" for bs
    using read_loop_delivers [OF assms(1) run [unfolded that]] short now(1,3) by force
  with run n show ?thesis by (auto simp: posix_read_def)
qed

lemma posix_read_correct_witness:
  "\<exists>w'. posix_read 3 tty_os tty_port 2 0 (tty_at 0 [(0, 9), (5, 3)]) = Some (Inr [9], w')
     \<and> tty_got w' = [9] \<and> 0 \<le> tty_clock w'"
proof -
  let ?w = "tty_at 0 [(0, 9), (5, 3)]"
  obtain r w' where run: "posix_read 3 tty_os tty_port 2 0 ?w = Some (r, w')"
      and all: "\<And>bs. r = Inr bs \<Longrightarrow> length bs \<le> 2 \<and> tty_got w' = tty_got ?w @ bs
         \<and> (length bs < 2 \<longrightarrow> tty_clock ?w + ns_of_ms 0 \<le> tty_clock w')"
    using posix_read_correct [OF tty_contract, where sz = 2 and timeout = 0 and w = ?w and fuel = 3 and sp = tty_port] by (auto simp: ns_of_ms_def kInt32Max_def)
  have "r = Inr [9]"
    using run
    by (simp add: posix_read_def numeral_3_eq_3 posix_read_loop.simps(2) tty_os_def tty_read_def tty_at_def
          tty_port_def Let_def ns_of_ms_def)
  with run all [of "[9]"] show ?thesis by (simp add: tty_at_def ns_of_ms_def)
qed

text \<open>A read with a zero timeout takes what is buffered and never waits: it is the same read on a
  system whose \<open>poll\<close> does anything else.
\<close>

theorem posix_read_zero_timeout:
  assumes "posix_contract os clk got intr"
  shows "posix_read fuel (os\<lparr>sys_poll := other\<rparr>) sp sz 0 w = posix_read fuel os sp sz 0 w"
proof -
  obtain now w1 where n: "sys_now os w = (now, w1)" by (cases "sys_now os w")
  show ?thesis
    using read_loop_expired [OF assms] contract_now(2) [OF assms n] by (simp add: posix_read_def n ns_of_ms_def)
qed

lemma posix_read_zero_timeout_witness:
  "posix_read 5 (tty_os\<lparr>sys_poll := (\<lambda>fd event ms t. (Inl EIO, t))\<rparr>) tty_port 4 0 (tty_at 7 [(3, 9), (8, 3)])
     = posix_read 5 tty_os tty_port 4 0 (tty_at 7 [(3, 9), (8, 3)])"
  by (rule posix_read_zero_timeout [OF tty_contract])

text \<open>A read that has to wait for its first byte and gets the next one only after another pause takes
  that pause for a hang-up. After a poll that found
  the terminal readable the first part is read; the next read finds nothing, which on a terminal
  with \<open>VMIN\<close> and \<open>VTIME\<close> 0 is a read of no bytes; and \<open>polledReadable\<close> still holds from the
  poll that the first part has already answered. The read fails before the second part arrives,
  however much of the timeout is left.
\<close>

theorem posix_read_false_hangup:
  assumes "0 < a" "a < b" "a \<le> ns_of_ms timeout" "timeout \<le> kInt32Max"
  shows "posix_read (Suc (Suc (Suc fuel))) tty_os tty_port (Suc (Suc n)) timeout (tty_at 0 [(a, x), (b, y)])
     = Some (Inl (failHungUp ''reading from the serial port''),
         \<lparr>tty_clock = a, tty_coming = [(b, y)], tty_got = [x], tty_sent = []\<rparr>)"
proof -
  have "0 < timeout" using assms by (simp add: ns_of_ms_def)
  moreover have "ceil_ms (ns_of_ms timeout) = timeout" by (simp add: ceil_ms_def ns_of_ms_def)
  ultimately show ?thesis
    using assms
    by (simp add: posix_read_def posix_read_loop.simps(2) tty_os_def tty_read_def tty_poll_def tty_at_def
          tty_port_def waitReady_def Let_def ns_of_ms_def max_def min_def)
qed

lemma posix_read_false_hangup_witness:
  "posix_read 3 tty_os tty_port 2 500 (tty_at 0 [(1000000, 9), (2000000, 3)])
     = Some (Inl (failHungUp ''reading from the serial port''),
         \<lparr>tty_clock = 1000000, tty_coming = [(2000000, 3)], tty_got = [9], tty_sent = []\<rparr>)"
  using posix_read_false_hangup [of 1000000 2000000 500 0 0 9 3]
  by (simp add: ns_of_ms_def kInt32Max_def numeral_3_eq_3 numeral_2_eq_2)

section \<open>Writing\<close>

definition tty_serial :: "SerialPort DefaultSerial" where
  "tty_serial = (DefaultSerial_create (SerialConfig_defaults ''/dev/ttyUSB0''))\<lparr>ds_port := Some tty_port\<rparr>"

text \<open>\<open>DefaultSerial::write\<close> over the POSIX port hands the terminal the bytes in order and never
  one twice: all of them when it succeeds, and then they were drained too; when it throws, a
  beginning of them.
\<close>

theorem ds_write_sends:
  assumes "posix_accepts os acc"
    and "ds_write (posix_port fuel os b) d data w = Some (r, d', w')"
  shows "\<exists>n \<le> length data. acc w' = acc w @ take n data
     \<and> (r = Inr () \<longrightarrow> n = length data
          \<and> (\<exists>p w1. ds_port d = Some p
                 \<and> posix_write fuel os p data (cfg_timeout (ds_config d)) w = Some (Inr n, w1)
                 \<and> posix_drain fuel os b p (cfg_timeout (ds_config d)) w1 = Some (Inr True, w')))"
proof (cases "ds_port d")
  case None
  then show ?thesis using assms(2) by (auto simp: ds_write_def intro: exI [of _ 0])
next
  case (Some p)
  let ?ms = "cfg_timeout (ds_config d)"
  from assms(2) Some obtain r1 w1 where run: "posix_write fuel os p data ?ms w = Some (r1, w1)"
    by (cases "posix_write fuel os p data ?ms w") (auto simp: ds_write_def posix_port_def)
  from posix_write_accepts [OF assms(1) run] obtain n where n: "n \<le> length data" "acc w1 = acc w @ take n data"
      "\<And>k. r1 = Inr k \<Longrightarrow> k = n" by blast
  note rest = assms(2) [unfolded ds_write_def posix_port_def, simplified, unfolded Some, simplified,
      unfolded run, simplified]
  have "acc w' = acc w1"
    using rest drain_accepts [OF assms(1)]
    by (auto simp: Let_def split: sum.splits if_splits option.splits prod.splits)
  moreover have "n = length data \<and> posix_drain fuel os b p ?ms w1 = Some (Inr True, w') \<and> r1 = Inr n"
    if "r = Inr ()"
    using rest n that
    by (auto simp: Let_def split: sum.splits if_splits option.splits prod.splits)
  ultimately show ?thesis using n Some run by auto
qed

lemma ds_write_sends_witness:
  "\<exists>w1. posix_write 3 tty_os tty_port [9, 3] 500 (tty_at 0 []) = Some (Inr 2, w1)
     \<and> posix_drain 3 tty_os all_features tty_port 500 w1 = Some (Inr True, (tty_at 0 [])\<lparr>tty_sent := [9, 3]\<rparr>)"
proof -
  have run: "ds_write (posix_port 3 tty_os all_features) tty_serial [9, 3] (tty_at 0 [])
      = Some (Inr (), tty_serial, (tty_at 0 [])\<lparr>tty_sent := [9, 3]\<rparr>)"
    by (simp add: ds_write_def posix_port_def posix_write_def posix_drain_def tty_os_def tty_at_def tty_port_def
          tty_serial_def all_features_def DefaultSerial_create_def SerialConfig_defaults_def Let_def numeral_3_eq_3)
  show ?thesis
    using ds_write_sends [OF tty_accepts run]
    by (auto simp: tty_serial_def DefaultSerial_create_def SerialConfig_defaults_def)
qed

end
