(* ===== verification/Win32Serial.thy ===== *)
theory Win32Serial
  imports PortInterface
begin

text \<open>
  \<open>src/detail/win32/serial_port.cpp\<close>: the serial port over the Win32 communication functions, the
  fields of \<open>win_os\<close>; a failing call returns the value \<open>GetLastError\<close> would. Reads and writes wait
  in the driver, under the timeouts the port last set and remembers.
\<close>

section \<open>The system interface\<close>

type_synonym handle = nat
type_synonym win_error = nat

definition ERROR_FILE_NOT_FOUND :: win_error where "ERROR_FILE_NOT_FOUND = 2"
definition ERROR_PATH_NOT_FOUND :: win_error where "ERROR_PATH_NOT_FOUND = 3"
definition MAXDWORD :: u32 where "MAXDWORD = 0xFFFFFFFF"

datatype parity = NOPARITY | OtherParity nat
datatype stop_bits = ONESTOPBIT | OtherStopBits nat
datatype line_control = CONTROL_DISABLE | OtherControl nat

record DCB =
  BaudRate :: u32
  ByteSize :: u8
  Parity :: parity
  StopBits :: stop_bits
  fBinary :: bool
  fParity :: bool
  fOutxCtsFlow :: bool
  fOutxDsrFlow :: bool
  fDtrControl :: line_control
  fDsrSensitivity :: bool
  fTXContinueOnXoff :: bool
  fOutX :: bool
  fInX :: bool
  fErrorChar :: bool
  fNull :: bool
  fRtsControl :: line_control
  fAbortOnError :: bool

record COMMTIMEOUTS =
  ReadIntervalTimeout :: u32
  ReadTotalTimeoutMultiplier :: u32
  ReadTotalTimeoutConstant :: u32
  WriteTotalTimeoutMultiplier :: u32
  WriteTotalTimeoutConstant :: u32

definition COMMTIMEOUTS_zero :: COMMTIMEOUTS where
  "COMMTIMEOUTS_zero =
     \<lparr>ReadIntervalTimeout = 0, ReadTotalTimeoutMultiplier = 0, ReadTotalTimeoutConstant = 0,
      WriteTotalTimeoutMultiplier = 0, WriteTotalTimeoutConstant = 0\<rparr>"

record 'o win_os =
  CreateFileA :: "string \<Rightarrow> 'o \<Rightarrow> (win_error + handle) \<times> 'o"
  CloseHandle :: "handle \<Rightarrow> 'o \<Rightarrow> 'o"
  GetCommState :: "handle \<Rightarrow> 'o \<Rightarrow> (win_error + DCB) \<times> 'o"
  SetCommState :: "handle \<Rightarrow> DCB \<Rightarrow> 'o \<Rightarrow> win_error option \<times> 'o"
  SetCommTimeouts :: "handle \<Rightarrow> COMMTIMEOUTS \<Rightarrow> 'o \<Rightarrow> win_error option \<times> 'o"
  ReadFile :: "handle \<Rightarrow> u32 \<Rightarrow> 'o \<Rightarrow> (win_error + u8 list) \<times> 'o"
  WriteFile :: "handle \<Rightarrow> u8 list \<Rightarrow> u32 \<Rightarrow> 'o \<Rightarrow> (win_error + nat) \<times> 'o"
  FlushFileBuffers :: "handle \<Rightarrow> 'o \<Rightarrow> win_error option \<times> 'o"
  win_message :: "win_error \<Rightarrow> string"

definition win_fail :: "'o win_os \<Rightarrow> string \<Rightarrow> win_error \<Rightarrow> exc" where
  "win_fail os context e = SerialIOException (context @ '': '' @ win_message os e)"

section \<open>Names\<close>

definition ascii_lower :: "char \<Rightarrow> char" where
  "ascii_lower c = (let n = of_char c :: nat in if 65 \<le> n \<and> n \<le> 90 then char_of (n + 32) else c)"

definition is_digit :: "char \<Rightarrow> bool" where
  "is_digit c = (c \<in> set ''0123456789'')"

definition device_namespace :: string where
  "device_namespace = [CHR 0x5C, CHR 0x5C, CHR 0x2E, CHR 0x5C]"

definition devicePath :: "string \<Rightarrow> string" where
  "devicePath port =
     (let isBareComName = length port > 3 \<and> map ascii_lower (take 3 port) = map ascii_lower ''COM''
                        \<and> list_all is_digit (drop 3 port)
      in if isBareComName then device_namespace @ port else port)"

section \<open>Configuration\<close>

definition dcb_8n1 :: "u32 \<Rightarrow> DCB \<Rightarrow> DCB" where
  "dcb_8n1 baudrate dcb =
     dcb\<lparr>BaudRate := baudrate, ByteSize := 8, Parity := NOPARITY, StopBits := ONESTOPBIT,
         fBinary := True, fParity := False, fOutxCtsFlow := False, fOutxDsrFlow := False,
         fDtrControl := CONTROL_DISABLE, fDsrSensitivity := False, fTXContinueOnXoff := True,
         fOutX := False, fInX := False, fErrorChar := False, fNull := False,
         fRtsControl := CONTROL_DISABLE, fAbortOnError := False\<rparr>"

definition win_configure :: "'o win_os \<Rightarrow> handle \<Rightarrow> nat \<Rightarrow> 'o \<Rightarrow> (exc + unit) \<times> 'o" where
  "win_configure os h baudrate w =
     (case GetCommState os h w of
        (Inl e, w) \<Rightarrow> (Inl (win_fail os ''reading the serial port state'' e), w)
      | (Inr dcb, w) \<Rightarrow>
          (case SetCommState os h (dcb_8n1 (of_nat baudrate) dcb) w of
             (Some e, w) \<Rightarrow>
               (Inl (win_fail os (''configuring the serial port at '' @ to_string baudrate @ '' baud'') e), w)
           | (None, w) \<Rightarrow> (Inr (), w)))"

section \<open>The port\<close>

text \<open>\<open>None\<close> is the null handle.\<close>

record WinPort =
  wp_handle :: "handle option"
  wp_readTimeoutMs :: int
  wp_writeTimeoutMs :: int

definition WinPort_init :: WinPort where
  "WinPort_init = \<lparr>wp_handle = None, wp_readTimeoutMs = -1, wp_writeTimeoutMs = -1\<rparr>"

definition win_timeouts :: "int \<Rightarrow> int \<Rightarrow> COMMTIMEOUTS" where
  "win_timeouts readMs writeMs =
     (let timeouts = (if readMs = 0 then COMMTIMEOUTS_zero\<lparr>ReadIntervalTimeout := MAXDWORD\<rparr>
                      else COMMTIMEOUTS_zero\<lparr>ReadTotalTimeoutConstant := word_of_int readMs\<rparr>)
      in timeouts\<lparr>WriteTotalTimeoutConstant := word_of_int writeMs\<rparr>)"

definition win_setTimeouts ::
  "'o win_os \<Rightarrow> handle \<Rightarrow> int \<Rightarrow> int \<Rightarrow> WinPort \<Rightarrow> 'o \<Rightarrow> (exc + unit) \<times> WinPort \<times> 'o" where
  "win_setTimeouts os h readMs writeMs p w =
     (if readMs = wp_readTimeoutMs p \<and> writeMs = wp_writeTimeoutMs p then (Inr (), p, w)
      else case SetCommTimeouts os h (win_timeouts readMs writeMs) w of
             (Some e, w) \<Rightarrow> (Inl (win_fail os ''setting the serial port timeouts'' e), p, w)
           | (None, w) \<Rightarrow> (Inr (), p\<lparr>wp_readTimeoutMs := readMs, wp_writeTimeoutMs := writeMs\<rparr>, w))"

definition win_close :: "'o win_os \<Rightarrow> WinPort \<Rightarrow> 'o \<Rightarrow> WinPort \<times> 'o" where
  "win_close os p w =
     (case wp_handle p of
        None \<Rightarrow> (p, w)
      | Some h \<Rightarrow> (p\<lparr>wp_handle := None, wp_readTimeoutMs := -1, wp_writeTimeoutMs := -1\<rparr>, CloseHandle os h w))"

definition win_open ::
  "'o win_os \<Rightarrow> string \<Rightarrow> nat \<Rightarrow> WinPort \<Rightarrow> 'o \<Rightarrow> (exc + unit) \<times> WinPort \<times> 'o" where
  "win_open os port baudrate p w =
     (case CreateFileA os (devicePath port) w of
        (Inl e, w) \<Rightarrow>
          (Inl (if e = ERROR_FILE_NOT_FOUND \<or> e = ERROR_PATH_NOT_FOUND
                then SerialIOException (''no serial port named '' @ quoted port @ '' (is the device connected?)'')
                else win_fail os (''opening serial port '' @ quoted port) e), p, w)
      | (Inr h, w) \<Rightarrow>
          (let p = p\<lparr>wp_handle := Some h\<rparr>
           in case win_configure os h baudrate w of
                (Inl e, w) \<Rightarrow> (Inl e, win_close os p w)
              | (Inr u, w) \<Rightarrow>
                  (case win_setTimeouts os h 0 0 p w of
                     (Inl e, p, w) \<Rightarrow> (Inl e, win_close os p w)
                   | (Inr u, p, w) \<Rightarrow> (Inr (), p, w))))"

text \<open>Reads, writes and drains are of a port that is open: the handle is given.\<close>

definition win_read ::
  "'o win_os \<Rightarrow> handle \<Rightarrow> WinPort \<Rightarrow> nat \<Rightarrow> millis \<Rightarrow> 'o \<Rightarrow> (exc + u8 list) \<times> WinPort \<times> 'o" where
  "win_read os h p sz timeout w =
     (if sz = 0 then (Inr [], p, w)
      else case win_setTimeouts os h timeout (wp_writeTimeoutMs p) p w of
             (Inl e, p, w) \<Rightarrow> (Inl e, p, w)
           | (Inr u, p, w) \<Rightarrow>
               (case ReadFile os h (of_nat sz) w of
                  (Inl e, w) \<Rightarrow> (Inl (win_fail os ''reading from the serial port'' e), p, w)
                | (Inr received, w) \<Rightarrow> (Inr received, p, w)))"

definition win_write ::
  "'o win_os \<Rightarrow> handle \<Rightarrow> WinPort \<Rightarrow> u8 list \<Rightarrow> millis \<Rightarrow> 'o \<Rightarrow> (exc + nat) \<times> WinPort \<times> 'o" where
  "win_write os h p data timeout w =
     (if length data = 0 then (Inr 0, p, w)
      else case win_setTimeouts os h (wp_readTimeoutMs p) timeout p w of
             (Inl e, p, w) \<Rightarrow> (Inl e, p, w)
           | (Inr u, p, w) \<Rightarrow>
               (case WriteFile os h data (of_nat (length data)) w of
                  (Inl e, w) \<Rightarrow> (Inl (win_fail os ''writing to the serial port'' e), p, w)
                | (Inr sent, w) \<Rightarrow> (Inr sent, p, w)))"

definition win_drain :: "'o win_os \<Rightarrow> handle \<Rightarrow> millis \<Rightarrow> 'o \<Rightarrow> (exc + bool) \<times> 'o" where
  "win_drain os h timeout w =
     (case FlushFileBuffers os h w of
        (Some e, w) \<Rightarrow> (Inl (win_fail os ''draining the serial port'' e), w)
      | (None, w) \<Rightarrow> (Inr True, w))"

definition win_port :: "'o win_os \<Rightarrow> (WinPort, 'o) port_ops" where
  "win_port os =
     \<lparr>p_open = (\<lambda>port baudrate w.
        case win_open os port baudrate WinPort_init w of (Inl e, p, w) \<Rightarrow> (Inl e, snd (win_close os p w))
                                                        | (Inr u, p, w) \<Rightarrow> (Inr p, w)),
      p_close = (\<lambda>p w. snd (win_close os p w)),
      p_read = (\<lambda>p sz timeout w. Some (win_read os (the (wp_handle p)) p sz timeout w)),
      p_write = (\<lambda>p data timeout w. Some (win_write os (the (wp_handle p)) p data timeout w)),
      p_drain = (\<lambda>p timeout w. Some (win_drain os (the (wp_handle p)) timeout w))\<rparr>"

section \<open>The remembered timeouts\<close>

text \<open>
  \<open>timeouts_in os now\<close>: the driver keeps the timeouts it was last given, and reads and writes leave
  them. \<open>cached\<close>: what the port remembers is what the driver has.
\<close>

definition timeouts_in :: "'o win_os \<Rightarrow> ('o \<Rightarrow> COMMTIMEOUTS) \<Rightarrow> bool" where
  "timeouts_in os now \<longleftrightarrow>
     (\<forall>h ts w. now (snd (SetCommTimeouts os h ts w))
        = (if fst (SetCommTimeouts os h ts w) = None then ts else now w))
   \<and> (\<forall>h n w. now (snd (ReadFile os h n w)) = now w)
   \<and> (\<forall>h data n w. now (snd (WriteFile os h data n w)) = now w)"

definition cached :: "('o \<Rightarrow> COMMTIMEOUTS) \<Rightarrow> WinPort \<Rightarrow> 'o \<Rightarrow> bool" where
  "cached now p w \<longleftrightarrow>
     (wp_readTimeoutMs p = -1 \<and> wp_writeTimeoutMs p = -1)
     \<or> now w = win_timeouts (wp_readTimeoutMs p) (wp_writeTimeoutMs p)"

lemma set_timeouts_now:
  "timeouts_in os now \<Longrightarrow> SetCommTimeouts os h ts w = (r, w') \<Longrightarrow> now w' = (if r = None then ts else now w)"
  unfolding timeouts_in_def by (metis fst_conv snd_conv)

lemma set_timeouts_cached:
  assumes "timeouts_in os now" "cached now p w" "0 \<le> readMs \<or> 0 \<le> writeMs"
    and "win_setTimeouts os h readMs writeMs p w = (r, p', w')"
  shows "cached now p' w'" "r = Inr () \<Longrightarrow> now w' = win_timeouts readMs writeMs"
    "wp_handle p' = wp_handle p"
  using assms(2,3,4)
  by (auto simp: win_setTimeouts_def cached_def set_timeouts_now [OF assms(1)]
        split: if_splits prod.splits option.splits)

lemma read_write_keep_timeouts:
  assumes "timeouts_in os now"
  shows "ReadFile os h n w = (r, w') \<Longrightarrow> now w' = now w" "WriteFile os h data m w = (s, w') \<Longrightarrow> now w' = now w"
  using assms unfolding timeouts_in_def by (metis snd_conv)+

lemma win_open_cached:
  assumes "timeouts_in os now" "win_open os port baudrate WinPort_init w = (Inr u, p, w')"
  shows "cached now p w'" "\<exists>h. wp_handle p = Some h" "wp_readTimeoutMs p = 0" "wp_writeTimeoutMs p = 0"
proof -
  obtain h w1 where run: "win_setTimeouts os h 0 0 (WinPort_init\<lparr>wp_handle := Some h\<rparr>) w1 = (Inr (), p, w')"
    using assms(2) by (auto simp: win_open_def Let_def split: prod.splits sum.splits)
  have "cached now (WinPort_init\<lparr>wp_handle := Some h\<rparr>) w1" by (simp add: cached_def WinPort_init_def)
  from set_timeouts_cached [OF assms(1) this _ run] show "cached now p w'" "\<exists>h. wp_handle p = Some h"
    by simp_all
  from run show "wp_readTimeoutMs p = 0" "wp_writeTimeoutMs p = 0"
    by (auto simp: win_setTimeouts_def WinPort_init_def split: prod.splits option.splits)
qed

text \<open>A read or a write that reached the driver ran under the timeout it was called with.\<close>

lemma win_read_cached:
  assumes "timeouts_in os now" "cached now p w" "0 \<le> timeout" "win_read os h p sz timeout w = (r, p', w')"
  shows "cached now p' w'"
    "r = Inr bs \<Longrightarrow> 0 < sz \<Longrightarrow> now w' = win_timeouts timeout (wp_writeTimeoutMs p)"
proof -
  obtain s p1 w1 where set: "win_setTimeouts os h timeout (wp_writeTimeoutMs p) p w = (s, p1, w1)"
    by (metis prod_cases3)
  have nn: "0 \<le> timeout \<or> 0 \<le> wp_writeTimeoutMs p" using assms(3) by simp
  note now = set_timeouts_cached [OF assms(1,2) nn set] read_write_keep_timeouts(1) [OF assms(1)]
  show "cached now p' w'"
    using assms(2,4) now
    by (auto simp: win_read_def set cached_def split: if_splits sum.splits prod.splits)
  show "now w' = win_timeouts timeout (wp_writeTimeoutMs p)" if "r = Inr bs" "0 < sz"
    using assms(4) now that
    by (auto simp: win_read_def set split: if_splits sum.splits prod.splits)
qed

lemma win_write_cached:
  assumes "timeouts_in os now" "cached now p w" "0 \<le> timeout" "win_write os h p data timeout w = (r, p', w')"
  shows "cached now p' w'"
    "r = Inr k \<Longrightarrow> data \<noteq> [] \<Longrightarrow> now w' = win_timeouts (wp_readTimeoutMs p) timeout"
proof -
  obtain s p1 w1 where set: "win_setTimeouts os h (wp_readTimeoutMs p) timeout p w = (s, p1, w1)"
    by (metis prod_cases3)
  have nn: "0 \<le> wp_readTimeoutMs p \<or> 0 \<le> timeout" using assms(3) by simp
  note now = set_timeouts_cached [OF assms(1,2) nn set] read_write_keep_timeouts(2) [OF assms(1)]
  show "cached now p' w'"
    using assms(2,4) now
    by (auto simp: win_write_def set cached_def split: if_splits sum.splits prod.splits)
  show "now w' = win_timeouts (wp_readTimeoutMs p) timeout" if "r = Inr k" "data \<noteq> []"
    using assms(4) now that
    by (auto simp: win_write_def set split: if_splits sum.splits prod.splits)
qed

section \<open>Names of ports\<close>

lemma to_string_digits: "list_all is_digit (to_string n) \<and> to_string n \<noteq> []"
proof (induction n rule: to_string.induct)
  case (1 n)
  have "is_digit (digit_char d)" if "d < 10" for d
    unfolding is_digit_def digit_char_def by (rule nth_mem) (use that in simp)
  with 1 show ?case by (subst (1 2) to_string.simps) auto
qed

text \<open>Every numbered port is opened in the device namespace, however its name is capitalised.\<close>

lemma devicePath_com:
  assumes "map ascii_lower com = ''com''"
  shows "devicePath (com @ to_string n) = device_namespace @ com @ to_string n"
proof -
  have "length com = 3" using assms by (metis length_map list.size(3,4) numeral_3_eq_3 add_Suc_right add_0_right)
  moreover have "map ascii_lower ''COM'' = ''com''" by code_simp
  ultimately show ?thesis
    using assms to_string_digits [of n] by (simp add: devicePath_def Let_def del: list.map)
qed

end
