(* ===== verification/PlatformInterface.thy ===== *)
theory PlatformInterface
  imports Prelude
begin

text \<open>
  What the threads of the SDK rely on when they sleep: the two sleeps of \<open>Platform\<close>
  (\<open>Robotiq/gripper/platform.hpp\<close>) and the monotonic clock, as a contract. \<open>clk\<close> is the time in a
  state of the system, \<open>reach\<close> the longest sleep asked for, \<open>slack\<close> how early a sleep may end.
  \<open>StdPlatform\<close> meets it with no slack, \<open>ThreadXPort\<close> with the slack of one tick.
\<close>

locale sleeping_platform =
  fixes clk :: "'o \<Rightarrow> time"
    and now :: "'o \<Rightarrow> time \<times> 'o"
    and sleepUntil :: "time \<Rightarrow> 'o \<Rightarrow> 'o option"
    and sleepFor :: "millis \<Rightarrow> 'o \<Rightarrow> 'o option"
    and good :: "'o \<Rightarrow> bool"
    and reach :: time
    and slack :: time
  assumes reads: "good w \<Longrightarrow> now w = (t, w') \<Longrightarrow> good w' \<and> clk w \<le> t \<and> t \<le> clk w'"
    and sleeps: "good w \<Longrightarrow> timePoint - clk w \<le> reach \<Longrightarrow>
      \<exists>w'. sleepUntil timePoint w = Some w' \<and> good w' \<and> clk w \<le> clk w' \<and> timePoint - slack \<le> clk w'"
    and lasts: "good w \<Longrightarrow> ns_of_ms d \<le> reach \<Longrightarrow>
      \<exists>w'. sleepFor d w = Some w' \<and> good w' \<and> clk w \<le> clk w' \<and> clk w + ns_of_ms d - slack \<le> clk w'"
begin

text \<open>A sleep to a deadline set from the clock, and the clock read after it.\<close>

lemma sleeps_from_now:
  assumes "good w" "now w = (t, w1)" "d \<le> reach"
  shows "\<exists>w2. sleepUntil (t + d) w1 = Some w2 \<and> good w2 \<and> clk w \<le> clk w2 \<and> t + d - slack \<le> clk w2"
proof -
  note r = reads [OF assms(1,2)]
  have "t + d - clk w1 \<le> reach" using r assms(3) by linarith
  from sleeps [OF conjunct1 [OF r] this] r show ?thesis by force
qed

lemma read_after:
  assumes "good w" "t \<le> clk w"
  shows "good (snd (now w)) \<and> t \<le> fst (now w) \<and> t \<le> clk (snd (now w))"
  using reads [OF assms(1), of "fst (now w)" "snd (now w)"] assms(2) by simp

end

end
