(* ===== verification/ThreadXPort.thy ===== *)
theory ThreadXPort
  imports PlatformInterface
begin

text \<open>
  The ThreadX port: \<open>ports/threadx/threadx_ticks.hpp\<close> and \<open>ports/threadx/threadx_platform.hpp\<close>.
  The kernel calls are the fields of \<open>tx_api\<close>, on a state \<open>'o\<close> of their own; kernel objects are
  named by numbers. Waiting and notifying, where threads interleave, are in \<open>ThreadXCondition\<close>.
\<close>

section \<open>Tick arithmetic\<close>

type_synonym ULONG = u32

definition TX_WAIT_FOREVER :: int where "TX_WAIT_FOREVER = 0xFFFFFFFF"

definition kNsPerSecond :: int where "kNsPerSecond = 1000000000"
definition kMaxTicks :: int where "kMaxTicks = TX_WAIT_FOREVER - 1"

text \<open>\<open>per\<close> is \<open>TX_TIMER_TICKS_PER_SECOND\<close>, a setting of the kernel.\<close>

definition kMaxNs :: "int \<Rightarrow> time" where
  "kMaxNs per = trunc_div (kMaxTicks * kNsPerSecond) per"

definition blockingTicks :: "int \<Rightarrow> time \<Rightarrow> ULONG" where
  "blockingTicks per duration =
     (if duration \<le> 0 then 0
      else let ns = min duration (kMaxNs per)
           in word_of_int (trunc_div (ns * per + kNsPerSecond - 1) kNsPerSecond))"

text \<open>
  What the arithmetic is meant to be: the least number of ticks that covers the duration, cut at
  the longest finite wait.
\<close>

definition ceil_ticks :: "int \<Rightarrow> time \<Rightarrow> int" where
  "ceil_ticks per duration = - ((- (duration * per)) div kNsPerSecond)"

lemma trunc_div_nonneg [simp]: "0 \<le> a \<Longrightarrow> 0 < b \<Longrightarrow> trunc_div a b = a div b"
  by (cases "a = 0") (simp_all add: trunc_div_def sgn_if)

lemma ceil_div_add: "0 < b \<Longrightarrow> (a + b - 1) div b = - ((- a) div b)" for a b :: int
proof -
  assume b: "0 < b"
  have "- a = (- a) div b * b + (- a) mod b" by simp
  then have "a + b - 1 = - ((- a) div b) * b + (b - 1 - (- a) mod b)" by linarith
  moreover have "0 \<le> b - 1 - (- a) mod b" "b - 1 - (- a) mod b < b"
    using b pos_mod_bound [of b "- a"] pos_mod_sign [of b "- a"] by linarith+
  ultimately show ?thesis using b
    by (metis div_pos_pos_trivial div_mult_self3 less_irrefl add.right_neutral)
qed

lemma ceil_ticks_bounds:
  "duration * per \<le> ceil_ticks per duration * kNsPerSecond"
  "ceil_ticks per duration * kNsPerSecond < duration * per + kNsPerSecond"
proof -
  let ?a = "- (duration * per)"
  have "?a = ?a div kNsPerSecond * kNsPerSecond + ?a mod kNsPerSecond" by simp
  moreover have "0 \<le> ?a mod kNsPerSecond" "?a mod kNsPerSecond < kNsPerSecond"
    by (simp_all add: kNsPerSecond_def)
  ultimately show "duration * per \<le> ceil_ticks per duration * kNsPerSecond"
    "ceil_ticks per duration * kNsPerSecond < duration * per + kNsPerSecond"
    unfolding ceil_ticks_def mult_minus_left by linarith+
qed

lemma ceil_ticks_mono: "0 < per \<Longrightarrow> d \<le> d' \<Longrightarrow> ceil_ticks per d \<le> ceil_ticks per d'"
  by (simp add: ceil_ticks_def kNsPerSecond_def zdiv_mono1 mult_right_mono)

text \<open>The longest wait converts to the largest number of ticks below \<open>TX_WAIT_FOREVER\<close>.\<close>

lemma ceil_ticks_kMaxNs:
  assumes "0 < per" "per \<le> kNsPerSecond"
  shows "ceil_ticks per (kMaxNs per) = kMaxTicks"
proof -
  let ?X = "kMaxTicks * kNsPerSecond"
  have m: "kMaxNs per = ?X div per" using assms by (simp add: kMaxNs_def kMaxTicks_def TX_WAIT_FOREVER_def kNsPerSecond_def)
  have "?X = ?X div per * per + ?X mod per" by simp
  then have "?X - per < kMaxNs per * per" "kMaxNs per * per \<le> ?X"
    using assms(1) pos_mod_bound [of per ?X] pos_mod_sign [of per ?X] unfolding m by linarith+
  moreover note ceil_ticks_bounds [where duration = "kMaxNs per" and per = per]
  ultimately have "kMaxTicks * kNsPerSecond < (ceil_ticks per (kMaxNs per) + 1) * kNsPerSecond"
    "ceil_ticks per (kMaxNs per) * kNsPerSecond < (kMaxTicks + 1) * kNsPerSecond"
    using assms(2) unfolding distrib_right by linarith+
  then show ?thesis by (simp add: kNsPerSecond_def)
qed

lemma blockingTicks_ceil:
  assumes "0 < per" "per \<le> kNsPerSecond"
  shows "uint (blockingTicks per duration) = (if duration \<le> 0 then 0 else min (ceil_ticks per duration) kMaxTicks)"
proof (cases "duration \<le> 0")
  case True
  then show ?thesis by (simp add: blockingTicks_def)
next
  case False
  let ?ns = "min duration (kMaxNs per)"
  have pos: "0 < kMaxNs per"
    using assms
    by (simp add: kMaxNs_def kMaxTicks_def TX_WAIT_FOREVER_def kNsPerSecond_def pos_imp_zdiv_pos_iff)
  then have "0 \<le> ?ns * per" using False assms by simp
  then have ticks: "trunc_div (?ns * per + kNsPerSecond - 1) kNsPerSecond = ceil_ticks per ?ns"
    using ceil_div_add [of kNsPerSecond "?ns * per"]
    by (simp add: ceil_ticks_def kNsPerSecond_def)
  have cut: "ceil_ticks per ?ns = min (ceil_ticks per duration) kMaxTicks"
    using ceil_ticks_mono [OF assms(1)] ceil_ticks_kMaxNs [OF assms]
    by (metis min.absorb1 min.absorb2 linear)
  have "0 < ceil_ticks per ?ns * kNsPerSecond"
    using ceil_ticks_bounds(1) [of ?ns per] False pos assms(1)
    by (smt (verit) mult_pos_pos min_def)
  then have "0 \<le> ceil_ticks per ?ns" by (simp add: kNsPerSecond_def)
  moreover have "ceil_ticks per ?ns < 2 ^ 32" using cut by (simp add: kMaxTicks_def TX_WAIT_FOREVER_def)
  ultimately show ?thesis using False
    by (simp add: blockingTicks_def Let_def ticks cut [symmetric] uint_word_of_int_eq take_bit_int_eq_self)
qed


section \<open>Kernel objects\<close>

text \<open>
  Statuses are numbers, 0 for \<open>TX_SUCCESS\<close>; a creation also yields the object. \<open>'f\<close> is what a
  task runs; it is created with its priority and its preemption threshold.
\<close>

datatype thread_state = TX_READY | TX_COMPLETED | TX_TERMINATED | OtherThreadState nat

record ('f, 'o) tx_api =
  tx_mutex_create :: "'o \<Rightarrow> (nat \<times> nat) \<times> 'o"
  tx_mutex_delete :: "nat \<Rightarrow> 'o \<Rightarrow> 'o"
  tx_mutex_get :: "nat \<Rightarrow> int \<Rightarrow> 'o \<Rightarrow> 'o"
  tx_mutex_put :: "nat \<Rightarrow> 'o \<Rightarrow> 'o"
  tx_semaphore_create :: "'o \<Rightarrow> (nat \<times> nat) \<times> 'o"
  tx_semaphore_delete :: "nat \<Rightarrow> 'o \<Rightarrow> 'o"
  tx_thread_create :: "'f \<Rightarrow> ULONG \<Rightarrow> nat \<Rightarrow> nat \<Rightarrow> 'o \<Rightarrow> (nat \<times> nat) \<times> 'o"
  tx_thread_delete :: "nat \<Rightarrow> 'o \<Rightarrow> 'o"
  tx_thread_terminate :: "nat \<Rightarrow> 'o \<Rightarrow> 'o"
  tx_thread_info_get :: "nat \<Rightarrow> 'o \<Rightarrow> thread_state \<times> 'o"
  tx_thread_sleep :: "ULONG \<Rightarrow> 'o \<Rightarrow> 'o"
  tx_now :: "'o \<Rightarrow> time \<times> 'o"

definition TX_SUCCESS :: nat where "TX_SUCCESS = 0"

definition ThreadXMutex_create :: "('f, 'o) tx_api \<Rightarrow> 'o \<Rightarrow> (exc + nat) \<times> 'o" where
  "ThreadXMutex_create tx w =
     (let ((status, m), w) = tx_mutex_create tx w
      in if status \<noteq> TX_SUCCESS
         then (Inl (DriverException ''tx_mutex_create failed (is the ThreadX kernel running?)''), w)
         else (Inr m, w))"

definition ThreadXMutex_destroy :: "('f, 'o) tx_api \<Rightarrow> nat \<Rightarrow> 'o \<Rightarrow> 'o" where
  "ThreadXMutex_destroy tx m w = tx_mutex_delete tx m w"

definition ThreadXMutex_lock :: "('f, 'o) tx_api \<Rightarrow> nat \<Rightarrow> 'o \<Rightarrow> 'o" where
  "ThreadXMutex_lock tx m w = tx_mutex_get tx m TX_WAIT_FOREVER w"

definition ThreadXMutex_unlock :: "('f, 'o) tx_api \<Rightarrow> nat \<Rightarrow> 'o \<Rightarrow> 'o" where
  "ThreadXMutex_unlock tx m w = tx_mutex_put tx m w"

definition ThreadXConditionVariable_create :: "('f, 'o) tx_api \<Rightarrow> 'o \<Rightarrow> (exc + nat) \<times> 'o" where
  "ThreadXConditionVariable_create tx w =
     (let ((status, s), w) = tx_semaphore_create tx w
      in if status \<noteq> TX_SUCCESS
         then (Inl (DriverException ''tx_semaphore_create failed (is the ThreadX kernel running?)''), w)
         else (Inr s, w))"

definition ThreadXConditionVariable_destroy :: "('f, 'o) tx_api \<Rightarrow> nat \<Rightarrow> 'o \<Rightarrow> 'o" where
  "ThreadXConditionVariable_destroy tx s w = tx_semaphore_delete tx s w"

section \<open>Threads\<close>

record ThreadXThread =
  tcb :: nat
  joined :: bool

definition ThreadXThread_create ::
  "('f, 'o) tx_api \<Rightarrow> 'f \<Rightarrow> ULONG \<Rightarrow> nat \<Rightarrow> 'o \<Rightarrow> (exc + ThreadXThread) \<times> 'o" where
  "ThreadXThread_create tx fn stackSize priority w =
     (let ((status, t), w) = tx_thread_create tx fn stackSize priority priority w
      in if status \<noteq> TX_SUCCESS
         then (Inl (DriverException (''tx_thread_create failed with status '' @ to_string status
                 @ '' (is the ThreadX kernel running, and the priority in range?)'')), w)
         else (Inr \<lparr>tcb = t, joined = False\<rparr>, w))"

definition ThreadXThread_destroy :: "('f, 'o) tx_api \<Rightarrow> ThreadXThread \<Rightarrow> 'o \<Rightarrow> 'o" where
  "ThreadXThread_destroy tx t w =
     (let w = (if \<not> joined t then tx_thread_terminate tx (tcb t) w else w)
      in tx_thread_delete tx (tcb t) w)"

text \<open>The polls of the task's state; \<open>None\<close>: it has not ended within the fuel.\<close>

fun join_loop :: "nat \<Rightarrow> ('f, 'o) tx_api \<Rightarrow> nat \<Rightarrow> 'o \<Rightarrow> 'o option" where
  "join_loop 0 tx t w = None"
| "join_loop (Suc fuel) tx t w =
     (let (state, w) = tx_thread_info_get tx t w
      in if state = TX_COMPLETED \<or> state = TX_TERMINATED then Some w
         else join_loop fuel tx t (tx_thread_sleep tx 1 w))"

definition ThreadXThread_join :: "nat \<Rightarrow> ('f, 'o) tx_api \<Rightarrow> ThreadXThread \<Rightarrow> 'o \<Rightarrow> (ThreadXThread \<times> 'o) option" where
  "ThreadXThread_join fuel tx t w =
     (case join_loop fuel tx (tcb t) w of
        None \<Rightarrow> None
      | Some w \<Rightarrow> Some (t\<lparr>joined := True\<rparr>, w))"

section \<open>The platform\<close>

record ThreadXPlatform =
  threadStackSize :: ULONG
  threadPriority :: nat

definition ThreadXPlatform_defaults :: ThreadXPlatform where
  "ThreadXPlatform_defaults = \<lparr>threadStackSize = 4096, threadPriority = 15\<rparr>"

definition tx_spawn ::
  "('f, 'o) tx_api \<Rightarrow> ThreadXPlatform \<Rightarrow> 'f \<Rightarrow> 'o \<Rightarrow> (exc + ThreadXThread) \<times> 'o" where
  "tx_spawn tx pf fn w = ThreadXThread_create tx fn (threadStackSize pf) (threadPriority pf) w"

definition tx_sleepUntil :: "int \<Rightarrow> ('f, 'o) tx_api \<Rightarrow> time \<Rightarrow> 'o \<Rightarrow> 'o" where
  "tx_sleepUntil per tx timePoint w =
     (let (now, w) = tx_now tx w;
          ticks = blockingTicks per (timePoint - now)
      in if ticks \<noteq> 0 then tx_thread_sleep tx ticks w else w)"

definition tx_sleepFor :: "int \<Rightarrow> ('f, 'o) tx_api \<Rightarrow> millis \<Rightarrow> 'o \<Rightarrow> 'o" where
  "tx_sleepFor per tx duration w =
     (let ticks = blockingTicks per (ns_of_ms duration)
      in if ticks \<noteq> 0 then tx_thread_sleep tx ticks w else w)"

text \<open>A join returns as soon as the task has ended, and a joined task is not terminated again.\<close>

lemma join_marks: "ThreadXThread_join fuel tx t w = Some (t', w') \<Longrightarrow> joined t' \<and> tcb t' = tcb t"
  by (auto simp: ThreadXThread_join_def split: option.splits)

lemma join_then_destroy:
  "ThreadXThread_join fuel tx t w = Some (t', w') \<Longrightarrow>
     ThreadXThread_destroy tx t' w' = tx_thread_delete tx (tcb t) w'"
  by (auto simp: ThreadXThread_destroy_def ThreadXThread_join_def split: option.splits)

section \<open>The sleeps of the port\<close>

text \<open>
  What ThreadX documents of its clock and of \<open>tx_thread_sleep\<close>: the tick under way counts as the
  first, so a sleep of \<open>n\<close> ticks may last no longer than \<open>n - 1\<close> of them.
\<close>

definition tx_contract :: "int \<Rightarrow> ('f, 'o) tx_api \<Rightarrow> ('o \<Rightarrow> time) \<Rightarrow> bool" where
  "tx_contract per tx clk \<longleftrightarrow>
     0 < per \<and> per \<le> kNsPerSecond
   \<and> (\<forall>w. clk w \<le> fst (tx_now tx w) \<and> fst (tx_now tx w) \<le> clk (snd (tx_now tx w)))
   \<and> (\<forall>n w. clk w \<le> clk (tx_thread_sleep tx n w)
        \<and> (uint n - 1) * kNsPerSecond \<le> (clk (tx_thread_sleep tx n w) - clk w) * per)"

definition tick_ns :: "int \<Rightarrow> time" where
  "tick_ns per = kNsPerSecond div per"

lemma within_a_tick:
  assumes "0 < per" "(d - e) * per \<le> kNsPerSecond"
  shows "d - tick_ns per \<le> e"
proof -
  have "d - e \<le> kNsPerSecond div per"
    using zdiv_mono1 [OF assms(2,1)] assms(1) by simp
  then show ?thesis by (simp add: tick_ns_def)
qed

text \<open>A sleep for the ticks of a duration, none at all included.\<close>

lemma tx_sleep_covers:
  assumes c: "tx_contract per tx clk" and d: "d \<le> kMaxNs per"
  shows "clk w \<le> clk (if blockingTicks per d \<noteq> 0 then tx_thread_sleep tx (blockingTicks per d) w else w)
    \<and> clk w + d - tick_ns per \<le> clk (if blockingTicks per d \<noteq> 0 then tx_thread_sleep tx (blockingTicks per d) w else w)"
proof -
  let ?n = "blockingTicks per d" and ?w = "tx_thread_sleep tx (blockingTicks per d) w"
  have per: "0 < per" "per \<le> kNsPerSecond" using c by (simp_all add: tx_contract_def)
  have s: "clk w \<le> clk ?w" "(uint ?n - 1) * kNsPerSecond \<le> (clk ?w - clk w) * per"
    using c by (simp_all add: tx_contract_def)
  have tick: "0 \<le> tick_ns per" using per by (simp add: tick_ns_def kNsPerSecond_def pos_imp_zdiv_nonneg_iff)
  show ?thesis
  proof (cases "d \<le> 0")
    case True
    then show ?thesis using tick by (simp add: blockingTicks_def)
  next
    case False
    have n: "uint ?n = ceil_ticks per d"
      using blockingTicks_ceil [OF per, of d] False ceil_ticks_mono [OF per(1) d] ceil_ticks_kMaxNs [OF per] by simp
    have "d * per \<le> uint ?n * kNsPerSecond" using ceil_ticks_bounds(1) [of d per] n by simp
    then have "(d - (clk ?w - clk w)) * per \<le> kNsPerSecond"
      using s(2) by (simp add: algebra_simps)
    from within_a_tick [OF per(1) this] have late: "clk w + d - tick_ns per \<le> clk ?w" by simp
    have "0 < d * per" using False per(1) by simp
    then have "0 < uint ?n * kNsPerSecond" using ceil_ticks_bounds(1) [of d per] n by simp
    then have "?n \<noteq> 0" by auto
    then show ?thesis using s(1) late by simp
  qed
qed

definition tx_good :: "int \<Rightarrow> ('f, 'o) tx_api \<Rightarrow> ('o \<Rightarrow> time) \<Rightarrow> 'o \<Rightarrow> bool" where
  "tx_good per tx clk w \<longleftrightarrow> tx_contract per tx clk"

interpretation tx: sleeping_platform clk "tx_now tx" "\<lambda>t w. Some (tx_sleepUntil per tx t w)"
  "\<lambda>d w. Some (tx_sleepFor per tx d w)" "tx_good per tx clk" "kMaxNs per" "tick_ns per"
  for clk tx per
proof
  show reads: "tx_good per tx clk w \<Longrightarrow> tx_now tx w = (t, w') \<Longrightarrow>
      tx_good per tx clk w' \<and> clk w \<le> t \<and> t \<le> clk w'" for w t w'
    unfolding tx_good_def tx_contract_def by (metis fst_conv snd_conv)
  show "\<exists>w'. Some (tx_sleepFor per tx d w) = Some w' \<and> tx_good per tx clk w'
      \<and> clk w \<le> clk w' \<and> clk w + ns_of_ms d - tick_ns per \<le> clk w'"
    if "tx_good per tx clk w" "ns_of_ms d \<le> kMaxNs per" for w d
    using tx_sleep_covers [of per tx clk "ns_of_ms d" w] that by (simp add: tx_sleepFor_def Let_def tx_good_def)
  show "\<exists>w'. Some (tx_sleepUntil per tx timePoint w) = Some w' \<and> tx_good per tx clk w'
      \<and> clk w \<le> clk w' \<and> timePoint - tick_ns per \<le> clk w'"
    if "tx_good per tx clk w" "timePoint - clk w \<le> kMaxNs per" for w timePoint
  proof -
    obtain t w1 where n: "tx_now tx w = (t, w1)" by (cases "tx_now tx w")
    note r = reads [OF that(1) n]
    have "timePoint - t \<le> kMaxNs per" using r that(2) by linarith
    from tx_sleep_covers [OF that(1) [unfolded tx_good_def] this, of w1] r n that(1) show ?thesis
      by (simp add: tx_sleepUntil_def Let_def tx_good_def split: if_splits)
  qed
qed

text \<open>On ThreadX a sleep may end early, but by no more than a tick: whatever its phase in the tick
  under way, \<open>sleepUntil\<close> comes back no more than one tick before the time point, up to the longest
  finite wait.\<close>

theorem tx_sleepUntil_within_a_tick:
  assumes "tx_contract per tx clk" "timePoint - clk w \<le> kMaxNs per"
  shows "clk w \<le> clk (tx_sleepUntil per tx timePoint w) \<and> timePoint - tick_ns per \<le> clk (tx_sleepUntil per tx timePoint w)"
  using tx.sleeps [of per tx clk w timePoint] assms by (simp add: tx_good_def)

text \<open>A kernel of a thousand ticks a second whose sleeps end a full tick early.\<close>

definition early_kernel :: "(unit, time) tx_api" where
  "early_kernel =
     \<lparr>tx_mutex_create = (\<lambda>w. ((0, 0), w)), tx_mutex_delete = (\<lambda>m w. w), tx_mutex_get = (\<lambda>m t w. w), tx_mutex_put = (\<lambda>m w. w),
      tx_semaphore_create = (\<lambda>w. ((0, 0), w)), tx_semaphore_delete = (\<lambda>s w. w),
      tx_thread_create = (\<lambda>f s p q w. ((0, 0), w)), tx_thread_delete = (\<lambda>t w. w), tx_thread_terminate = (\<lambda>t w. w),
      tx_thread_info_get = (\<lambda>t w. (TX_COMPLETED, w)),
      tx_thread_sleep = (\<lambda>n w. if n = 0 then w else w + (uint n - 1) * 1000000), tx_now = (\<lambda>w. (w, w))\<rparr>"

lemma tx_sleepUntil_within_a_tick_witness:
  "tx_sleepUntil 1000 early_kernel 5000000 0 = 4000000 \<and> 5000000 - tick_ns 1000 \<le> tx_sleepUntil 1000 early_kernel 5000000 0"
proof -
  have pos: "1 \<le> uint n" if "n \<noteq> 0" for n :: ULONG
    using that by (smt (verit) uint_0_iff uint_ge_0)
  have "tx_contract 1000 early_kernel (\<lambda>w. w)"
    using pos by (auto simp: tx_contract_def early_kernel_def kNsPerSecond_def)
  from tx_sleepUntil_within_a_tick [OF this, of 5000000 0]
  have "5000000 - tick_ns 1000 \<le> tx_sleepUntil 1000 early_kernel 5000000 0"
    by (simp add: kMaxNs_def kMaxTicks_def TX_WAIT_FOREVER_def kNsPerSecond_def)
  moreover have "tx_sleepUntil 1000 early_kernel 5000000 0 = 4000000" by code_simp
  ultimately show ?thesis by simp
qed

end
