(* ===== verification/ThreadXCondition.thy ===== *)
theory ThreadXCondition
  imports ThreadXPort
begin

text \<open>
  \<open>ThreadXConditionVariable\<close> of \<open>ports/threadx/threadx_platform.hpp\<close>: a counting semaphore and a
  waiter count. The statements of \<open>waitUntil\<close> and \<open>notifyAll\<close> are the steps of a machine, one
  action each, so that threads interleave between any two of them. The semaphore is a parameter,
  \<open>semaphore_laws\<close> what the kernel documents of it.
\<close>

section \<open>The semaphore\<close>

text \<open>
  \<open>sem_get t ticks\<close>: thread \<open>t\<close> asks for a token; whether the call returned at once, or else \<open>t\<close>
  is suspended. \<open>sem_put\<close>: the thread it resumed, if any. \<open>sem_expire t\<close>: the wait of \<open>t\<close> timed out.
\<close>

record 's semaphore_ops =
  sem_get :: "nat \<Rightarrow> ULONG \<Rightarrow> 's \<Rightarrow> bool \<times> 's"
  sem_put :: "'s \<Rightarrow> nat option \<times> 's"
  sem_expire :: "nat \<Rightarrow> 's \<Rightarrow> 's"

definition semaphore_laws :: "'s semaphore_ops \<Rightarrow> ('s \<Rightarrow> nat) \<Rightarrow> ('s \<Rightarrow> nat list) \<Rightarrow> bool" where
  "semaphore_laws ops tokens queue \<longleftrightarrow>
     (\<forall>t n s. let (r, s') = sem_get ops t n s in
        if 0 < tokens s then r \<and> tokens s' = tokens s - 1 \<and> queue s' = queue s
        else if n = 0 then r \<and> tokens s' = 0 \<and> queue s' = queue s
        else \<not> r \<and> tokens s' = 0 \<and> queue s' = queue s @ [t])
   \<and> (\<forall>s. let (r, s') = sem_put ops s in
        case queue s of
          [] \<Rightarrow> r = None \<and> tokens s' = tokens s + 1 \<and> queue s' = []
        | t # ts \<Rightarrow> r = Some t \<and> tokens s' = tokens s \<and> queue s' = ts)
   \<and> (\<forall>t s. tokens (sem_expire ops t s) = tokens s \<and> queue (sem_expire ops t s) = remove1 t (queue s))"

section \<open>The machine\<close>

datatype cv_pc = Outside | Holding | Registered | Released | Suspended | Returned | Deregistered

record 's cv =
  cv_sem :: 's
  cv_waiters :: int
  cv_mutex :: "nat option"
  cv_pcs :: "nat \<Rightarrow> cv_pc"
  cv_pending :: "nat \<Rightarrow> nat"

datatype cv_action =
    Enter nat | Leave nat
  | Register nat | Unlock nat | Get nat time | Expire nat | Deregister nat | Relock nat
  | Load nat | Put nat

definition cv_at :: "nat \<Rightarrow> cv_pc \<Rightarrow> 's cv \<Rightarrow> 's cv" where
  "cv_at t pc c = c\<lparr>cv_pcs := (cv_pcs c)(t := pc)\<rparr>"

definition cv_init :: "'s \<Rightarrow> 's cv" where
  "cv_init s = \<lparr>cv_sem = s, cv_waiters = 0, cv_mutex = None, cv_pcs = (\<lambda>t. Outside), cv_pending = (\<lambda>i. 0)\<rparr>"

text \<open>
  \<open>waitUntil\<close> is entered and left \<open>Holding\<close> the caller's mutex: \<open>Register\<close>, \<open>Unlock\<close>, \<open>Get\<close> with the
  time to the deadline, \<open>Deregister\<close>, \<open>Relock\<close>. \<open>notifyAll\<close> of notifier \<open>i\<close> is \<open>Load i\<close>, then
  \<open>Put i\<close> while \<open>cv_pending i\<close> is positive.
\<close>

fun waitUntil_step :: "int \<Rightarrow> 's semaphore_ops \<Rightarrow> cv_action \<Rightarrow> 's cv \<Rightarrow> 's cv option" where
  "waitUntil_step per ops (Register t) c =
     (if cv_pcs c t = Holding then Some (cv_at t Registered (c\<lparr>cv_waiters := cv_waiters c + 1\<rparr>)) else None)"
| "waitUntil_step per ops (Unlock t) c =
     (if cv_pcs c t = Registered then Some (cv_at t Released (c\<lparr>cv_mutex := None\<rparr>)) else None)"
| "waitUntil_step per ops (Get t left) c =
     (if cv_pcs c t = Released
      then let (returned, s) = sem_get ops t (blockingTicks per left) (cv_sem c)
           in Some (cv_at t (if returned then Returned else Suspended) (c\<lparr>cv_sem := s\<rparr>))
      else None)"
| "waitUntil_step per ops (Expire t) c =
     (if cv_pcs c t = Suspended then Some (cv_at t Returned (c\<lparr>cv_sem := sem_expire ops t (cv_sem c)\<rparr>)) else None)"
| "waitUntil_step per ops (Deregister t) c =
     (if cv_pcs c t = Returned then Some (cv_at t Deregistered (c\<lparr>cv_waiters := cv_waiters c - 1\<rparr>)) else None)"
| "waitUntil_step per ops (Relock t) c =
     (if cv_pcs c t = Deregistered \<and> cv_mutex c = None then Some (cv_at t Holding (c\<lparr>cv_mutex := Some t\<rparr>)) else None)"
| "waitUntil_step per ops a c = None"

fun notifyAll_step :: "'s semaphore_ops \<Rightarrow> cv_action \<Rightarrow> 's cv \<Rightarrow> 's cv option" where
  "notifyAll_step ops (Load i) c =
     (if cv_pending c i = 0 then Some (c\<lparr>cv_pending := (cv_pending c)(i := nat (cv_waiters c))\<rparr>) else None)"
| "notifyAll_step ops (Put i) c =
     (if 0 < cv_pending c i
      then let (resumed, s) = sem_put ops (cv_sem c);
               c = c\<lparr>cv_sem := s, cv_pending := (cv_pending c)(i := cv_pending c i - 1)\<rparr>
           in Some (case resumed of None \<Rightarrow> c | Some t \<Rightarrow> cv_at t Returned c)
      else None)"
| "notifyAll_step ops a c = None"

fun cv_step :: "int \<Rightarrow> 's semaphore_ops \<Rightarrow> cv_action \<Rightarrow> 's cv \<Rightarrow> 's cv option" where
  "cv_step per ops (Enter t) c =
     (if cv_pcs c t = Outside \<and> cv_mutex c = None then Some (cv_at t Holding (c\<lparr>cv_mutex := Some t\<rparr>)) else None)"
| "cv_step per ops (Leave t) c =
     (if cv_pcs c t = Holding then Some (cv_at t Outside (c\<lparr>cv_mutex := None\<rparr>)) else None)"
| "cv_step per ops (Load i) c = notifyAll_step ops (Load i) c"
| "cv_step per ops (Put i) c = notifyAll_step ops (Put i) c"
| "cv_step per ops a c = waitUntil_step per ops a c"

fun cv_run :: "int \<Rightarrow> 's semaphore_ops \<Rightarrow> cv_action list \<Rightarrow> 's cv \<Rightarrow> 's cv option" where
  "cv_run per ops [] c = Some c"
| "cv_run per ops (a # as) c = (case cv_step per ops a c of None \<Rightarrow> None | Some c \<Rightarrow> cv_run per ops as c)"

section \<open>Counting the waiters\<close>

definition in_wait :: "cv_pc set" where "in_wait = {Registered, Released, Suspended, Returned}"

definition members :: "'s cv \<Rightarrow> nat set" where
  "members c = {t. cv_pcs c t \<in> in_wait}"

definition unserved :: "'s cv \<Rightarrow> nat set" where
  "unserved c = {t. cv_pcs c t \<in> {Registered, Released, Suspended}}"

definition suspended :: "'s cv \<Rightarrow> nat set" where
  "suspended c = {t. cv_pcs c t = Suspended}"

definition cv_ok :: "('s \<Rightarrow> nat) \<Rightarrow> ('s \<Rightarrow> nat list) \<Rightarrow> 's cv \<Rightarrow> bool" where
  "cv_ok tokens queue c \<longleftrightarrow>
     finite (members c) \<and> cv_waiters c = int (card (members c))
     \<and> distinct (queue (cv_sem c)) \<and> set (queue (cv_sem c)) = suspended c
     \<and> (0 < tokens (cv_sem c) \<longrightarrow> queue (cv_sem c) = [])"

lemma law_get:
  assumes "semaphore_laws ops tokens queue" "sem_get ops t n s = (r, s')"
  shows "0 < tokens s \<Longrightarrow> r \<and> tokens s' = tokens s - 1 \<and> queue s' = queue s"
    "tokens s = 0 \<Longrightarrow> n = 0 \<Longrightarrow> r \<and> tokens s' = 0 \<and> queue s' = queue s"
    "tokens s = 0 \<Longrightarrow> n \<noteq> 0 \<Longrightarrow> \<not> r \<and> tokens s' = 0 \<and> queue s' = queue s @ [t]"
  using assms(1) [unfolded semaphore_laws_def, THEN conjunct1, rule_format, of t n s] assms(2)
  by simp_all

lemma law_put:
  assumes "semaphore_laws ops tokens queue" "sem_put ops s = (r, s')"
  shows "queue s = [] \<Longrightarrow> r = None \<and> tokens s' = tokens s + 1 \<and> queue s' = []"
    "queue s = t # ts \<Longrightarrow> r = Some t \<and> tokens s' = tokens s \<and> queue s' = ts"
  using assms(1) [unfolded semaphore_laws_def, THEN conjunct2, THEN conjunct1, rule_format, of s] assms(2)
  by simp_all

lemma law_expire:
  "semaphore_laws ops tokens queue \<Longrightarrow> tokens (sem_expire ops t s) = tokens s"
  "semaphore_laws ops tokens queue \<Longrightarrow> queue (sem_expire ops t s) = remove1 t (queue s)"
  by (simp_all add: semaphore_laws_def)

lemma cv_ok_init: "tokens s = 0 \<Longrightarrow> queue s = [] \<Longrightarrow> cv_ok tokens queue (cv_init s)"
  by (simp add: cv_ok_def cv_init_def members_def suspended_def in_wait_def)

text \<open>How a thread's move changes the sets that are counted.\<close>

lemma move_members:
  "cv_pcs c' = (cv_pcs c)(t := pc) \<Longrightarrow>
     members c' = (if pc \<in> in_wait then insert t (members c) else members c - {t})"
  by (auto simp: members_def)

lemma move_suspended:
  "cv_pcs c' = (cv_pcs c)(t := pc) \<Longrightarrow>
     suspended c' = (if pc = Suspended then insert t (suspended c) else suspended c - {t})"
  by (auto simp: suspended_def)

lemma move_unserved:
  "cv_pcs c' = (cv_pcs c)(t := pc) \<Longrightarrow>
     unserved c' = (if pc \<in> {Registered, Released, Suspended} then insert t (unserved c) else unserved c - {t})"
  by (auto simp: unserved_def)

lemma same_pcs:
  "cv_pcs c' = cv_pcs c \<Longrightarrow> members c' = members c"
  "cv_pcs c' = cv_pcs c \<Longrightarrow> suspended c' = suspended c"
  "cv_pcs c' = cv_pcs c \<Longrightarrow> unserved c' = unserved c"
  by (simp_all add: members_def suspended_def unserved_def)

lemma in_members: "t \<in> members c \<longleftrightarrow> cv_pcs c t \<in> in_wait" by (simp add: members_def)
lemma in_suspended: "t \<in> suspended c \<longleftrightarrow> cv_pcs c t = Suspended" by (simp add: suspended_def)
lemma in_unserved: "t \<in> unserved c \<longleftrightarrow> cv_pcs c t \<in> {Registered, Released, Suspended}" by (simp add: unserved_def)
lemma unserved_members: "unserved c \<subseteq> members c" by (auto simp: unserved_def members_def in_wait_def)
lemma suspended_unserved: "suspended c \<subseteq> unserved c" by (auto simp: unserved_def suspended_def)

lemma cv_at_simps [simp]:
  "cv_sem (cv_at t pc c) = cv_sem c" "cv_waiters (cv_at t pc c) = cv_waiters c"
  "cv_mutex (cv_at t pc c) = cv_mutex c" "cv_pending (cv_at t pc c) = cv_pending c"
  "cv_pcs (cv_at t pc c) = (cv_pcs c)(t := pc)"
  by (simp_all add: cv_at_def)

text \<open>A move keeps the invariant when the waiter count and the semaphore follow it.\<close>

lemma cv_ok_move:
  assumes ok: "cv_ok tokens queue c" and pcs: "cv_pcs c' = (cv_pcs c)(t := pc)"
    and waiters: "cv_waiters c' = cv_waiters c + of_bool (pc \<in> in_wait) - of_bool (cv_pcs c t \<in> in_wait)"
    and queue: "distinct (queue (cv_sem c'))"
      "set (queue (cv_sem c')) = (if pc = Suspended then insert t (suspended c) else suspended c - {t})"
      "0 < tokens (cv_sem c') \<longrightarrow> queue (cv_sem c') = []"
  shows "cv_ok tokens queue c'"
proof -
  have fin: "finite (members c)" using ok by (simp add: cv_ok_def)
  have "int (card (members c')) = int (card (members c)) + of_bool (pc \<in> in_wait) - of_bool (cv_pcs c t \<in> in_wait)"
  proof (cases "t \<in> members c")
    case True
    then have "1 \<le> card (members c)" using fin by (metis One_nat_def Suc_leI card_gt_0_iff empty_iff)
    then show ?thesis
      using True fin by (simp add: move_members [OF pcs] insert_absorb in_members [symmetric] card_Diff_singleton)
  next
    case False
    then show ?thesis using fin by (simp add: move_members [OF pcs] in_members [symmetric])
  qed
  with ok waiters queue fin show ?thesis
    by (simp add: cv_ok_def move_members [OF pcs] move_suspended [OF pcs])
qed

lemma cv_ok_move_only:
  assumes "cv_ok tokens queue c" "cv_pcs c' = (cv_pcs c)(t := pc)" "cv_sem c' = cv_sem c"
    "cv_waiters c' = cv_waiters c + of_bool (pc \<in> in_wait) - of_bool (cv_pcs c t \<in> in_wait)"
    "cv_pcs c t \<noteq> Suspended" "pc \<noteq> Suspended"
  shows "cv_ok tokens queue c'"
proof -
  have "suspended c - {t} = suspended c" using assms(5) by (simp add: in_suspended)
  then show ?thesis using assms by (intro cv_ok_move [OF assms(1,2,4)]) (simp_all add: cv_ok_def)
qed

lemma cv_ok_step:
  assumes laws: "semaphore_laws ops tokens queue" and ok: "cv_ok tokens queue c"
    and step: "cv_step per ops a c = Some c'"
  shows "cv_ok tokens queue c'"
proof (cases a)
  case (Enter t)
  show ?thesis by (rule cv_ok_move_only [OF ok, of _ t Holding]) (use step Enter in \<open>auto simp: in_wait_def split: if_splits\<close>)
next
  case (Leave t)
  show ?thesis by (rule cv_ok_move_only [OF ok, of _ t Outside]) (use step Leave in \<open>auto simp: in_wait_def split: if_splits\<close>)
next
  case (Relock t)
  show ?thesis by (rule cv_ok_move_only [OF ok, of _ t Holding]) (use step Relock in \<open>auto simp: in_wait_def split: if_splits\<close>)
next
  case (Register t)
  show ?thesis by (rule cv_ok_move_only [OF ok, of _ t Registered]) (use step Register in \<open>auto simp: in_wait_def split: if_splits\<close>)
next
  case (Unlock t)
  show ?thesis by (rule cv_ok_move_only [OF ok, of _ t Released]) (use step Unlock in \<open>auto simp: in_wait_def split: if_splits\<close>)
next
  case (Deregister t)
  show ?thesis by (rule cv_ok_move_only [OF ok, of _ t Deregistered]) (use step Deregister in \<open>auto simp: in_wait_def split: if_splits\<close>)
next
  case (Get t left)
  with step have rel: "cv_pcs c t = Released" by (auto split: if_splits)
  then have t: "t \<notin> set (queue (cv_sem c))" using ok by (simp add: cv_ok_def in_suspended)
  obtain r s where g: "sem_get ops t (blockingTicks per left) (cv_sem c) = (r, s)"
    by (cases "sem_get ops t (blockingTicks per left) (cv_sem c)")
  have c': "c' = cv_at t (if r then Returned else Suspended) (c\<lparr>cv_sem := s\<rparr>)"
    using step Get rel g by simp
  have "(r \<and> queue s = queue (cv_sem c) \<and> tokens s \<le> tokens (cv_sem c))
      \<or> (\<not> r \<and> queue s = queue (cv_sem c) @ [t] \<and> tokens s = 0)"
    using law_get [OF laws g] by fastforce
  then show ?thesis
  proof (elim disjE conjE)
    assume "r" "queue s = queue (cv_sem c)" "tokens s \<le> tokens (cv_sem c)"
    then show ?thesis
      by (intro cv_ok_move [OF ok, of _ t Returned])
         (use ok rel t in \<open>simp_all add: c' cv_ok_def in_wait_def\<close>)
  next
    assume "\<not> r" "queue s = queue (cv_sem c) @ [t]" "tokens s = 0"
    then show ?thesis
      by (intro cv_ok_move [OF ok, of _ t Suspended])
         (use ok rel t in \<open>simp_all add: c' cv_ok_def in_wait_def\<close>)
  qed
next
  case (Expire t)
  with step have "cv_pcs c t = Suspended" "c' = cv_at t Returned (c\<lparr>cv_sem := sem_expire ops t (cv_sem c)\<rparr>)"
    by (auto split: if_splits)
  with ok show ?thesis
    by (intro cv_ok_move [OF ok, of _ t Returned]) (auto simp: cv_ok_def in_wait_def law_expire [OF laws])
next
  case (Load i)
  with step have "cv_sem c' = cv_sem c" "cv_waiters c' = cv_waiters c" "cv_pcs c' = cv_pcs c"
    by (auto split: if_splits)
  with ok show ?thesis by (simp add: cv_ok_def same_pcs [of c' c])
next
  case (Put i)
  obtain r s where g: "sem_put ops (cv_sem c) = (r, s)" by (cases "sem_put ops (cv_sem c)")
  show ?thesis
  proof (cases "queue (cv_sem c)")
    case Nil
    with step ok Put g law_put(1) [OF laws g]
    have "cv_pcs c' = cv_pcs c" "cv_waiters c' = cv_waiters c" "cv_sem c' = s" "queue s = []"
      by (auto split: if_splits)
    with ok Nil show ?thesis by (simp add: cv_ok_def same_pcs [of c' c])
  next
    case (Cons t ts)
    then have "cv_pcs c t = Suspended" using ok by (auto simp: cv_ok_def in_suspended)
    moreover have "c' = cv_at t Returned (c\<lparr>cv_sem := s, cv_pending := (cv_pending c)(i := cv_pending c i - 1)\<rparr>)"
      using step Put g law_put(2) [OF laws g Cons] by (simp split: if_splits)
    moreover have "distinct ts" "set ts = suspended c - {t}" "tokens s = 0"
      using ok Cons law_put(2) [OF laws g Cons] by (auto simp: cv_ok_def)
    ultimately show ?thesis
      using law_put(2) [OF laws g Cons] by (intro cv_ok_move [OF ok, of _ t Returned]) (simp_all add: in_wait_def)
  qed
qed

lemma cv_ok_run:
  assumes laws: "semaphore_laws ops tokens queue"
  shows "cv_run per ops as c = Some c' \<Longrightarrow> cv_ok tokens queue c \<Longrightarrow> cv_ok tokens queue c'"
  by (induction as arbitrary: c) (auto intro: cv_ok_step [OF laws] split: option.splits)


section \<open>A notification reaches the waiters of its time\<close>

text \<open>
  While nobody new registers, the threads that have not come back from the semaphore are no more
  than the tokens still to be put and those at hand.
\<close>

definition covered :: "('s \<Rightarrow> nat) \<Rightarrow> nat \<Rightarrow> 's cv \<Rightarrow> bool" where
  "covered tokens i c \<longleftrightarrow> card (unserved c) \<le> cv_pending c i + tokens (cv_sem c)"

lemma finite_unserved: "cv_ok tokens queue c \<Longrightarrow> finite (unserved c)"
  unfolding cv_ok_def by (metis unserved_members finite_subset)

lemma load_covers:
  assumes "cv_ok tokens queue c" "cv_step per ops (Load i) c = Some c'"
  shows "covered tokens i c'"
proof -
  have "card (unserved c) \<le> card (members c)"
    using assms(1) by (intro card_mono unserved_members) (simp add: cv_ok_def)
  moreover have "cv_pcs c' = cv_pcs c" "cv_pending c' i = nat (cv_waiters c)"
    using assms(2) by (auto split: if_splits)
  ultimately show ?thesis using assms(1) unfolding covered_def cv_ok_def by (simp add: same_pcs(3) [of c' c])
qed

lemma covered_move:
  assumes "cv_ok tokens queue c" "covered tokens i c" "cv_pcs c' = (cv_pcs c)(t := pc)"
    "cv_pending c' i = cv_pending c i" "tokens (cv_sem c) \<le> tokens (cv_sem c')"
    "pc \<notin> {Registered, Released, Suspended} \<or> cv_pcs c t \<in> {Registered, Released, Suspended}"
  shows "covered tokens i c'"
proof -
  have "unserved c' \<subseteq> unserved c"
  proof (cases "pc \<in> {Registered, Released, Suspended}")
    case True
    with assms(6) have "t \<in> unserved c" unfolding in_unserved by blast
    then show ?thesis using True by (simp only: move_unserved [OF assms(3)] insert_absorb if_True)
  next
    case False
    then show ?thesis by (simp only: move_unserved [OF assms(3)] if_False) blast
  qed
  then have "card (unserved c') \<le> card (unserved c)" using finite_unserved [OF assms(1)] by (rule card_mono [rotated])
  with assms show ?thesis by (simp add: covered_def)
qed

lemma covered_serve:
  assumes "cv_ok tokens queue c" "covered tokens i c" "cv_pcs c' = (cv_pcs c)(t := Returned)"
    "cv_pcs c t \<in> {Registered, Released, Suspended}"
    "cv_pending c i + tokens (cv_sem c) \<le> cv_pending c' i + tokens (cv_sem c') + 1"
  shows "covered tokens i c'"
proof -
  have "t \<in> unserved c" using assms(4) by (simp only: in_unserved)
  moreover have "unserved c' = unserved c - {t}" by (simp add: move_unserved [OF assms(3)])
  ultimately have "Suc (card (unserved c')) = card (unserved c)"
    using card_Suc_Diff1 [OF finite_unserved [OF assms(1)]] by simp
  with assms show ?thesis by (simp add: covered_def)
qed

lemma covered_step:
  assumes laws: "semaphore_laws ops tokens queue" and ok: "cv_ok tokens queue c" and cov: "covered tokens i c"
    and step: "cv_step per ops a c = Some c'" and old: "\<forall>t. a \<noteq> Register t"
  shows "covered tokens i c'"
proof (cases a)
  case (Enter t)
  show ?thesis by (rule covered_move [OF ok cov, of _ t Holding]) (use step Enter in \<open>auto split: if_splits\<close>)
next
  case (Leave t)
  show ?thesis by (rule covered_move [OF ok cov, of _ t Outside]) (use step Leave in \<open>auto split: if_splits\<close>)
next
  case (Relock t)
  show ?thesis by (rule covered_move [OF ok cov, of _ t Holding]) (use step Relock in \<open>auto split: if_splits\<close>)
next
  case (Register t)
  with old show ?thesis by simp
next
  case (Unlock t)
  show ?thesis by (rule covered_move [OF ok cov, of _ t Released]) (use step Unlock in \<open>auto split: if_splits\<close>)
next
  case (Deregister t)
  show ?thesis by (rule covered_move [OF ok cov, of _ t Deregistered]) (use step Deregister in \<open>auto split: if_splits\<close>)
next
  case (Get t left)
  with step have rel: "cv_pcs c t = Released" by (auto split: if_splits)
  obtain r s where g: "sem_get ops t (blockingTicks per left) (cv_sem c) = (r, s)"
    by (cases "sem_get ops t (blockingTicks per left) (cv_sem c)")
  have c': "c' = cv_at t (if r then Returned else Suspended) (c\<lparr>cv_sem := s\<rparr>)"
    using step Get rel g by simp
  have "(r \<and> tokens (cv_sem c) \<le> tokens s + 1) \<or> (\<not> r \<and> tokens s = tokens (cv_sem c))"
    using law_get [OF laws g] by fastforce
  then show ?thesis
  proof
    assume "r \<and> tokens (cv_sem c) \<le> tokens s + 1"
    then show ?thesis by (intro covered_serve [OF ok cov, of _ t]) (simp_all add: c' rel)
  next
    assume "\<not> r \<and> tokens s = tokens (cv_sem c)"
    then show ?thesis by (intro covered_move [OF ok cov, of _ t Suspended]) (simp_all add: c' rel)
  qed
next
  case (Expire t)
  show ?thesis
    by (rule covered_serve [OF ok cov, of _ t]) (use step Expire in \<open>auto simp: law_expire [OF laws] split: if_splits\<close>)
next
  case (Load j)
  show ?thesis
  proof (cases "j = i")
    case True
    with load_covers [OF ok] step Load show ?thesis by blast
  next
    case False
    with step Load have "cv_pcs c' = cv_pcs c" "cv_sem c' = cv_sem c" "cv_pending c' i = cv_pending c i"
      by (auto split: if_splits)
    with cov show ?thesis by (simp add: covered_def same_pcs [of c' c])
  qed
next
  case (Put j)
  obtain r s where g: "sem_put ops (cv_sem c) = (r, s)" by (cases "sem_put ops (cv_sem c)")
  show ?thesis
  proof (cases "queue (cv_sem c)")
    case Nil
    with step Put g law_put(1) [OF laws g]
    have "cv_pcs c' = cv_pcs c" "tokens (cv_sem c') = tokens (cv_sem c) + 1" "cv_pending c i \<le> cv_pending c' i + 1"
      by (auto split: if_splits)
    with cov show ?thesis by (simp add: covered_def same_pcs [of c' c])
  next
    case (Cons t ts)
    then have "cv_pcs c t = Suspended" using ok by (auto simp: cv_ok_def in_suspended)
    with step Put g law_put(2) [OF laws g Cons] Cons show ?thesis
      by (intro covered_serve [OF ok cov, of _ t]) (auto split: if_splits)
  qed
qed

lemma covered_run:
  assumes laws: "semaphore_laws ops tokens queue"
  shows "cv_run per ops as c = Some c' \<Longrightarrow> cv_ok tokens queue c \<Longrightarrow> covered tokens i c \<Longrightarrow>
     \<forall>t. Register t \<notin> set as \<Longrightarrow> covered tokens i c'"
proof (induction as arbitrary: c)
  case (Cons a as)
  then obtain c1 where c1: "cv_step per ops a c = Some c1" "cv_run per ops as c1 = Some c'"
    by (auto split: option.splits)
  have "\<forall>t. a \<noteq> Register t" using Cons.prems(4) by auto
  then show ?case
    using Cons.IH [OF c1(2) cv_ok_step [OF laws Cons.prems(2) c1(1)] covered_step [OF laws Cons.prems(2,3) c1(1)]]
      Cons.prems(4) by simp
qed simp

lemma covered_none_suspended:
  assumes "cv_ok tokens queue c" "covered tokens i c" "cv_pending c i = 0"
  shows "suspended c = {}"
proof (rule ccontr)
  assume "suspended c \<noteq> {}"
  then have "queue (cv_sem c) \<noteq> []" using assms(1) by (auto simp: cv_ok_def)
  then have "tokens (cv_sem c) = 0" using assms(1) by (auto simp: cv_ok_def)
  then have "card (unserved c) = 0" using assms(2,3) by (simp add: covered_def)
  then have "unserved c = {}" using finite_unserved [OF assms(1)] by simp
  with suspended_unserved \<open>suspended c \<noteq> {}\<close> show False by blast
qed

end
