(* ===== verification/ThreadXProperties.thy ===== *)
theory ThreadXProperties
  imports ThreadXCondition
begin

text \<open>
  Properties of the ThreadX port: the tick arithmetic, and what a notification through the emulated
  condition variable reaches. \<open>counting_semaphore\<close> is a semaphore that keeps the kernel's laws.
\<close>

definition counting_semaphore :: "(nat \<times> nat list) semaphore_ops" where
  "counting_semaphore =
     \<lparr>sem_get = (\<lambda>t n (k, q). if 0 < k then (True, (k - 1, q)) else if n = 0 then (True, (k, q)) else (False, (k, q @ [t]))),
      sem_put = (\<lambda>(k, q). case q of [] \<Rightarrow> (None, (k + 1, [])) | t # ts \<Rightarrow> (Some t, (k, ts))),
      sem_expire = (\<lambda>t (k, q). (k, remove1 t q))\<rparr>"

lemma counting_semaphore_laws: "semaphore_laws counting_semaphore fst snd"
  by (auto simp: semaphore_laws_def counting_semaphore_def Let_def split: list.splits)

text \<open>C34: \<open>blockingTicks\<close> is the mathematical tick count, rounded up and cut one below
  \<open>TX_WAIT_FOREVER\<close>, for every duration and tick rate up to one per nanosecond: its cap on the
  nanoseconds is the cap on the ticks, and no product on the way leaves 64 bits.
\<close>

theorem blockingTicks_exact:
  assumes "0 < per" "per \<le> kNsPerSecond"
  shows "uint (blockingTicks per duration) = (if duration \<le> 0 then 0 else min (ceil_ticks per duration) kMaxTicks)
    \<and> (0 < duration \<longrightarrow> 0 < blockingTicks per duration \<and> uint (blockingTicks per duration) < TX_WAIT_FOREVER)
    \<and> (0 < duration \<longrightarrow> fits_i64 (min duration (kMaxNs per) * per + kNsPerSecond - 1))"
proof (intro conjI impI)
  show ticks: "uint (blockingTicks per duration) = (if duration \<le> 0 then 0 else min (ceil_ticks per duration) kMaxTicks)"
    by (rule blockingTicks_ceil [OF assms])
  assume pos: "0 < duration"
  have "0 < duration * per" using pos assms by simp
  then have "0 < ceil_ticks per duration"
    using ceil_ticks_bounds(1) [of duration per] by (simp add: kNsPerSecond_def)
  then show "0 < blockingTicks per duration"
    using ticks pos by (simp add: word_less_def kMaxTicks_def TX_WAIT_FOREVER_def)
  show "uint (blockingTicks per duration) < TX_WAIT_FOREVER"
    using ticks pos by (simp add: kMaxTicks_def)
  have nn: "0 \<le> kMaxNs per"
    using assms by (simp add: kMaxNs_def kMaxTicks_def TX_WAIT_FOREVER_def kNsPerSecond_def pos_imp_zdiv_nonneg_iff)
  have "kMaxNs per * per \<le> kMaxTicks * kNsPerSecond"
    using assms div_times_less_eq_dividend [of "nat (kMaxTicks * kNsPerSecond)"]
    by (simp add: kMaxNs_def kMaxTicks_def TX_WAIT_FOREVER_def kNsPerSecond_def)
       (metis minus_mod_eq_div_mult diff_le_eq le_add_same_cancel1 pos_mod_sign)
  moreover have "min duration (kMaxNs per) * per \<le> kMaxNs per * per"
    using assms by (intro mult_right_mono) simp_all
  moreover have "0 \<le> min duration (kMaxNs per) * per" using pos nn assms by simp
  ultimately show "fits_i64 (min duration (kMaxNs per) * per + kNsPerSecond - 1)"
    by (simp add: fits_i64_def kMaxTicks_def TX_WAIT_FOREVER_def kNsPerSecond_def)
qed

lemma blockingTicks_exact_witness:
  "uint (blockingTicks 100 (2 ^ 63 - 1)) = kMaxTicks \<and> uint (blockingTicks 100 (2 ^ 63 - 1)) < TX_WAIT_FOREVER
    \<and> fits_i64 (min (2 ^ 63 - 1) (kMaxNs 100) * 100 + kNsPerSecond - 1)"
proof -
  have "min (ceil_ticks 100 (2 ^ 63 - 1)) kMaxTicks = kMaxTicks" by code_simp
  then show ?thesis using blockingTicks_exact [of 100 "2 ^ 63 - 1"] by (simp add: kNsPerSecond_def)
qed

text \<open>C25: A notification through the ThreadX condition variable reaches every waiter of its time, as
  long as nobody registers after it counted them. In any interleaving of waiters and notifiers, once
  the notifier has put its tokens no thread is left suspended, and there is a token for every
  registered thread that has yet to ask for one.
\<close>

theorem notification_reaches_waiters:
  assumes "semaphore_laws ops tokens queue" "tokens s = 0" "queue s = []"
    and "cv_run per ops before (cv_init s) = Some c"
    and "cv_step per ops (Load i) c = Some c1"
    and "cv_run per ops after c1 = Some c2" "\<forall>t. Register t \<notin> set after" "cv_pending c2 i = 0"
  shows "cv_pcs c2 t \<noteq> Suspended
    \<and> card {t. cv_pcs c2 t \<in> {Registered, Released}} \<le> tokens (cv_sem c2)"
proof -
  have ok: "cv_ok tokens queue c"
    by (rule cv_ok_run [OF assms(1,4)]) (rule cv_ok_init, fact+)
  have ok1: "cv_ok tokens queue c1" by (rule cv_ok_step [OF assms(1) ok assms(5)])
  have ok2: "cv_ok tokens queue c2" by (rule cv_ok_run [OF assms(1,6) ok1])
  have cov: "covered tokens i c2"
    by (rule covered_run [OF assms(1,6) ok1 load_covers [OF ok assms(5)] assms(7)])
  have "suspended c2 = {}" by (rule covered_none_suspended [OF ok2 cov assms(8)])
  moreover from this have "{t. cv_pcs c2 t \<in> {Registered, Released}} = unserved c2"
    by (auto simp: unserved_def suspended_def)
  ultimately show ?thesis using cov assms(8) by (auto simp: covered_def suspended_def)
qed

lemma notification_reaches_waiters_witness:
  "\<exists>c c1 c2.
     cv_run 100 counting_semaphore [Enter 1, Register 1, Unlock 1, Get 1 1000000000, Enter 2, Register 2, Unlock 2] (cv_init (0, [])) = Some c
   \<and> cv_step 100 counting_semaphore (Load 9) c = Some c1
   \<and> cv_run 100 counting_semaphore [Put 9, Put 9] c1 = Some c2
   \<and> cv_pcs c2 1 \<noteq> Suspended \<and> card {t. cv_pcs c2 t \<in> {Registered, Released}} \<le> fst (cv_sem c2)"
proof -
  have ticks: "blockingTicks 100 1000000000 \<noteq> 0" by code_simp
  obtain c where c: "cv_run 100 counting_semaphore
      [Enter 1, Register 1, Unlock 1, Get 1 1000000000, Enter 2, Register 2, Unlock 2] (cv_init (0, [])) = Some c"
      "cv_waiters c = 2" "cv_pending c 9 = 0" "cv_sem c = (0, [1])"
    using ticks by (simp add: cv_init_def cv_at_def counting_semaphore_def)
  obtain c1 where c1: "cv_step 100 counting_semaphore (Load 9) c = Some c1" "cv_pending c1 9 = 2" "cv_sem c1 = (0, [1])"
    using c by simp
  obtain c2 where c2: "cv_run 100 counting_semaphore [Put 9, Put 9] c1 = Some c2" "cv_pending c2 9 = 0"
    using c1 by (simp add: counting_semaphore_def cv_at_def)
  have "cv_pcs c2 1 \<noteq> Suspended \<and> card {t. cv_pcs c2 t \<in> {Registered, Released}} \<le> fst (cv_sem c2)"
    by (rule notification_reaches_waiters [OF counting_semaphore_laws _ _ c(1) c1(1) c2(1) _ c2(2)]) simp_all
  with c(1) c1(1) c2(1) show ?thesis by blast
qed

text \<open>C26: A thread that registers after a notification can take the token of one that registered
  before it. Thread 1 has released the mutex but not yet asked for its token when it is notified;
  thread 2 starts to wait, takes the token, and thread 1 is suspended with its notification spent.
\<close>

theorem notification_stolen:
  assumes "semaphore_laws ops tokens queue" "tokens s = 0" "queue s = []"
    and "blockingTicks per left \<noteq> 0"
  shows "\<exists>c. cv_run per ops
      [Enter 1, Register 1, Unlock 1, Load 9, Put 9, Enter 2, Register 2, Unlock 2, Get 2 left, Get 1 left] (cv_init s)
        = Some c
    \<and> cv_pcs c 1 = Suspended \<and> cv_pcs c 2 = Returned \<and> cv_pending c 9 = 0 \<and> tokens (cv_sem c) = 0"
proof -
  obtain r s1 where p: "sem_put ops s = (r, s1)" by (cases "sem_put ops s")
  note put = law_put(1) [OF assms(1) p assms(3)]
  obtain r2 s2 where g2: "sem_get ops 2 (blockingTicks per left) s1 = (r2, s2)"
    by (cases "sem_get ops 2 (blockingTicks per left) s1")
  note get2 = law_get(1) [OF assms(1) g2]
  obtain r3 s3 where g3: "sem_get ops 1 (blockingTicks per left) s2 = (r3, s3)"
    by (cases "sem_get ops 1 (blockingTicks per left) s2")
  note get3 = law_get(3) [OF assms(1) g3 _ assms(4)]
  have "tokens s2 = 0" "r2" using put get2 assms(2) by simp_all
  with get3 put show ?thesis
    by (simp add: cv_init_def cv_at_def p g2 g3 [simplified])
qed

lemma notification_stolen_witness:
  "\<exists>c. cv_run 100 counting_semaphore
      [Enter 1, Register 1, Unlock 1, Load 9, Put 9, Enter 2, Register 2, Unlock 2, Get 2 1000000000, Get 1 1000000000]
      (cv_init (0, [])) = Some c
    \<and> cv_pcs c 1 = Suspended \<and> cv_pcs c 2 = Returned \<and> cv_pending c 9 = 0 \<and> fst (cv_sem c) = 0"
proof -
  have ticks: "blockingTicks 100 1000000000 \<noteq> 0" by code_simp
  show ?thesis by (rule notification_stolen [OF counting_semaphore_laws _ _ ticks]) simp_all
qed

end
