(* ===== verification/StdPlatform.thy ===== *)
theory StdPlatform
  imports PlatformInterface
begin

text \<open>
  \<open>src/hosted/std_platform.cpp\<close>: the platform over \<open>std::thread\<close> and, on Windows, a high-resolution
  waitable timer. The standard library and the timer functions are the fields of \<open>std_ops\<close>, on a
  state \<open>'o\<close> that other threads change too; \<open>std_contract\<close> is what the sleeps and waits rely on.
  \<open>None\<close> is a loop that has not ended within the fuel.
\<close>

section \<open>The system interface\<close>

record 'o std_ops =
  steady_now :: "'o \<Rightarrow> time \<times> 'o"
  sleep_for :: "time \<Rightarrow> 'o \<Rightarrow> 'o"
  CreateWaitableTimer :: "'o \<Rightarrow> nat option \<times> 'o"
  SetWaitableTimer :: "nat \<Rightarrow> int \<Rightarrow> 'o \<Rightarrow> bool \<times> 'o"
  WaitForTimer :: "nat \<Rightarrow> 'o \<Rightarrow> bool \<times> 'o"
  CloseTimer :: "nat \<Rightarrow> 'o \<Rightarrow> 'o"
  std_lock :: "nat \<Rightarrow> 'o \<Rightarrow> 'o"
  std_unlock :: "nat \<Rightarrow> 'o \<Rightarrow> 'o"
  generation_load :: "nat \<Rightarrow> 'o \<Rightarrow> u64 \<times> 'o"
  generation_increment :: "nat \<Rightarrow> 'o \<Rightarrow> 'o"
  cond_wait_until :: "nat \<Rightarrow> nat \<Rightarrow> time \<Rightarrow> 'o \<Rightarrow> 'o"
  cond_notify_all :: "nat \<Rightarrow> 'o \<Rightarrow> 'o"
  thread_joinable :: "nat \<Rightarrow> 'o \<Rightarrow> bool"
  thread_join :: "nat \<Rightarrow> 'o \<Rightarrow> 'o"

section \<open>The waitable timer\<close>

text \<open>\<open>None\<close> is a null timer, which a kernel before 1803 hands out.\<close>

definition WaitableTimer_create :: "'o std_ops \<Rightarrow> 'o \<Rightarrow> nat option \<times> 'o" where
  "WaitableTimer_create ops w = CreateWaitableTimer ops w"

definition WaitableTimer_destroy :: "'o std_ops \<Rightarrow> nat option \<Rightarrow> 'o \<Rightarrow> 'o" where
  "WaitableTimer_destroy ops timer w = (case timer of None \<Rightarrow> w | Some h \<Rightarrow> CloseTimer ops h w)"

text \<open>Relative and negative, in units of 100 ns, one unit late.\<close>

definition dueTime :: "time \<Rightarrow> int" where
  "dueTime remaining = trunc_div (- remaining) 100 - 1"

fun timer_loop :: "nat \<Rightarrow> 'o std_ops \<Rightarrow> nat \<Rightarrow> time \<Rightarrow> 'o \<Rightarrow> (bool \<times> 'o) option" where
  "timer_loop 0 ops h timePoint w = None"
| "timer_loop (Suc fuel) ops h timePoint w =
     (let (now, w) = steady_now ops w;
          remaining = timePoint - now
      in if remaining \<le> 0 then Some (True, w)
         else let (armed, w) = SetWaitableTimer ops h (dueTime remaining) w
              in if \<not> armed then Some (False, w)
                 else let (signaled, w) = WaitForTimer ops h w
                      in if \<not> signaled then Some (False, w) else timer_loop fuel ops h timePoint w)"

definition WaitableTimer_sleepUntil ::
  "nat \<Rightarrow> 'o std_ops \<Rightarrow> nat option \<Rightarrow> time \<Rightarrow> 'o \<Rightarrow> (bool \<times> 'o) option" where
  "WaitableTimer_sleepUntil fuel ops timer timePoint w =
     (case timer of None \<Rightarrow> Some (False, w) | Some h \<Rightarrow> timer_loop fuel ops h timePoint w)"

section \<open>Sleeping\<close>

fun std_sleep_loop :: "nat \<Rightarrow> 'o std_ops \<Rightarrow> time \<Rightarrow> 'o \<Rightarrow> 'o option" where
  "std_sleep_loop 0 ops timePoint w = None"
| "std_sleep_loop (Suc fuel) ops timePoint w =
     (let (now, w) = steady_now ops w;
          remaining = timePoint - now
      in if remaining > 0 then std_sleep_loop fuel ops timePoint (sleep_for ops remaining w) else Some w)"

text \<open>\<open>windows\<close> is the preprocessor's choice, \<open>timer\<close> the timer of the calling thread.\<close>

definition std_sleepUntil :: "nat \<Rightarrow> bool \<Rightarrow> 'o std_ops \<Rightarrow> nat option \<Rightarrow> time \<Rightarrow> 'o \<Rightarrow> 'o option" where
  "std_sleepUntil fuel windows ops timer timePoint w =
     (if windows
      then case WaitableTimer_sleepUntil fuel ops timer timePoint w of
             None \<Rightarrow> None
           | Some (done, w) \<Rightarrow> if done then Some w else std_sleep_loop fuel ops timePoint w
      else std_sleep_loop fuel ops timePoint w)"

definition std_sleepFor :: "nat \<Rightarrow> bool \<Rightarrow> 'o std_ops \<Rightarrow> nat option \<Rightarrow> millis \<Rightarrow> 'o \<Rightarrow> 'o option" where
  "std_sleepFor fuel windows ops timer duration w =
     (let (now, w) = steady_now ops w
      in std_sleepUntil fuel windows ops timer (now + ns_of_ms duration) w)"

section \<open>Mutex, condition variable, thread\<close>

definition StdMutex_lock :: "'o std_ops \<Rightarrow> nat \<Rightarrow> 'o \<Rightarrow> 'o" where
  "StdMutex_lock ops m w = std_lock ops m w"

definition StdMutex_unlock :: "'o std_ops \<Rightarrow> nat \<Rightarrow> 'o \<Rightarrow> 'o" where
  "StdMutex_unlock ops m w = std_unlock ops m w"

text \<open>
  \<open>cond_wait_until\<close> unlocks the mutex, waits and locks it again; it may come back at any time.
\<close>

fun cond_loop :: "nat \<Rightarrow> 'o std_ops \<Rightarrow> nat \<Rightarrow> nat \<Rightarrow> u64 \<Rightarrow> time \<Rightarrow> 'o \<Rightarrow> 'o option" where
  "cond_loop 0 ops cv m generation timePoint w = None"
| "cond_loop (Suc fuel) ops cv m generation timePoint w =
     (let (current, w) = generation_load ops cv w
      in if current \<noteq> generation then Some w
         else let (now, w) = steady_now ops w
              in if \<not> now < timePoint then Some w
                 else cond_loop fuel ops cv m generation timePoint (cond_wait_until ops cv m timePoint w))"

definition StdConditionVariable_waitUntil ::
  "nat \<Rightarrow> 'o std_ops \<Rightarrow> nat \<Rightarrow> nat \<Rightarrow> time \<Rightarrow> 'o \<Rightarrow> 'o option" where
  "StdConditionVariable_waitUntil fuel ops cv m timePoint w =
     (let (generation, w) = generation_load ops cv w
      in cond_loop fuel ops cv m generation timePoint w)"

definition StdConditionVariable_notifyAll :: "'o std_ops \<Rightarrow> nat \<Rightarrow> 'o \<Rightarrow> 'o" where
  "StdConditionVariable_notifyAll ops cv w = cond_notify_all ops cv (generation_increment ops cv w)"

definition StdThread_join :: "'o std_ops \<Rightarrow> nat \<Rightarrow> 'o \<Rightarrow> 'o" where
  "StdThread_join ops t w = (if thread_joinable ops t w then thread_join ops t w else w)"

definition StdThread_destroy :: "'o std_ops \<Rightarrow> nat \<Rightarrow> 'o \<Rightarrow> 'o" where
  "StdThread_destroy ops t w = StdThread_join ops t w"

section \<open>What the loops give\<close>

text \<open>Time never goes back; a sleep or a wait that is entered takes some.\<close>

definition std_contract :: "'o std_ops \<Rightarrow> ('o \<Rightarrow> time) \<Rightarrow> bool" where
  "std_contract ops clk \<longleftrightarrow>
     (\<forall>w. clk w \<le> fst (steady_now ops w) \<and> fst (steady_now ops w) \<le> clk (snd (steady_now ops w)))
   \<and> (\<forall>d w. 0 < d \<longrightarrow> clk w < clk (sleep_for ops d w))
   \<and> (\<forall>h due w. clk w \<le> clk (snd (SetWaitableTimer ops h due w)))
   \<and> (\<forall>h w. clk w < clk (snd (WaitForTimer ops h w)))
   \<and> (\<forall>cv w. clk w \<le> clk (snd (generation_load ops cv w)))
   \<and> (\<forall>cv m t w. clk w < clk (cond_wait_until ops cv m t w))"

lemma std_now: "std_contract ops clk \<Longrightarrow> steady_now ops w = (t, w') \<Longrightarrow> clk w \<le> t \<and> t \<le> clk w'"
  unfolding std_contract_def by (metis fst_conv snd_conv)
lemma std_sleep: "std_contract ops clk \<Longrightarrow> 0 < d \<Longrightarrow> clk w < clk (sleep_for ops d w)"
  unfolding std_contract_def by blast
lemma std_arm: "std_contract ops clk \<Longrightarrow> SetWaitableTimer ops h due w = (a, w') \<Longrightarrow> clk w \<le> clk w'"
  unfolding std_contract_def by (metis snd_conv)
lemma std_timer: "std_contract ops clk \<Longrightarrow> WaitForTimer ops h w = (a, w') \<Longrightarrow> clk w < clk w'"
  unfolding std_contract_def by (metis snd_conv)
lemma std_generation: "std_contract ops clk \<Longrightarrow> generation_load ops cv w = (g, w') \<Longrightarrow> clk w \<le> clk w'"
  unfolding std_contract_def by (metis snd_conv)
lemma std_wait: "std_contract ops clk \<Longrightarrow> clk w < clk (cond_wait_until ops cv m t w)"
  unfolding std_contract_def by blast

lemma closer:
  "nat (d - a) < Suc n \<Longrightarrow> a < d \<Longrightarrow> a < b \<Longrightarrow> nat (d - b) < n" for a b d :: int
  by linarith

lemma std_sleep_loop_ends:
  assumes c: "std_contract ops clk"
  shows "nat (timePoint - clk w) < fuel \<Longrightarrow>
    \<exists>w'. std_sleep_loop fuel ops timePoint w = Some w' \<and> clk w \<le> clk w' \<and> timePoint \<le> clk w'"
proof (induction fuel arbitrary: w)
  case (Suc fuel)
  obtain now w1 where n: "steady_now ops w = (now, w1)" by (cases "steady_now ops w")
  note now = std_now [OF c n]
  show ?case
  proof (cases "timePoint - now > 0")
    case True
    let ?w2 = "sleep_for ops (timePoint - now) w1"
    have later: "clk w1 < clk ?w2" by (rule std_sleep [OF c True])
    then have "nat (timePoint - clk ?w2) < fuel" using closer [OF Suc.prems] True now by simp
    from Suc.IH [OF this] show ?thesis using True n now later by force
  next
    case False
    then show ?thesis using n now by simp
  qed
qed simp

lemma timer_loop_ends:
  assumes c: "std_contract ops clk"
  shows "nat (timePoint - clk w) < fuel \<Longrightarrow>
    \<exists>d w'. timer_loop fuel ops h timePoint w = Some (d, w') \<and> clk w \<le> clk w' \<and> (d \<longrightarrow> timePoint \<le> clk w')"
proof (induction fuel arbitrary: w)
  case (Suc fuel)
  obtain now w1 where n: "steady_now ops w = (now, w1)" by (cases "steady_now ops w")
  obtain armed w2 where a: "SetWaitableTimer ops h (dueTime (timePoint - now)) w1 = (armed, w2)"
    by (cases "SetWaitableTimer ops h (dueTime (timePoint - now)) w1")
  obtain signaled w3 where s: "WaitForTimer ops h w2 = (signaled, w3)" by (cases "WaitForTimer ops h w2")
  note steps = std_now [OF c n] std_arm [OF c a] std_timer [OF c s]
  show ?case
  proof (cases "timePoint - now \<le> 0 \<or> \<not> armed \<or> \<not> signaled")
    case True
    then show ?thesis using n a s steps by auto
  next
    case False
    then have "nat (timePoint - clk w3) < fuel" using closer [OF Suc.prems] steps by simp
    from Suc.IH [OF this] show ?thesis using False n a s steps by force
  qed
qed simp

lemma cond_loop_ends:
  assumes c: "std_contract ops clk"
  shows "nat (timePoint - clk w) < fuel \<Longrightarrow> \<exists>w'. cond_loop fuel ops cv m generation timePoint w = Some w'"
proof (induction fuel arbitrary: w)
  case (Suc fuel)
  obtain g w1 where g: "generation_load ops cv w = (g, w1)" by (cases "generation_load ops cv w")
  obtain now w2 where n: "steady_now ops w1 = (now, w2)" by (cases "steady_now ops w1")
  let ?w3 = "cond_wait_until ops cv m timePoint w2"
  note steps = std_generation [OF c g] std_now [OF c n] std_wait [OF c, of w2 cv m timePoint]
  show ?case
  proof (cases "g \<noteq> generation \<or> \<not> now < timePoint")
    case True
    then show ?thesis using g n by auto
  next
    case False
    then have "nat (timePoint - clk ?w3) < fuel" using closer [OF Suc.prems] steps by simp
    from Suc.IH [OF this] show ?thesis using False g n by simp
  qed
qed simp

text \<open>A wait ends for one of two reasons only, which the last reads before its end show.\<close>

lemma cond_loop_reason:
  assumes c: "std_contract ops clk"
  shows "cond_loop fuel ops cv m generation timePoint w = Some w' \<Longrightarrow>
    (\<exists>u g. generation_load ops cv u = (g, w') \<and> g \<noteq> generation) \<or> timePoint \<le> clk w'"
proof (induction fuel arbitrary: w)
  case (Suc fuel)
  obtain g w1 where g: "generation_load ops cv w = (g, w1)" by (cases "generation_load ops cv w")
  obtain now w2 where n: "steady_now ops w1 = (now, w2)" by (cases "steady_now ops w1")
  show ?case using Suc g n std_now [OF c n] by (auto split: if_splits)
qed simp


text \<open>The sleeps of the platform end, at or after the time point, and never move the clock back.\<close>

lemma std_sleepUntil_ends:
  assumes c: "std_contract ops clk" and f: "nat (timePoint - clk w) < fuel"
  shows "\<exists>w'. std_sleepUntil fuel windows ops timer timePoint w = Some w' \<and> clk w \<le> clk w' \<and> timePoint \<le> clk w'"
proof -
  note plain = std_sleep_loop_ends [OF assms]
  show ?thesis
  proof (cases "windows \<and> timer \<noteq> None")
    case False
    then show ?thesis
      using plain by (auto simp: std_sleepUntil_def WaitableTimer_sleepUntil_def)
  next
    case True
    then obtain h where h: "timer = Some h" by blast
    from timer_loop_ends [OF assms] obtain d w' where
      t: "timer_loop fuel ops h timePoint w = Some (d, w')" "clk w \<le> clk w'" "d \<longrightarrow> timePoint \<le> clk w'" by blast
    have "nat (timePoint - clk w') < fuel" using t(2) f by linarith
    from std_sleep_loop_ends [OF c this] t True h show ?thesis
      by (auto simp: std_sleepUntil_def WaitableTimer_sleepUntil_def)
  qed
qed

text \<open>\<open>ops\<close> and \<open>clk\<close> keep the contract whatever the state; the longest sleep is what the fuel covers.\<close>

definition std_good :: "'o std_ops \<Rightarrow> ('o \<Rightarrow> time) \<Rightarrow> nat \<Rightarrow> 'o \<Rightarrow> bool" where
  "std_good ops clk fuel w \<longleftrightarrow> std_contract ops clk \<and> 0 < fuel"

interpretation std: sleeping_platform clk "steady_now ops" "std_sleepUntil fuel windows ops timer"
  "std_sleepFor fuel windows ops timer" "std_good ops clk fuel" "int fuel - 1" 0
  for clk ops fuel windows timer
proof
  show reads: "std_good ops clk fuel w \<Longrightarrow> steady_now ops w = (t, w') \<Longrightarrow>
      std_good ops clk fuel w' \<and> clk w \<le> t \<and> t \<le> clk w'" for w t w'
    using std_now [of ops clk w t w'] by (auto simp: std_good_def)
  show sleeps: "std_good ops clk fuel w \<Longrightarrow> timePoint - clk w \<le> int fuel - 1 \<Longrightarrow>
      \<exists>w'. std_sleepUntil fuel windows ops timer timePoint w = Some w' \<and> std_good ops clk fuel w'
        \<and> clk w \<le> clk w' \<and> timePoint - 0 \<le> clk w'" for w timePoint
    using std_sleepUntil_ends [of ops clk timePoint w fuel windows timer] by (auto simp: std_good_def)
  show "\<exists>w'. std_sleepFor fuel windows ops timer d w = Some w' \<and> std_good ops clk fuel w'
      \<and> clk w \<le> clk w' \<and> clk w + ns_of_ms d - 0 \<le> clk w'"
    if "std_good ops clk fuel w" "ns_of_ms d \<le> int fuel - 1" for w d
  proof -
    obtain t w1 where n: "steady_now ops w = (t, w1)" by (cases "steady_now ops w")
    note r = reads [OF that(1) n]
    have "t + ns_of_ms d - clk w1 \<le> int fuel - 1" using r that(2) by linarith
    from sleeps [OF conjunct1 [OF r] this] r n show ?thesis by (force simp: std_sleepFor_def)
  qed
qed

section \<open>Properties\<close>

text \<open>C29: \<open>StdPlatform::sleepUntil\<close> ends and never wakes its caller early: it returns at or after the
  time point, on Windows or not, with a timer that ends early, fails or is missing, as long as every
  sleep takes some time.
\<close>

theorem sleepUntil_not_early:
  assumes "std_contract ops clk" "nat (timePoint - clk w) < fuel"
  shows "\<exists>w'. std_sleepUntil fuel windows ops timer timePoint w = Some w' \<and> timePoint \<le> clk w'"
  using std_sleepUntil_ends [OF assms] by blast

text \<open>A clock that every call moves by what it should, and a timer that wakes one unit early.\<close>

definition clock_ops :: "time std_ops" where
  "clock_ops =
     \<lparr>steady_now = (\<lambda>w. (w, w)), sleep_for = (\<lambda>d w. w + d), CreateWaitableTimer = (\<lambda>w. (Some 1, w)),
      SetWaitableTimer = (\<lambda>h due w. (True, w)), WaitForTimer = (\<lambda>h w. (w mod 2 = 0, w + 100)), CloseTimer = (\<lambda>h w. w),
      std_lock = (\<lambda>m w. w), std_unlock = (\<lambda>m w. w), generation_load = (\<lambda>cv w. (0, w)),
      generation_increment = (\<lambda>cv w. w), cond_wait_until = (\<lambda>cv m t w. max t (w + 1)), cond_notify_all = (\<lambda>cv w. w),
      thread_joinable = (\<lambda>t w. True), thread_join = (\<lambda>t w. w)\<rparr>"

lemma clock_ops_contract: "std_contract clock_ops (\<lambda>w. w)"
  by (simp add: std_contract_def clock_ops_def less_max_iff_disj)

lemma sleepUntil_not_early_witness:
  "\<exists>w'. std_sleepUntil 2000 True clock_ops (Some 1) 1000 3 = Some w' \<and> 1000 \<le> w'"
  by (rule sleepUntil_not_early [OF clock_ops_contract]) simp

lemma waitUntil_reason:
  assumes "std_contract ops clk" "nat (timePoint - clk w) < fuel" "generation_load ops cv w = (generation, w1)"
  shows "\<exists>w'. StdConditionVariable_waitUntil fuel ops cv m timePoint w = Some w'
    \<and> ((\<exists>u g. generation_load ops cv u = (g, w') \<and> g \<noteq> generation) \<or> timePoint \<le> clk w')"
proof -
  have "nat (timePoint - clk w1) < fuel" using std_generation [OF assms(1,3)] assms(2) by linarith
  from cond_loop_ends [OF assms(1) this] obtain w' where
    "cond_loop fuel ops cv m generation timePoint w1 = Some w'" by blast
  with cond_loop_reason [OF assms(1) this] assms(3) show ?thesis
    by (auto simp: StdConditionVariable_waitUntil_def)
qed

end
