(* ===== verification/Units.thy ===== *)
theory Units
  imports Complex_Main RegisterMap
begin

text \<open>
  \<open>src/units.cpp\<close> with the profiles of \<open>Robotiq/gripper/device_profile.hpp\<close>, and the exchange
  frequency of \<open>src/frequency.hpp\<close> and \<open>src/exchange_period.hpp\<close>. A \<open>double\<close> is a rational number,
  an infinity or NaN; how the machine rounds the exact result of an operation is the parameter \<open>rnd\<close>,
  and \<open>ieee rnd\<close> what the theorems use of it. The sign of a zero is not kept.
\<close>

section \<open>Doubles\<close>

datatype double = Fin rat | Infinite bool | NaN

text \<open>\<open>Infinite True\<close> is the positive infinity.\<close>

definition isfinite :: "double \<Rightarrow> bool" where
  "isfinite a = (case a of Fin x \<Rightarrow> True | _ \<Rightarrow> False)"

fun dlt :: "double \<Rightarrow> double \<Rightarrow> bool" where
  "dlt (Fin x) (Fin y) = (x < y)"
| "dlt (Fin x) (Infinite s) = s"
| "dlt (Infinite s) (Fin y) = (\<not> s)"
| "dlt (Infinite s) (Infinite t) = (\<not> s \<and> t)"
| "dlt a b = False"

definition dle :: "double \<Rightarrow> double \<Rightarrow> bool" where
  "dle a b = (dlt a b \<or> (a = b \<and> a \<noteq> NaN))"

fun dsub :: "(rat \<Rightarrow> double) \<Rightarrow> double \<Rightarrow> double \<Rightarrow> double" where
  "dsub rnd (Fin x) (Fin y) = rnd (x - y)"
| "dsub rnd (Fin x) (Infinite t) = Infinite (\<not> t)"
| "dsub rnd (Infinite s) (Fin y) = Infinite s"
| "dsub rnd (Infinite s) (Infinite t) = (if s = t then NaN else Infinite s)"
| "dsub rnd a b = NaN"

fun dadd :: "(rat \<Rightarrow> double) \<Rightarrow> double \<Rightarrow> double \<Rightarrow> double" where
  "dadd rnd (Fin x) (Fin y) = rnd (x + y)"
| "dadd rnd (Fin x) (Infinite t) = Infinite t"
| "dadd rnd (Infinite s) (Fin y) = Infinite s"
| "dadd rnd (Infinite s) (Infinite t) = (if s = t then Infinite s else NaN)"
| "dadd rnd a b = NaN"

fun dmul :: "(rat \<Rightarrow> double) \<Rightarrow> double \<Rightarrow> double \<Rightarrow> double" where
  "dmul rnd (Fin x) (Fin y) = rnd (x * y)"
| "dmul rnd (Fin x) (Infinite t) = (if x = 0 then NaN else Infinite ((0 < x) = t))"
| "dmul rnd (Infinite s) (Fin y) = (if y = 0 then NaN else Infinite (s = (0 < y)))"
| "dmul rnd (Infinite s) (Infinite t) = Infinite (s = t)"
| "dmul rnd a b = NaN"

fun ddiv :: "(rat \<Rightarrow> double) \<Rightarrow> double \<Rightarrow> double \<Rightarrow> double" where
  "ddiv rnd (Fin x) (Fin y) = (if y = 0 then (if x = 0 then NaN else Infinite (0 < x)) else rnd (x / y))"
| "ddiv rnd (Fin x) (Infinite t) = Fin 0"
| "ddiv rnd (Infinite s) (Fin y) = Infinite (s = (0 \<le> y))"
| "ddiv rnd (Infinite s) (Infinite t) = NaN"
| "ddiv rnd a b = NaN"

definition clamp :: "double \<Rightarrow> double \<Rightarrow> double \<Rightarrow> double" where
  "clamp v lo hi = (if dlt v lo then lo else if dlt hi v then hi else v)"

text \<open>\<open>std::lround\<close>: halves away from zero. Outside the finite its value is unspecified: \<open>None\<close>.\<close>

definition lround :: "double \<Rightarrow> int option" where
  "lround a = (case a of
     Fin x \<Rightarrow> Some (if 0 \<le> x then \<lfloor>x + 1 / 2\<rfloor> else - \<lfloor>1 / 2 - x\<rfloor>)
   | _ \<Rightarrow> None)"

section \<open>Profiles\<close>

record DeviceProfile =
  minSpeed :: double
  maxSpeed :: double
  minOpening :: double
  maxOpening :: double
  openPosition :: u8
  closedPosition :: u8

definition of_u8 :: "u8 \<Rightarrow> double" where
  "of_u8 v = Fin (of_nat (unat v))"

definition registerPositionRange :: "(rat \<Rightarrow> double) \<Rightarrow> DeviceProfile \<Rightarrow> double" where
  "registerPositionRange rnd p = dsub rnd (of_u8 (closedPosition p)) (of_u8 (openPosition p))"

definition openingRange :: "(rat \<Rightarrow> double) \<Rightarrow> DeviceProfile \<Rightarrow> double" where
  "openingRange rnd p = dsub rnd (maxOpening p) (minOpening p)"

text \<open>The literals of the profiles are rounded too.\<close>

definition k2F85 :: "(rat \<Rightarrow> double) \<Rightarrow> DeviceProfile" where
  "k2F85 rnd = \<lparr>minSpeed = rnd (20 / 1000), maxSpeed = rnd (150 / 1000), minOpening = Fin 0,
     maxOpening = rnd (85 / 1000), openPosition = 3, closedPosition = 230\<rparr>"

definition k2F140 :: "(rat \<Rightarrow> double) \<Rightarrow> DeviceProfile" where
  "k2F140 rnd = \<lparr>minSpeed = rnd (30 / 1000), maxSpeed = rnd (250 / 1000), minOpening = Fin 0,
     maxOpening = rnd (140 / 1000), openPosition = 3, closedPosition = 230\<rparr>"

definition kHandE :: "(rat \<Rightarrow> double) \<Rightarrow> DeviceProfile" where
  "kHandE rnd = \<lparr>minSpeed = rnd (20 / 1000), maxSpeed = rnd (150 / 1000), minOpening = Fin 0,
     maxOpening = rnd (50 / 1000), openPosition = 3, closedPosition = 250\<rparr>"

definition kHandEC10 :: "(rat \<Rightarrow> double) \<Rightarrow> DeviceProfile" where
  "kHandEC10 rnd = \<lparr>minSpeed = rnd (14 / 1000), maxSpeed = rnd (107 / 1000), minOpening = Fin 0,
     maxOpening = rnd (40 / 1000), openPosition = 3, closedPosition = 250\<rparr>"

section \<open>Conversions\<close>

text \<open>\<open>Unspecified\<close>: the register of a value \<open>lround\<close> does not define.\<close>

datatype register_value = Nullopt | Register u8 | Unspecified

definition roundedRegister :: "double \<Rightarrow> register_value" where
  "roundedRegister steps = (case lround steps of None \<Rightarrow> Unspecified | Some n \<Rightarrow> Register (word_of_int n))"

definition registerFromSpan :: "(rat \<Rightarrow> double) \<Rightarrow> double \<Rightarrow> double \<Rightarrow> double \<Rightarrow> register_value" where
  "registerFromSpan rnd v minimum maximum =
     (if \<not> isfinite v \<or> dlt v (Fin 0) \<or> \<not> isfinite minimum \<or> \<not> isfinite maximum \<or> dle maximum minimum
      then Nullopt
      else let fraction = clamp (ddiv rnd (dsub rnd v minimum) (dsub rnd maximum minimum)) (Fin 0) (Fin 1)
           in roundedRegister (dmul rnd fraction (Fin 255)))"

definition speedToRegister :: "(rat \<Rightarrow> double) \<Rightarrow> double \<Rightarrow> DeviceProfile \<Rightarrow> register_value" where
  "speedToRegister rnd v p = registerFromSpan rnd v (minSpeed p) (maxSpeed p)"

text \<open>\<open>render\<close> is \<open>std::to_string\<close> of a double. The warning goes to the log.\<close>

definition normalizedToRegister ::
  "(rat \<Rightarrow> double) \<Rightarrow> (double \<Rightarrow> string) \<Rightarrow> double \<Rightarrow> register_value \<times> log_line list" where
  "normalizedToRegister rnd render v =
     (if \<not> isfinite v then (Nullopt, [])
      else let clamped = clamp v (Fin 0) (Fin 1);
               warning = (if clamped \<noteq> v
                          then [(Warn, ''normalized position '' @ render v @ '' is outside [0, 1]; clamped to '' @ render clamped)]
                          else [])
           in (roundedRegister (dmul rnd clamped (Fin 255)), warning))"

definition normalizedFromRegister :: "(rat \<Rightarrow> double) \<Rightarrow> u8 \<Rightarrow> double" where
  "normalizedFromRegister rnd v = ddiv rnd (of_u8 v) (Fin 255)"

definition openingToRegister :: "(rat \<Rightarrow> double) \<Rightarrow> double \<Rightarrow> DeviceProfile \<Rightarrow> register_value" where
  "openingToRegister rnd opening p =
     (let span = openingRange rnd p
      in if \<not> isfinite opening \<or> \<not> isfinite span \<or> dle span (Fin 0) \<or> dle (registerPositionRange rnd p) (Fin 0)
         then Nullopt
         else let openFraction = clamp (ddiv rnd (dsub rnd opening (minOpening p)) span) (Fin 0) (Fin 1)
              in roundedRegister (dadd rnd (of_u8 (openPosition p))
                   (dmul rnd (dsub rnd (Fin 1) openFraction) (registerPositionRange rnd p))))"

definition openingFromRegister :: "(rat \<Rightarrow> double) \<Rightarrow> u8 \<Rightarrow> DeviceProfile \<Rightarrow> double option" where
  "openingFromRegister rnd v p =
     (let band = registerPositionRange rnd p;
          span = openingRange rnd p
      in if dle band (Fin 0) \<or> \<not> isfinite span \<or> dle span (Fin 0) then None
         else let closedFraction = clamp (ddiv rnd (dsub rnd (of_u8 v) (of_u8 (openPosition p))) band) (Fin 0) (Fin 1)
              in Some (dadd rnd (minOpening p) (dmul rnd (dsub rnd (Fin 1) closedFraction) span)))"

definition effortToRegister :: "(rat \<Rightarrow> double) \<Rightarrow> double \<Rightarrow> register_value" where
  "effortToRegister rnd effort = registerFromSpan rnd effort (Fin 0) (Fin 1)"

section \<open>Exchange frequency\<close>

definition kMinFrequency :: "(rat \<Rightarrow> double) \<Rightarrow> double" where "kMinFrequency rnd = rnd (1 / 10)"
definition kMaxFrequency :: double where "kMaxFrequency = Fin 1000"

definition clampFrequency :: "(rat \<Rightarrow> double) \<Rightarrow> (double \<Rightarrow> string) \<Rightarrow> double \<Rightarrow> exc + double" where
  "clampFrequency rnd render hz =
     (if hz = NaN \<or> dlt hz (Fin 0)
      then Inl (DriverException (''exchange frequency must be a non-negative number of hertz; got '' @ render hz))
      else if hz = Fin 0 then Inr (Fin 0)
      else Inr (clamp hz (kMinFrequency rnd) kMaxFrequency))"

text \<open>The period in microseconds; \<open>None\<close> where \<open>std::llround\<close> does not define it.\<close>

definition exchangePeriodFromFrequency ::
  "(rat \<Rightarrow> double) \<Rightarrow> (double \<Rightarrow> string) \<Rightarrow> double \<Rightarrow> exc + int option" where
  "exchangePeriodFromFrequency rnd render hz =
     (case clampFrequency rnd render hz of
        Inl e \<Rightarrow> Inl e
      | Inr supported \<Rightarrow>
          if supported = Fin 0 then Inr (Some 0)
          else Inr (lround (ddiv rnd (Fin 1000000) supported)))"

end
