(* ===== verification/UnitsProperties.thy ===== *)
theory UnitsProperties
  imports Units
begin

text \<open>
  Properties of the unit conversions and of the exchange period, for any rounding that is monotone,
  exact on the integers a double holds and relatively exact in the range of ordinary numbers.
\<close>

definition ieee :: "(rat \<Rightarrow> double) \<Rightarrow> bool" where
  "ieee rnd \<longleftrightarrow>
     (\<forall>x y. x \<le> y \<longrightarrow> dle (rnd x) (rnd y))
   \<and> (\<forall>n :: int. \<bar>n\<bar> \<le> 2 ^ 53 \<longrightarrow> rnd (of_int n) = Fin (of_int n))
   \<and> (\<forall>x. 1 / 10 ^ 9 \<le> \<bar>x\<bar> \<longrightarrow> \<bar>x\<bar> \<le> 10 ^ 9 \<longrightarrow> (\<exists>y. rnd x = Fin y \<and> \<bar>y - x\<bar> \<le> \<bar>x\<bar> / 2 ^ 53))"

lemma ieee_mono: "ieee rnd \<Longrightarrow> x \<le> y \<Longrightarrow> dle (rnd x) (rnd y)"
  by (simp add: ieee_def)
lemma ieee_int: "ieee rnd \<Longrightarrow> \<bar>n\<bar> \<le> 2 ^ 53 \<Longrightarrow> rnd (of_int n) = Fin (of_int n)"
  by (simp add: ieee_def)
lemma ieee_close: "ieee rnd \<Longrightarrow> 1 / 10 ^ 9 \<le> \<bar>x\<bar> \<Longrightarrow> \<bar>x\<bar> \<le> 10 ^ 9 \<Longrightarrow> \<exists>y. rnd x = Fin y \<and> \<bar>y - x\<bar> \<le> \<bar>x\<bar> / 2 ^ 53"
  unfolding ieee_def by blast

lemma ieee_exact: "ieee Fin"
  by (auto simp: ieee_def dle_def)

section \<open>The order of doubles\<close>

lemma dle_Fin [simp]: "dle (Fin x) (Fin y) \<longleftrightarrow> x \<le> y"
  by (auto simp: dle_def)

lemma dle_simps [simp]:
  "dle (Fin x) (Infinite s) \<longleftrightarrow> s" "dle (Infinite s) (Fin y) \<longleftrightarrow> \<not> s" "dle (Infinite s) (Infinite t) \<longleftrightarrow> (s \<longrightarrow> t)"
  "\<not> dle NaN a" "\<not> dle a NaN"
  by (auto simp: dle_def)

lemma dle_ends [simp]: "dle a (Infinite True) \<longleftrightarrow> a \<noteq> NaN" "dle (Infinite False) a \<longleftrightarrow> a \<noteq> NaN"
  by (cases a; simp)+

lemma ieee_between:
  assumes "ieee rnd" "of_int a \<le> x" "x \<le> of_int b" "\<bar>a\<bar> \<le> 2 ^ 53" "\<bar>b\<bar> \<le> 2 ^ 53"
  shows "\<exists>y. rnd x = Fin y \<and> of_int a \<le> y \<and> y \<le> of_int b"
  using ieee_mono [OF assms(1,2)] ieee_mono [OF assms(1,3)] ieee_int [OF assms(1,4)] ieee_int [OF assms(1,5)]
  by (cases "rnd x") auto

lemma ieee_mono_Fin:
  "ieee rnd \<Longrightarrow> x \<le> y \<Longrightarrow> rnd x = Fin x' \<Longrightarrow> rnd y = Fin y' \<Longrightarrow> x' \<le> y'"
  using ieee_mono [of rnd x y] by simp

lemma clamp_unit:
  assumes "a \<noteq> NaN"
  shows "\<exists>q. clamp a (Fin 0) (Fin 1) = Fin q \<and> 0 \<le> q \<and> q \<le> 1"
  using assms by (cases a) (auto simp: clamp_def)

lemma clamp_mono:
  assumes "dle a b" "clamp a (Fin 0) (Fin 1) = Fin p" "clamp b (Fin 0) (Fin 1) = Fin q"
  shows "p \<le> q"
  using assms by (cases a; cases b) (auto simp: clamp_def split: if_splits)

lemma ieee_not_NaN: "ieee rnd \<Longrightarrow> rnd x \<noteq> NaN"
  using ieee_mono [of rnd x x] by auto

lemma dsub_mono:
  "ieee rnd \<Longrightarrow> x \<le> y \<Longrightarrow> dle (dsub rnd (Fin x) (Fin m)) (dsub rnd (Fin y) (Fin m))"
  by (simp add: ieee_mono)

lemma ddiv_mono:
  assumes "ieee rnd" "dle a b" "0 < s"
  shows "dle (ddiv rnd a (Fin s)) (ddiv rnd b (Fin s))"
  using assms(2)
proof (cases a; cases b)
  fix x y assume "a = Fin x" "b = Fin y"
  then show ?thesis using assms by (simp add: ieee_mono divide_right_mono)
qed (use assms ieee_not_NaN in auto)

section \<open>Openings\<close>

text \<open>The steps of \<open>openingToRegister\<close>, each of them monotone and within its bounds.\<close>

definition fraction_of :: "(rat \<Rightarrow> double) \<Rightarrow> double \<Rightarrow> double \<Rightarrow> double \<Rightarrow> double" where
  "fraction_of rnd v low width = clamp (ddiv rnd (dsub rnd v low) width) (Fin 0) (Fin 1)"

lemma fraction_of_unit:
  assumes "ieee rnd" "0 < s"
  shows "\<exists>q. fraction_of rnd (Fin v) (Fin low) (Fin s) = Fin q \<and> 0 \<le> q \<and> q \<le> 1"
  unfolding fraction_of_def
proof (rule clamp_unit)
  show "ddiv rnd (dsub rnd (Fin v) (Fin low)) (Fin s) \<noteq> NaN"
    using assms ieee_not_NaN [OF assms(1)] by (cases "rnd (v - low)") auto
qed

lemma fraction_of_mono:
  assumes "ieee rnd" "0 < s" "v \<le> v'"
    "fraction_of rnd (Fin v) (Fin low) (Fin s) = Fin q" "fraction_of rnd (Fin v') (Fin low) (Fin s) = Fin q'"
  shows "q \<le> q'"
  using clamp_mono [OF ddiv_mono [OF assms(1) dsub_mono [OF assms(1,3)] assms(2)]] assms(4,5)
  by (simp add: fraction_of_def)

definition step_of :: "(rat \<Rightarrow> double) \<Rightarrow> int \<Rightarrow> int \<Rightarrow> rat \<Rightarrow> double" where
  "step_of rnd low band q = dadd rnd (Fin (of_int low)) (dmul rnd (dsub rnd (Fin 1) (Fin q)) (Fin (of_int band)))"

lemma step_of_bounds:
  assumes r: "ieee rnd" and q: "0 \<le> q" "q \<le> 1" and l: "0 \<le> low" "0 \<le> band" "low + band \<le> 255"
  shows "\<exists>u m t. rnd (1 - q) = Fin u \<and> 0 \<le> u \<and> u \<le> 1 \<and> rnd (u * of_int band) = Fin m \<and> rnd (of_int low + m) = Fin t
     \<and> step_of rnd low band q = Fin t \<and> of_int low \<le> t \<and> t \<le> of_int (low + band)"
proof -
  obtain u where u: "rnd (1 - q) = Fin u" "0 \<le> u" "u \<le> 1"
    using ieee_between [OF r, of 0 "1 - q" 1] q by auto
  have "0 \<le> u * of_int band" "u * of_int band \<le> of_int band"
    using u l by (simp_all add: mult_left_le_one_le)
  then obtain m where m: "rnd (u * of_int band) = Fin m" "0 \<le> m" "m \<le> of_int band"
    using ieee_between [OF r, of 0 "u * of_int band" band] l by auto
  obtain t where "rnd (of_int low + m) = Fin t" "of_int low \<le> t" "t \<le> of_int (low + band)"
    using ieee_between [OF r, of low "of_int low + m" "low + band"] m l by auto
  with u m show ?thesis by (auto simp: step_of_def)
qed

lemma step_of_antimono:
  assumes "ieee rnd" "0 \<le> q" "q \<le> q'" "q' \<le> 1" "0 \<le> low" "0 \<le> band" "low + band \<le> 255"
    "step_of rnd low band q = Fin t" "step_of rnd low band q' = Fin t'"
  shows "t' \<le> t"
proof -
  from step_of_bounds [OF assms(1,2) _ assms(5,6,7)] assms(3,4) obtain u m where
    1: "rnd (1 - q) = Fin u" "rnd (u * of_int band) = Fin m" "rnd (of_int low + m) = Fin t"
    using assms(8) by fastforce
  from step_of_bounds [OF assms(1) _ assms(4,5,6,7)] assms(2,3) obtain u' m' where
    2: "rnd (1 - q') = Fin u'" "rnd (u' * of_int band) = Fin m'" "rnd (of_int low + m') = Fin t'"
    using assms(9) by fastforce
  have "u' \<le> u" by (rule ieee_mono_Fin [OF assms(1) _ 2(1) 1(1)]) (use assms(3) in simp)
  then have "u' * of_int band \<le> u * of_int band" using assms(6) by (simp add: mult_right_mono)
  then have "m' \<le> m" by (rule ieee_mono_Fin [OF assms(1) _ 2(2) 1(2)])
  then show ?thesis by (intro ieee_mono_Fin [OF assms(1) _ 2(3) 1(3)]) simp
qed

lemma lround_bounds:
  assumes "of_int a \<le> t" "t \<le> of_int b" "0 \<le> a"
  shows "\<exists>n. lround (Fin t) = Some n \<and> a \<le> n \<and> n \<le> b"
proof -
  have "a \<le> \<lfloor>t + 1 / 2\<rfloor>" using assms(1) by (simp add: le_floor_iff)
  moreover have "\<lfloor>t + 1 / 2\<rfloor> \<le> b" using assms(2) by (simp add: floor_le_iff)
  moreover have "0 \<le> t" using assms(1,3) by (metis of_int_0_le_iff order_trans)
  ultimately show ?thesis by (simp add: lround_def)
qed

lemma lround_mono:
  "0 \<le> t \<Longrightarrow> t \<le> t' \<Longrightarrow> lround (Fin t) = Some n \<Longrightarrow> lround (Fin t') = Some n' \<Longrightarrow> n \<le> n'"
  by (auto simp: lround_def intro: floor_mono)


lemma isfinite_iff: "isfinite a \<longleftrightarrow> (\<exists>x. a = Fin x)"
  by (cases a) (auto simp: isfinite_def)

lemma openingRange_finite:
  assumes "isfinite (openingRange rnd p)"
  shows "\<exists>m. minOpening p = Fin m"
  using assms
  by (cases "minOpening p"; cases "maxOpening p") (auto simp: openingRange_def isfinite_def split: if_splits)

lemma unsigned_rat: "(of_nat (unat w) :: rat) = of_int (uint w)"
  by simp

lemma positionRange:
  assumes "ieee rnd"
  shows "registerPositionRange rnd p = Fin (of_int (uint (closedPosition p) - uint (openPosition p)))"
proof -
  have "uint (closedPosition p) < 256" "uint (openPosition p) < 256"
    using uint_bounded [of "closedPosition p"] uint_bounded [of "openPosition p"] by simp_all
  then have "\<bar>uint (closedPosition p) - uint (openPosition p)\<bar> \<le> 256"
    using uint_nonnegative [of "closedPosition p"] uint_nonnegative [of "openPosition p"] by linarith
  also have "\<dots> \<le> 2 ^ 53" by simp
  finally have "\<bar>uint (closedPosition p) - uint (openPosition p)\<bar> \<le> 2 ^ 53" .
  from ieee_int [OF assms this] show ?thesis
    by (simp add: registerPositionRange_def of_u8_def unsigned_rat del: of_int_uint of_nat_unat)
qed

lemma opening_register_range:
  assumes r: "ieee rnd" and p: "isfinite (openingRange rnd p)" "dlt (Fin 0) (openingRange rnd p)"
    "openPosition p < closedPosition p" and v: "v \<le> v'"
  shows "\<exists>a b. openingToRegister rnd (Fin v) p = Register a \<and> openingToRegister rnd (Fin v') p = Register b
    \<and> openPosition p \<le> b \<and> b \<le> a \<and> a \<le> closedPosition p"
proof -
  let ?low = "uint (openPosition p)" and ?band = "uint (closedPosition p) - uint (openPosition p)"
  obtain m where m: "minOpening p = Fin m" using openingRange_finite [OF p(1)] by blast
  obtain s where s: "openingRange rnd p = Fin s" "0 < s" using p(1,2) by (auto simp: isfinite_iff)
  have band: "0 < ?band" using p(3) by (simp add: word_less_def)
  then have bandr: "0 < (of_int ?band :: rat)" by (simp only: of_int_0_less_iff)
  have l: "0 \<le> ?low" "0 \<le> ?band" "?low + ?band \<le> 255"
    using band uint_bounded [of "closedPosition p"] by simp_all
  have conv: "openingToRegister rnd (Fin x) p = (case fraction_of rnd (Fin x) (Fin m) (Fin s) of
      Fin q \<Rightarrow> roundedRegister (step_of rnd ?low ?band q) | _ \<Rightarrow> openingToRegister rnd (Fin x) p)" for x
    using bandr s fraction_of_unit [OF r s(2), of x m]
    by (auto simp: openingToRegister_def Let_def m positionRange [OF r] step_of_def fraction_of_def of_u8_def
          isfinite_def unsigned_rat simp del: of_int_uint of_nat_unat of_int_diff of_int_0_less_iff)
  obtain q where q: "fraction_of rnd (Fin v) (Fin m) (Fin s) = Fin q" "0 \<le> q" "q \<le> 1"
    using fraction_of_unit [OF r s(2)] by blast
  obtain q' where q': "fraction_of rnd (Fin v') (Fin m) (Fin s) = Fin q'" "0 \<le> q'" "q' \<le> 1"
    using fraction_of_unit [OF r s(2)] by blast
  have qq: "q \<le> q'" by (rule fraction_of_mono [OF r s(2) v q(1) q'(1)])
  obtain t where t: "step_of rnd ?low ?band q = Fin t" "of_int ?low \<le> t" "t \<le> of_int (?low + ?band)"
    using step_of_bounds [OF r q(2,3) l] by auto
  obtain t' where t': "step_of rnd ?low ?band q' = Fin t'" "of_int ?low \<le> t'" "t' \<le> of_int (?low + ?band)"
    using step_of_bounds [OF r q'(2,3) l] by auto
  have tt: "t' \<le> t" by (rule step_of_antimono [OF r q(2) qq q'(3) l t(1) t'(1)])
  obtain n where n: "lround (Fin t) = Some n" "n \<le> ?low + ?band" using lround_bounds [OF t(2,3) l(1)] by blast
  obtain n' where n': "lround (Fin t') = Some n'" "?low \<le> n'" using lround_bounds [OF t'(2,3) l(1)] by blast
  have "0 \<le> t'" using t'(2) l(1) by (metis of_int_0_le_iff order_trans)
  from lround_mono [OF this tt n'(1) n(1)] have nn: "n' \<le> n" .
  have "n < 256" "n' < 256" "0 \<le> n'" using n(2) n'(2) nn l by linarith+
  then show ?thesis
    using n n' nn q q' t t' conv [of v] conv [of v']
    by (simp add: roundedRegister_def word_le_def uint_word_of_int_eq take_bit_int_eq_self)
qed

text \<open>C35: On any profile whose positions and openings are in order, \<open>openingToRegister\<close> of a finite
  opening, however far out of the profile, is a register between the open and the closed position,
  and a wider opening is never a larger register, in the arithmetic of rounded doubles.
\<close>

theorem openingToRegister_ordered:
  assumes r: "ieee rnd" and p: "isfinite (openingRange rnd p)" "dlt (Fin 0) (openingRange rnd p)"
    "openPosition p < closedPosition p" and v: "v \<le> v'"
  shows "\<exists>a b. openingToRegister rnd (Fin v) p = Register a \<and> openingToRegister rnd (Fin v') p = Register b
    \<and> openPosition p \<le> b \<and> b \<le> a \<and> a \<le> closedPosition p"
  using opening_register_range [OF assms] .

lemma openingToRegister_ordered_witness:
  "\<exists>a b. openingToRegister Fin (Fin (1 / 50)) (k2F85 Fin) = Register a
    \<and> openingToRegister Fin (Fin 1) (k2F85 Fin) = Register b
    \<and> openPosition (k2F85 Fin) \<le> b \<and> b \<le> a \<and> a \<le> closedPosition (k2F85 Fin)"
  by (rule openingToRegister_ordered [OF ieee_exact])
     (simp_all add: k2F85_def openingRange_def isfinite_def)

section \<open>The exchange period\<close>

lemma exchange_period_bounds:
  assumes r: "ieee rnd" and pos: "dlt (Fin 0) hz"
  shows "\<exists>us. exchangePeriodFromFrequency rnd render hz = Inr (Some us) \<and> 1000 \<le> us \<and> us \<le> 10000000"
proof -
  obtain k where k: "rnd (1 / 10) = Fin k" "\<bar>k - 1 / 10\<bar> \<le> \<bar>1 / 10\<bar> / 2 ^ 53"
    using ieee_close [OF r, of "1 / 10"] by auto
  then have k': "1 / 10 - 1 / 10 ^ 16 \<le> k" "k \<le> 1 / 10 + 1 / 10 ^ 16"
    unfolding abs_le_iff by simp_all
  have "\<exists>f. clamp hz (Fin k) (Fin 1000) = Fin f \<and> k \<le> f \<and> f \<le> 1000"
    using pos k' by (cases hz) (auto simp: clamp_def)
  then obtain f where f: "clamp hz (Fin k) (Fin 1000) = Fin f" "k \<le> f" "f \<le> 1000" by blast
  have fpos: "0 < f" using f(2) k'(1) by simp
  have run: "exchangePeriodFromFrequency rnd render hz = Inr (lround (rnd (1000000 / f)))"
    using pos f fpos k(1)
    by (cases hz) (auto simp: exchangePeriodFromFrequency_def clampFrequency_def kMinFrequency_def kMaxFrequency_def)
  have lower: "1000 \<le> 1000000 / f" using f(3) fpos by (simp add: le_divide_eq)
  have "1000000 / f \<le> 1000000 / (1 / 10 - 1 / 10 ^ 16)"
    using f(2) k'(1) fpos by (intro divide_left_mono) simp_all
  also have "\<dots> \<le> 10000000 + 1 / 10" by simp
  finally have upper: "1000000 / f \<le> 10000000 + 1 / 10" .
  have mag: "\<bar>1000000 / f\<bar> = 1000000 / f" using fpos by simp
  have "1 / 10 ^ 9 \<le> \<bar>1000000 / f\<bar>" "\<bar>1000000 / f\<bar> \<le> 10 ^ 9"
    unfolding mag by (rule order_trans [OF _ lower], simp) (rule order_trans [OF upper], simp)
  from ieee_close [OF r this] obtain y where
    y: "rnd (1000000 / f) = Fin y" "\<bar>y - 1000000 / f\<bar> \<le> 1000000 / f / 2 ^ 53"
    unfolding mag by blast
  have "dle (Fin 1000) (Fin y)"
    using ieee_mono [OF r lower] ieee_int [OF r, of 1000] y(1) by simp
  moreover have "y < 10000000 + 1 / 2" using y(2) upper lower unfolding abs_le_iff by simp
  ultimately have "1000 \<le> \<lfloor>y + 1 / 2\<rfloor>" "\<lfloor>y + 1 / 2\<rfloor> \<le> 10000000" "0 \<le> y"
    by (simp_all add: le_floor_iff floor_le_iff)
  then show "\<exists>us. exchangePeriodFromFrequency rnd render hz = Inr (Some us) \<and> 1000 \<le> us \<and> us \<le> 10000000"
    using run y(1) by (simp add: lround_def)
qed

text \<open>C36: Every frequency a caller can give is refused, with a \<open>DriverException\<close>, exactly when it is
  negative or not a number; 0 means no pacing; every other one is a period of one millisecond to
  ten seconds, however large or small the frequency.
\<close>

theorem exchange_period_range:
  assumes r: "ieee rnd"
  shows "(hz = NaN \<or> dlt hz (Fin 0) \<longrightarrow> (\<exists>msg. exchangePeriodFromFrequency rnd render hz = Inl (DriverException msg)))
    \<and> (hz = Fin 0 \<longrightarrow> exchangePeriodFromFrequency rnd render hz = Inr (Some 0))
    \<and> (dlt (Fin 0) hz \<longrightarrow> (\<exists>us. exchangePeriodFromFrequency rnd render hz = Inr (Some us) \<and> 1000 \<le> us \<and> us \<le> 10000000))"
proof (intro conjI impI)
  assume "hz = NaN \<or> dlt hz (Fin 0)"
  then show "\<exists>msg. exchangePeriodFromFrequency rnd render hz = Inl (DriverException msg)"
    by (simp add: exchangePeriodFromFrequency_def clampFrequency_def)
next
  assume "hz = Fin 0"
  then show "exchangePeriodFromFrequency rnd render hz = Inr (Some 0)"
    by (simp add: exchangePeriodFromFrequency_def clampFrequency_def)
next
  assume "dlt (Fin 0) hz"
  then show "\<exists>us. exchangePeriodFromFrequency rnd render hz = Inr (Some us) \<and> 1000 \<le> us \<and> us \<le> 10000000"
    by (rule exchange_period_bounds [OF r])
qed

lemma exchange_period_range_witness:
  "(\<exists>us. exchangePeriodFromFrequency Fin (\<lambda>d. []) (Fin 5000) = Inr (Some us) \<and> 1000 \<le> us \<and> us \<le> 10000000)
    \<and> (\<exists>msg. exchangePeriodFromFrequency Fin (\<lambda>d. []) NaN = Inl (DriverException msg))"
  using exchange_period_range [OF ieee_exact, of "Fin 5000" "\<lambda>d. []"]
    exchange_period_range [OF ieee_exact, of NaN "\<lambda>d. []"] by simp

end
