(* ===== verification/Factories.thy ===== *)
theory Factories
  imports FakeLink DefaultSerial UnitsProperties Exchange Render
begin

text \<open>
  How a gripper is put together: \<open>Robotiq/gripper/connection_config.hpp\<close>, the constructors in
  \<open>src/gripper.cpp\<close> and \<open>src/default_serial_factory.cpp\<close>, \<open>makeFakeGripper\<close> in
  \<open>src/fake/gripper_factory.cpp\<close>, and the loggers of \<open>src/logger.cpp\<close> and
  \<open>src/hosted/stderr_logger.cpp\<close>.
\<close>

section \<open>Configuration\<close>

definition kDefaultModbusSlaveAddress :: u8 where "kDefaultModbusSlaveAddress = 0x09"

record ConnectionConfig =
  cc_serial :: SerialConfig
  modbusSlaveAddress :: u8
  connectionFrequency :: double

definition ConnectionConfig_of :: "SerialConfig \<Rightarrow> ConnectionConfig" where
  "ConnectionConfig_of s =
     \<lparr>cc_serial = s, modbusSlaveAddress = kDefaultModbusSlaveAddress, connectionFrequency = Fin 100\<rparr>"

section \<open>The constructor\<close>

text \<open>What the constructors use of a platform: whether it hands out a mutex and a condition variable.\<close>

record platform =
  makesMutex :: bool
  makesCondition :: bool

definition StdPlatform_instance :: platform where
  "StdPlatform_instance = \<lparr>makesMutex = True, makesCondition = True\<rparr>"

definition makeDefaultPlatform :: "platform option" where
  "makeDefaultPlatform = Some StdPlatform_instance"

definition checkedPlatform :: "platform option \<Rightarrow> exc + platform" where
  "checkedPlatform p =
     (case p of
        None \<Rightarrow> Inl (DriverException (''a null Platform was passed '' @ em_dash @ '' pass your RTOS platform, or use a hosted constructor''))
      | Some p \<Rightarrow> Inr p)"

text \<open>
  The period is in microseconds, the clock counts nanoseconds. \<open>seeded\<close> and \<open>started\<close> are the clock
  when the image is seeded and when the thread starts.
\<close>

definition Gripper_create ::
  "'s serial_ops \<Rightarrow> 's \<Rightarrow> u8 \<Rightarrow> int \<Rightarrow> platform option \<Rightarrow> time \<Rightarrow> time \<Rightarrow> exc + 's modbus_client world" where
  "Gripper_create ops serial_state slaveAddress exchangePeriod p seeded started =
     (case checkedPlatform p of
        Inl e \<Rightarrow> Inl e
      | Inr os \<Rightarrow>
          (case GripperModbusClient_create ops serial_state slaveAddress of
             Inl e \<Rightarrow> Inl e
           | Inr n \<Rightarrow>
               (case ProcessImage_create (makesMutex os) (makesCondition os) of
                  Inl e \<Rightarrow> Inl e
                | Inr im \<Rightarrow> launch client_readStatus seeded started (GripperState_create n (exchangePeriod * 1000) im))))"

section \<open>The factories\<close>

text \<open>
  On a serial port, with \<open>build\<close> for the constructor on the serial that \<open>makeSerial\<close> returns;
  the period is defined for every frequency that is not refused (\<open>exchange_period_range\<close>).
\<close>

definition Gripper_connect ::
  "(rat \<Rightarrow> double) \<Rightarrow> (double \<Rightarrow> string) \<Rightarrow> ConnectionConfig \<Rightarrow>
     ('p DefaultSerial \<Rightarrow> u8 \<Rightarrow> int \<Rightarrow> platform option \<Rightarrow> exc + 'g) \<Rightarrow> log_line list \<times> (exc + 'g)" where
  "Gripper_connect rnd render config build =
     (let (line, s) = makeSerial (cc_serial config) (modbusSlaveAddress config)
      in ([line],
          case exchangePeriodFromFrequency rnd render (connectionFrequency config) of
            Inl e \<Rightarrow> Inl e
          | Inr period \<Rightarrow> build s (modbusSlaveAddress config) (the period) makeDefaultPlatform))"

definition GripperModbusClient_connect ::
  "ConnectionConfig \<Rightarrow> ('p DefaultSerial \<Rightarrow> u8 \<Rightarrow> exc + 'c) \<Rightarrow> log_line list \<times> (exc + 'c)" where
  "GripperModbusClient_connect config build =
     (let (line, s) = makeSerial (cc_serial config) (modbusSlaveAddress config)
      in ([line], build s (modbusSlaveAddress config)))"

definition makeFakeGripper ::
  "(rat \<Rightarrow> double) \<Rightarrow> (double \<Rightarrow> string) \<Rightarrow> ConnectionConfig \<Rightarrow> time \<Rightarrow> time
     \<Rightarrow> log_line list \<times> (exc + GripperSerial modbus_client world)" where
  "makeFakeGripper rnd render config seeded started =
     (let requested = connectionFrequency config
      in case clampFrequency rnd render requested of
           Inl e \<Rightarrow> ([], Inl e)
         | Inr supported \<Rightarrow>
             let frequency = (if supported = Fin 0 then kMaxFrequency else supported);
                 warning = (if dlt (Fin 0) requested \<and> frequency \<noteq> requested
                            then [(Warn, ''requested exchange frequency '' @ render requested
                                    @ '' Hz is outside the fake gripper's '' @ render (kMinFrequency rnd) @ '' to ''
                                    @ render kMaxFrequency @ '' Hz range; using '' @ render frequency @ '' Hz'')]
                            else [])
             in (warning,
                 case GripperServer_create RegisterModel_init (modbusSlaveAddress config) of
                   Inl e \<Rightarrow> Inl e
                 | Inr server \<Rightarrow>
                     (case exchangePeriodFromFrequency rnd render frequency of
                        Inl e \<Rightarrow> Inl e
                      | Inr period \<Rightarrow>
                          Gripper_create fake_serial (GripperSerial_create server) (modbusSlaveAddress config)
                            (the period) makeDefaultPlatform seeded started)))"

section \<open>Loggers\<close>

definition NullLogger_log :: "Level \<Rightarrow> string \<Rightarrow> string list \<Rightarrow> string list" where
  "NullLogger_log level message out = out"

definition paddedLevel :: "Level \<Rightarrow> string" where
  "paddedLevel level =
     (let name = Level_toString level
      in take 5 name @ replicate (5 - length name) (CHR '' ''))"

text \<open>\<open>date\<close> and \<open>us\<close> are the wall clock, rendered by \<open>strftime\<close>, and its microseconds.\<close>

definition writeTimestamp :: "string \<Rightarrow> nat \<Rightarrow> string" where
  "writeTimestamp date us =
     ''['' @ date @ ''.'' @ replicate (6 - length (to_string us)) (CHR ''0'') @ to_string us @ ''] ''"

definition StderrLogger_log :: "string \<Rightarrow> string \<Rightarrow> nat \<Rightarrow> Level \<Rightarrow> string \<Rightarrow> string list \<Rightarrow> string list" where
  "StderrLogger_log logger_name date us level message out =
     out @ [writeTimestamp date us @ ''['' @ paddedLevel level @ ''] ''
       @ (if logger_name \<noteq> [] then ''['' @ logger_name @ ''] '' else []) @ message]"

lemma paddedLevel_width: "length (paddedLevel level) = 5"
  by (cases level) (simp_all add: paddedLevel_def)

section \<open>A fake gripper starts\<close>

lemma clamp_supported:
  assumes "ieee rnd" "dlt (Fin 0) hz"
  shows "\<exists>f. clampFrequency rnd render hz = Inr (Fin f) \<and> 0 < f"
proof -
  obtain k where k: "rnd (1 / 10) = Fin k" "\<bar>k - 1 / 10\<bar> \<le> \<bar>1 / 10\<bar> / 2 ^ 53"
    using ieee_close [OF assms(1), of "1 / 10"] by auto
  then have "0 < k" unfolding abs_le_iff by simp
  then show ?thesis using assms(2) k(1)
    by (cases hz) (auto simp: clampFrequency_def kMinFrequency_def kMaxFrequency_def clamp_def)
qed


lemma fake_reads_at_once:
  assumes "fake_idle n"
  shows "\<exists>fresh n'. initial_read client_readStatus kInitialReadAttempts (GripperState_create n period im)
     = (Inr fresh, (GripperState_create n period im)\<lparr>client := n'\<rparr>)"
  using fake_readStatus_refines [OF assms]
  by (auto simp: kInitialReadAttempts_def numeral_eq_Suc GripperState_create_def device_readStatus_def)

lemma fake_Gripper_create:
  assumes "u \<noteq> 0" "GripperServer_create RegisterModel_init u = Inr server"
  shows "\<exists>w. Gripper_create fake_serial (GripperSerial_create server) u us makeDefaultPlatform seeded started = Inr w"
proof -
  obtain n where n: "fake_client RegisterModel_init u = Inr n" "fake_idle n"
    using fake_client_created [OF assms(1), of RegisterModel_init] by auto
  then have "GripperModbusClient_create fake_serial (GripperSerial_create server) u = Inr n"
    by (simp add: fake_client_def assms(2))
  moreover define im where "im = \<lparr>imgCommand = GripperCommand_init, stamped = StampedExchange_init, closed = False\<rparr>"
  moreover obtain fresh n' where
    "initial_read client_readStatus kInitialReadAttempts (GripperState_create n (us * 1000) im)
       = (Inr fresh, (GripperState_create n (us * 1000) im)\<lparr>client := n'\<rparr>)"
    using fake_reads_at_once [OF n(2)] by blast
  ultimately show ?thesis
    by (simp add: Gripper_create_def checkedPlatform_def makeDefaultPlatform_def StdPlatform_instance_def
          ProcessImage_create_def launch_def initializeImage_def)
qed

lemma Gripper_create_started:
  assumes "Gripper_create ops s u us p seeded started = Inr w"
  shows "running (gs w) \<and> connectionState (gs w) = Operational \<and> cyclePeriod (gs w) = us * 1000"
proof -
  obtain n im where "launch client_readStatus seeded started (GripperState_create n (us * 1000) im) = Inr w"
    using assms by (auto simp: Gripper_create_def split: sum.splits)
  from launch_start [OF this] show ?thesis by blast
qed

lemma makeFakeGripper_started:
  assumes "ieee rnd" "modbusSlaveAddress config \<noteq> 0"
    and "connectionFrequency config = Fin 0 \<or> dlt (Fin 0) (connectionFrequency config)"
  shows "\<exists>lines w. makeFakeGripper rnd render config seeded started = (lines, Inr w)
    \<and> running (gs w) \<and> connectionState (gs w) = Operational
    \<and> 1000000 \<le> cyclePeriod (gs w) \<and> cyclePeriod (gs w) \<le> 10000000000"
proof -
  let ?u = "modbusSlaveAddress config"
  obtain server where server: "GripperServer_create RegisterModel_init ?u = Inr server"
    using fake_client_created [OF assms(2), of RegisterModel_init]
    by (auto simp: fake_client_def split: sum.splits)
  obtain f where f: "clampFrequency rnd render (connectionFrequency config) = Inr f"
      "f = Fin 0 \<or> dlt (Fin 0) f"
    using assms(3) clamp_supported [OF assms(1), of "connectionFrequency config" render]
    by (cases "connectionFrequency config = Fin 0") (auto simp: clampFrequency_def)
  let ?frequency = "if f = Fin 0 then kMaxFrequency else f"
  have "dlt (Fin 0) ?frequency" using f(2) by (auto simp: kMaxFrequency_def)
  then obtain us where us: "exchangePeriodFromFrequency rnd render ?frequency = Inr (Some us)"
      "1000 \<le> us" "us \<le> 10000000"
    using exchange_period_bounds [OF assms(1)] by blast
  obtain w where w: "Gripper_create fake_serial (GripperSerial_create server) ?u us makeDefaultPlatform seeded started = Inr w"
    using fake_Gripper_create [OF assms(2) server] by blast
  have "snd (makeFakeGripper rnd render config seeded started) = Inr w"
    using f(1) us(1) server w by (simp add: makeFakeGripper_def Let_def)
  moreover have "1000000 \<le> us * 1000" "us * 1000 \<le> 10000000000" using us(2,3) by simp_all
  ultimately show ?thesis using Gripper_create_started [OF w]
    by (cases "makeFakeGripper rnd render config seeded started") simp
qed

text \<open>C27: \<open>makeFakeGripper\<close> hands out a running, operational gripper for every configuration with a
  usable slave address and a frequency that is not refused, and paces its exchanges by a period
  between one millisecond and ten seconds, free-run included.
\<close>

theorem makeFakeGripper_starts:
  assumes "ieee rnd" "modbusSlaveAddress config \<noteq> 0"
    and "connectionFrequency config = Fin 0 \<or> dlt (Fin 0) (connectionFrequency config)"
  shows "\<exists>lines w. makeFakeGripper rnd render config seeded started = (lines, Inr w)
    \<and> running (gs w) \<and> connectionState (gs w) = Operational
    \<and> 1000000 \<le> cyclePeriod (gs w) \<and> cyclePeriod (gs w) \<le> 10000000000"
  using makeFakeGripper_started [OF assms] .

lemma makeFakeGripper_starts_witness:
  "\<exists>lines w. makeFakeGripper Fin (\<lambda>d. []) (ConnectionConfig_of (SerialConfig_defaults [])) 0 0 = (lines, Inr w)
    \<and> running (gs w) \<and> connectionState (gs w) = Operational
    \<and> 1000000 \<le> cyclePeriod (gs w) \<and> cyclePeriod (gs w) \<le> 10000000000"
  by (rule makeFakeGripper_starts [OF ieee_exact])
     (simp_all add: ConnectionConfig_of_def kDefaultModbusSlaveAddress_def)

end
