(* ===== verification/Recorder.thy ===== *)
theory Recorder
  imports Wait Activation Units Render
begin

text \<open>
  What the examples make of the interface: the recorder thread of \<open>examples/exchange_log.cpp\<close>, one CSV
  row per exchange, and the shared procedures of \<open>examples/gripper_events.cpp\<close>. Both run against a
  schedule, like the waits they are made of.
\<close>

section \<open>Rows\<close>

definition show_bool :: "bool \<Rightarrow> string" where
  "show_bool b = (if b then ''1'' else ''0'')"

definition show_u8 :: "u8 \<Rightarrow> string" where
  "show_u8 v = to_string (unat v)"

definition kMetadataColumns :: string where "kMetadataColumns = ''time_s,exchange_count''"
definition kCommandColumns :: string where "kCommandColumns = ''rACT,rGTO,rATR,rARD,rPR,rSP,rFR''"
definition kStatusColumns :: string where "kStatusColumns = ''gACT,gGTO,gSTA,gOBJ,gFLT,kFLT,gPR,gPO,gCU''"

definition writeHeader :: string where
  "writeHeader = kMetadataColumns @ '','' @ kCommandColumns @ '','' @ kStatusColumns @ [CHR 0x0A]"

text \<open>\<open>seconds\<close> renders a duration with the four digits the stream is set to.\<close>

definition writeMetadata :: "(time \<Rightarrow> string) \<Rightarrow> time \<Rightarrow> ExchangeMetadata \<Rightarrow> string" where
  "writeMetadata seconds since md =
     seconds (timestamp md - since) @ '','' @ to_string (unat (exchangeCount md))"

definition writeCommand :: "GripperCommand \<Rightarrow> string" where
  "writeCommand c =
     show_bool (action_get (action c) Activate) @ '','' @ show_bool (action_get (action c) GoTo) @ '',''
     @ show_bool (action_get (action c) AutoRelease) @ '','' @ show_bool (action_get (action c) AutoReleaseOpenDirection)
     @ '','' @ show_u8 (positionRequest c) @ '','' @ show_u8 (speed c) @ '','' @ show_u8 (force c)"

definition writeStatus :: "GripperStatus \<Rightarrow> string" where
  "writeStatus s =
     (let flags = gripperStatus s
      in show_bool (activated flags) @ '','' @ show_bool (goToEnabled flags) @ '',''
         @ show_u8 (ActivationState_code (activationState flags)) @ '',''
         @ show_u8 (ObjectDetection_code (objectDetection flags)) @ '',''
         @ show_u8 (GripperFault_code (gripperFault (faultStatus s))) @ '',''
         @ show_u8 (ControllerFault_code (controllerFault (faultStatus s))) @ '',''
         @ show_u8 (positionRequestEcho s) @ '','' @ show_u8 (position s) @ '','' @ show_u8 (current s))"

definition writeRow :: "(time \<Rightarrow> string) \<Rightarrow> time \<Rightarrow> StampedExchange \<Rightarrow> string" where
  "writeRow seconds since x =
     writeMetadata seconds since (metadata x) @ '','' @ writeCommand (xCommand x) @ '',''
     @ writeStatus (xStatus x) @ [CHR 0x0A]"

section \<open>The recorder\<close>

text \<open>
  \<open>recorded\<close> are the exchanges handed to \<open>writeRow\<close>, whose rows make up the file. \<open>stop\<close> reads the
  flag that \<open>Recorder::stop\<close> sets; \<open>good\<close> tells whether the stream is still good after a row.
\<close>

record Recorder =
  written :: u64
  rec_rows :: u64
  rec_skipped :: u64
  recorded :: "StampedExchange list"
  rec_log :: "log_line list"
  writeFailed :: bool

definition Recorder_begin :: "StampedExchange \<Rightarrow> Recorder" where
  "Recorder_begin first =
     \<lparr>written = countOf first, rec_rows = 0, rec_skipped = 0, recorded = [], rec_log = [], writeFailed = False\<rparr>"

definition kCycleTimeout :: millis where "kCycleTimeout = 500"

definition record_exchange :: "StampedExchange \<Rightarrow> Recorder \<Rightarrow> Recorder" where
  "record_exchange x s =
     (let count = countOf x;
          s = (if count \<noteq> written s + 1
               then s\<lparr>rec_skipped := rec_skipped s + (count - written s - 1),
                      rec_log := rec_log s @ [(Warn, ''fell behind: exchanges '' @ to_string (unat (written s + 1))
                        @ '' to '' @ to_string (unat (count - 1)) @ '' not logged'')]\<rparr>
               else s)
      in s\<lparr>recorded := recorded s @ [x], written := count\<rparr>)"

definition write_failed :: "Recorder \<Rightarrow> Recorder" where
  "write_failed s =
     s\<lparr>rec_log := rec_log s @ [(Error, ''writing the CSV file failed after '' @ to_string (unat (rec_rows s)) @ '' rows'')],
       writeFailed := True\<rparr>"

function recorder_loop ::
  "'l exchange_op \<Rightarrow> ('l world \<Rightarrow> bool) \<Rightarrow> (StampedExchange list \<Rightarrow> bool) \<Rightarrow> Recorder \<Rightarrow> 'l sched_run
     \<Rightarrow> (Recorder \<times> 'l sched_run) option" where
  "recorder_loop xchg stop good s r =
     do { r1 \<leftarrow> env xchg r;
          if stop (fst r1) then Some (s, r1)
          else do { (exchange, r2) \<leftarrow> Gripper_waitForExchangeCount xchg (written s + 1) kCycleTimeout r1;
                    (case exchange of
                       None \<Rightarrow> recorder_loop xchg stop good s r2
                     | Some x \<Rightarrow>
                         let s = record_exchange x s
                         in if \<not> good (recorded s) then Some (write_failed s, r2)
                            else recorder_loop xchg stop good (s\<lparr>rec_rows := rec_rows s + 1\<rparr>) r2) } }"
  by pat_completeness auto
termination
proof (relation "measure (\<lambda>(xchg, stop, good, s, r). length (snd r))")
qed (auto simp: bind_eq_Some_conv dest!: env_length waitForExchangeCount_length)

declare recorder_loop.simps [simp del]

definition recorder_run ::
  "'l exchange_op \<Rightarrow> ('l world \<Rightarrow> bool) \<Rightarrow> (StampedExchange list \<Rightarrow> bool) \<Rightarrow> 'l sched_run
     \<Rightarrow> (StampedExchange \<times> Recorder \<times> 'l sched_run) option" where
  "recorder_run xchg stop good r =
     do { (first, r) \<leftarrow> Gripper_getMostRecentStampedExchange xchg r;
          (s, r) \<leftarrow> recorder_loop xchg stop good (Recorder_begin first) r;
          Some (first, s, r) }"

definition csv_text :: "(time \<Rightarrow> string) \<Rightarrow> StampedExchange \<Rightarrow> Recorder \<Rightarrow> string" where
  "csv_text seconds first s =
     writeHeader @ concat (map (writeRow seconds (timestamp (metadata first))) (recorded s))"

section \<open>Every exchange is a row or is counted\<close>

text \<open>
  From \<open>first\<close>: the counts of the recorded exchanges go up, and what lies between two of them is in
  \<open>rec_skipped\<close>. \<open>lost\<close> is the row whose write failed.
\<close>

fun gaps :: "nat \<Rightarrow> nat list \<Rightarrow> nat" where
  "gaps n [] = 0"
| "gaps n (c # cs) = (c - n - 1) + gaps c cs"

fun rising :: "nat \<Rightarrow> nat list \<Rightarrow> bool" where
  "rising n [] = True"
| "rising n (c # cs) = (n < c \<and> rising c cs)"

lemma rising_append: "rising n (cs @ [c]) \<longleftrightarrow> rising n cs \<and> last (n # cs) < c"
  by (induction cs arbitrary: n) auto

lemma gaps_append: "gaps n (cs @ [c]) = gaps n cs + (c - last (n # cs) - 1)"
  by (induction cs arbitrary: n) auto

lemma rising_total: "rising n cs \<Longrightarrow> n + length cs + gaps n cs = last (n # cs)"
proof (induction cs arbitrary: n)
  case (Cons c cs)
  then show ?case using Cons.IH [of c] by (cases cs) auto
qed simp

definition counts :: "StampedExchange list \<Rightarrow> nat list" where
  "counts xs = map (\<lambda>x. unat (countOf x)) xs"

definition recorder_inv :: "nat \<Rightarrow> nat \<Rightarrow> Recorder \<Rightarrow> bool" where
  "recorder_inv base lost s \<longleftrightarrow>
     rising base (counts (recorded s)) \<and> unat (written s) = last (base # counts (recorded s))
     \<and> unat (rec_skipped s) = gaps base (counts (recorded s))
     \<and> unat (rec_rows s) + lost = length (recorded s)"

lemma unat_u64: "unat (w :: u64) < 2 ^ 64"
  by (rule order_less_le_trans [OF unsigned_less]) simp

lemma record_exchange_inv:
  assumes inv: "recorder_inv base 0 s" and new: "unat (written s) < unat (countOf x)"
  shows "recorder_inv base 1 (record_exchange x s)"
proof -
  let ?c = "unat (countOf x)" and ?w = "unat (written s)"
  have skip: "unat (countOf x - written s - 1) = ?c - ?w - 1"
  proof -
    have "unat (countOf x - written s) = ?c - ?w" using new by (simp add: unat_sub word_le_nat_alt)
    moreover from this have "countOf x - written s \<noteq> 0" using new by (metis unat_0 zero_less_diff less_irrefl)
    ultimately show ?thesis by (simp add: unat_minus_one)
  qed
  have total: "?w = base + length (recorded s) + gaps base (counts (recorded s))"
    using inv rising_total [of base "counts (recorded s)"] by (simp add: recorder_inv_def counts_def)
  have "unat (rec_skipped s) + (?c - ?w - 1) < 2 ^ 64"
    using inv total new unat_u64 [of "countOf x"] unfolding recorder_inv_def by linarith
  then have sum: "unat (rec_skipped s + (countOf x - written s - 1)) = unat (rec_skipped s) + (?c - ?w - 1)"
    using skip by (simp add: unat_word_ariths take_bit_nat_eq_self)
  have "unat (rec_skipped (record_exchange x s)) = unat (rec_skipped s) + (?c - ?w - 1)"
    using sum skip by (auto simp: record_exchange_def Let_def)
  moreover have "recorded (record_exchange x s) = recorded s @ [x]" "written (record_exchange x s) = countOf x"
    "rec_rows (record_exchange x s) = rec_rows s"
    by (simp_all add: record_exchange_def Let_def)
  ultimately show ?thesis
    using inv new by (simp add: recorder_inv_def counts_def rising_append gaps_append)
qed


lemma recorder_loop_accounts:
  assumes "recorder_loop xchg stop good s r = Some (s', r')" and "room r" and "sched_ok any_event r"
    and "recorder_inv base 0 s" and "written s \<le> countOf (record_of (fst r))" and "\<not> writeFailed s"
  shows "recorder_inv base (of_bool (writeFailed s')) s' \<and> written s' \<le> countOf (record_of (fst r'))"
  using assms
proof (induction xchg stop good s r rule: recorder_loop.induct)
  case (1 xchg stop good s r)
  from "1.prems"(1) obtain r1 where e: "env xchg r = Some r1"
    by (subst (asm) recorder_loop.simps) (auto simp: bind_eq_Some_conv)
  have p1: "progress xchg any_event r r1" by (rule env_progress [OF e "1.prems"(3)])
  note c1 = progress_count [OF p1 "1.prems"(2)]
  note ok1 = progress_sched_ok [OF p1 "1.prems"(3)]
  show ?case
  proof (cases "stop (fst r1)")
    case True
    then have "s' = s" "r' = r1" using "1.prems"(1) e by (simp_all add: recorder_loop.simps)
    then show ?thesis using "1.prems"(4,5,6) c1(1) by simp
  next
    case False
    then obtain ex r2 where w: "Gripper_waitForExchangeCount xchg (written s + 1) kCycleTimeout r1 = Some (ex, r2)"
      and k: "(case ex of None \<Rightarrow> recorder_loop xchg stop good s r2
         | Some x \<Rightarrow> let s = record_exchange x s
             in if \<not> good (recorded s) then Some (write_failed s, r2)
                else recorder_loop xchg stop good (s\<lparr>rec_rows := rec_rows s + 1\<rparr>) r2) = Some (s', r')"
      using "1.prems"(1) e by (subst (asm) recorder_loop.simps) (auto simp: bind_eq_Some_conv)
    note spec = waitForExchangeCount_spec [OF w ok1]
    have p2: "progress xchg any_event r1 r2" using spec by simp
    note c2 = progress_count [OF p2 c1(2)]
    note ok2 = progress_sched_ok [OF p2 ok1]
    show ?thesis
    proof (cases ex)
      case None
      have "written s \<le> countOf (record_of (fst r2))" using "1.prems"(5) c1(1) c2(1) by simp
      then show ?thesis
        using "1.IH"(1) [OF e False w HOL.refl None] k None c2(2) ok2 "1.prems"(4,6) by simp
    next
      case (Some x)
      have x: "x = record_of (fst r2)" "written s + 1 \<le> countOf x" using spec Some by auto
      have "unat (written s) + 1 < 2 ^ 64"
        using "1.prems"(2,5) by (simp add: room_def word_le_nat_alt)
      then have new: "unat (written s) < unat (countOf x)"
        using x(2) by (simp add: word_le_nat_alt unat_word_ariths)
      let ?s = "record_exchange x s"
      have inv: "recorder_inv base 1 ?s" by (rule record_exchange_inv [OF "1.prems"(4) new])
      have wr: "written ?s = countOf x" by (simp add: record_exchange_def Let_def)
      show ?thesis
      proof (cases "good (recorded ?s)")
        case False
        then have "s' = write_failed ?s" "r' = r2" using k Some by (simp_all add: Let_def)
        then show ?thesis using inv wr x(1) by (simp add: recorder_inv_def write_failed_def)
      next
        case True
        let ?n = "?s\<lparr>rec_rows := rec_rows ?s + 1\<rparr>"
        have run: "recorder_loop xchg stop good ?n r2 = Some (s', r')" using k Some True by (simp add: Let_def)
        have "length (recorded ?s) < 2 ^ 64"
          using inv rising_total [of base "counts (recorded ?s)"] unat_u64 [of "written ?s"]
          by (simp add: recorder_inv_def counts_def)
        then have "recorder_inv base 0 ?n"
          using inv by (simp add: recorder_inv_def unat_word_ariths take_bit_nat_eq_self)
        moreover have "\<not> writeFailed ?n" using "1.prems"(6) by (simp add: record_exchange_def Let_def)
        ultimately show ?thesis
          using "1.IH"(2) [OF e False w HOL.refl Some HOL.refl _ run c2(2) ok2] True wr x(1) by simp
      qed
    qed
  qed
qed

lemma recorder_run_accounts:
  assumes "recorder_run xchg stop good r = Some (first, s, r')" and "room r"
  shows "rising (unat (countOf first)) (counts (recorded s))
    \<and> length (recorded s) = unat (rec_rows s) + of_bool (writeFailed s)
    \<and> unat (countOf first) + unat (rec_rows s) + of_bool (writeFailed s) + unat (rec_skipped s) = unat (written s)
    \<and> written s \<le> countOf (record_of (fst r'))"
proof -
  obtain r1 where f: "Gripper_getMostRecentStampedExchange xchg r = Some (first, r1)"
    and loop: "recorder_loop xchg stop good (Recorder_begin first) r1 = Some (s, r')"
    using assms(1) by (auto simp: recorder_run_def bind_eq_Some_conv)
  have p: "progress xchg any_event r r1" "first = record_of (fst r1)"
    using access_progress(3) [OF _ f, of any_event] by simp_all
  have "recorder_inv (unat (countOf first)) 0 (Recorder_begin first)"
    by (simp add: recorder_inv_def Recorder_begin_def counts_def)
  from recorder_loop_accounts [OF loop progress_count(2) [OF p(1) assms(2)] _ this] p(2)
  have inv: "recorder_inv (unat (countOf first)) (of_bool (writeFailed s)) s"
    "written s \<le> countOf (record_of (fst r'))"
    by (simp_all add: Recorder_begin_def)
  from inv rising_total [of "unat (countOf first)" "counts (recorded s)"] show ?thesis
    by (simp add: recorder_inv_def counts_def)
qed

section \<open>The shared procedures\<close>

definition withStatus ::
  "'l exchange_op \<Rightarrow> string \<Rightarrow> 'l sched_run \<Rightarrow> (string \<times> 'l sched_run) option" where
  "withStatus xchg message r =
     do { (st, r) \<leftarrow> Gripper_getStatus xchg r;
          (link, r) \<leftarrow> Gripper_connectionState xchg r;
          Some (message @ ''; link='' @ ConnectionState_toString link @ '' '' @ status_toString st, r) }"

definition kProcedureTimeout :: millis where "kProcedureTimeout = 15000"

definition activateOrRecover ::
  "'l exchange_op \<Rightarrow> 'l sched_run \<Rightarrow> (bool \<times> log_line list \<times> 'l sched_run) option" where
  "activateOrRecover xchg r =
     do { (activation, r) \<leftarrow> activate xchg kProcedureTimeout r;
          (activation, lines, r) \<leftarrow>
            (if activation = FaultLatched
             then do { (activation, r) \<leftarrow> recoverFromFault xchg kProcedureTimeout r;
                       Some (activation, [(Warn, ''fault latched; recovering (the fingers will move)'')], r) }
             else Some (activation, [], r));
          if activation \<noteq> Activated \<and> activation \<noteq> AlreadyActive
          then do { (m, r) \<leftarrow> withStatus xchg ''activation failed or timed out'' r; Some (False, lines @ [(Error, m)], r) }
          else do { (m, r) \<leftarrow> withStatus xchg ''activated'' r; Some (True, lines @ [(Info, m)], r) } }"

text \<open>
  The command is the caller's, updated. \<open>mm\<close> renders the settled opening in millimetres. A register
  that \<open>lround\<close> leaves unspecified does not arise (\<open>openingToRegister_ordered\<close>).
\<close>

definition moveTo ::
  "(rat \<Rightarrow> double) \<Rightarrow> (double \<Rightarrow> string) \<Rightarrow> 'l exchange_op \<Rightarrow> GripperCommand \<Rightarrow> double \<Rightarrow> DeviceProfile \<Rightarrow> 'l sched_run
     \<Rightarrow> (bool \<times> GripperCommand \<times> log_line list \<times> 'l sched_run) option" where
  "moveTo rnd mm xchg command openingMetres profile r =
     (case openingToRegister rnd openingMetres profile of
        Register p \<Rightarrow>
          (let command = command\<lparr>positionRequest := p, action := action_set (action command) GoTo True\<rparr>;
               lines = [(Debug, ''sending: '' @ command_toString command)]
           in do { (carried, r) \<leftarrow> setCommandAndWaitForExchange xchg command 1000 r;
                   if carried = None
                   then do { (m, r) \<leftarrow> withStatus xchg ''no exchange carried the command'' r;
                             Some (False, command, lines @ [(Error, m)], r) }
                   else do { (moving, r) \<leftarrow> waitForObjectDetection xchg Moving 200 r;
                             let lines = lines @ (if moving = None
                               then [(Debug, ''no motion seen within 200 ms; it may already be done'')] else []);
                             (settled, r) \<leftarrow> waitForMotionEnd xchg 5000 r;
                             (case settled of
                                None \<Rightarrow>
                                  do { (m, r) \<leftarrow> withStatus xchg ''the motion never settled'' r;
                                       Some (False, command, lines @ [(Error, m)], r) }
                              | Some x \<Rightarrow>
                                  (case openingFromRegister rnd (position (xStatus x)) profile of
                                     None \<Rightarrow>
                                       do { (m, r) \<leftarrow> withStatus xchg ''the settled position has no opening in this profile'' r;
                                            Some (False, command, lines @ [(Error, m)], r) }
                                   | Some d \<Rightarrow>
                                       do { (m, r) \<leftarrow> withStatus xchg (''settled at '' @ mm (dmul rnd d (Fin 1000)) @ '' mm'') r;
                                            Some (True, command, lines @ [(Info, m)], r) })) } })
      | _ \<Rightarrow> Some (False, command, [(Error, ''the requested opening has no register value'')], r))"

lemma withStatus_progress:
  "withStatus xchg m r = Some (t, r') \<Longrightarrow> sched_ok ok r \<Longrightarrow> progress xchg ok r r'"
  by (auto simp: withStatus_def Gripper_getStatus_def Gripper_connectionState_def bind_eq_Some_conv
      dest!: env_progress intro: progress_trans progress_sched_ok)

text \<open>
  What a success says is said of the run itself: the records are those of the gripper at points the run
  passes, in this order. For \<open>activateOrRecover\<close>, when nobody else commands, one that is new and shows
  a complete activation.
\<close>

definition activation_seen :: "'l exchange_op \<Rightarrow> 'l sched_run \<Rightarrow> 'l sched_run \<Rightarrow> bool" where
  "activation_seen xchg r r' \<longleftrightarrow>
     (\<exists>m. progress xchg any_event r m \<and> progress xchg any_event m r'
        \<and> activationState (gripperStatus (xStatus (record_of (fst m)))) = Complete
        \<and> countOf (record_of (fst r)) < countOf (record_of (fst m)))"

text \<open>For a move: a new exchange that carried the command, and a later one with the fingers at rest.\<close>

definition moved :: "'l exchange_op \<Rightarrow> GripperCommand \<Rightarrow> 'l sched_run \<Rightarrow> 'l sched_run \<Rightarrow> bool" where
  "moved xchg c r r' \<longleftrightarrow>
     (\<exists>m n. progress xchg any_event r m \<and> progress xchg any_event m n \<and> progress xchg any_event n r'
        \<and> command_eq (xCommand (record_of (fst m))) c
        \<and> countOf (record_of (fst r)) < countOf (record_of (fst m))
        \<and> countOf (record_of (fst m)) < countOf (record_of (fst n))
        \<and> objectDetection (gripperStatus (xStatus (record_of (fst n)))) \<noteq> Moving)"

lemma activateOrRecover_ok:
  assumes "activateOrRecover xchg r = Some (True, lines, r')" and "sched_ok no_commander r" and "room r"
  shows "activation_seen xchg r r'"
proof -
  from assms(1) obtain res r1 l2 r2 m where a: "activate xchg kProcedureTimeout r = Some (res, r1)"
    and b: "(if res = FaultLatched then \<exists>res2. recoverFromFault xchg kProcedureTimeout r1 = Some (res2, r2)
               \<and> res2 \<in> {Activated, AlreadyActive}
             else res \<in> {Activated, AlreadyActive} \<and> r2 = r1)"
    and w: "withStatus xchg l2 r2 = Some (m, r')"
    by (auto simp: activateOrRecover_def bind_eq_Some_conv split: if_splits)
  note sa = activate_spec [OF a assms(2) HOL.refl]
  have up: "progress xchg any_event x y" if "progress xchg ok x y" for ok x y
    using that by (rule progress_mono) simp
  note p1 = up [OF sa(1)]
  note c1 = progress_count [OF p1 assms(3)]
  have two: "progress xchg any_event r r2 \<and> activationState (gripperStatus (xStatus (record_of (fst r2)))) = Complete
      \<and> countOf (record_of (fst r)) < countOf (record_of (fst r2))"
  proof (cases "res = FaultLatched")
    case True
    then obtain res2 where r2: "recoverFromFault xchg kProcedureTimeout r1 = Some (res2, r2)"
      "res2 \<in> {Activated, AlreadyActive}" using b by auto
    note sr = recoverFromFault_spec [OF r2(1) progress_sched_ok [OF sa(1) assms(2)] HOL.refl]
    have "res2 = Activated" using sr r2(2) by auto
    then have seen: "activationState (gripperStatus (xStatus (record_of (fst r2)))) = Complete"
      using sr by (simp add: reset_seen_def)
    have p2: "progress xchg any_event r1 r2" using up sr by blast
    have "countOf (record_of (fst r)) < countOf (record_of (fst r1))" using sa(5) assms(3) True by simp
    then show ?thesis using progress_trans [OF p1 p2] progress_count(1) [OF p2 c1(2)] seen by auto
  next
    case False
    then show ?thesis using b sa(2,4,5) assms(3) p1 by auto
  qed
  have "progress xchg any_event r2 r'" by (rule withStatus_progress [OF w sched_ok_any])
  with two show ?thesis unfolding activation_seen_def by blast
qed

lemma moveTo_ok:
  assumes "moveTo rnd mm xchg command v profile r = Some (True, command', lines, r')" and "room r"
  shows "\<exists>p. openingToRegister rnd v profile = Register p
      \<and> command' = command\<lparr>positionRequest := p, action := action_set (action command) GoTo True\<rparr>
      \<and> moved xchg command' r r'"
proof (cases "openingToRegister rnd v profile")
  case (Register p)
  let ?c = "command\<lparr>positionRequest := p, action := action_set (action command) GoTo True\<rparr>"
  from assms(1) obtain carried r1 moving r2 settled r3 l m where
    1: "setCommandAndWaitForExchange xchg ?c 1000 r = Some (Some carried, r1)"
    and 2: "waitForObjectDetection xchg Moving 200 r1 = Some (moving, r2)"
    and 3: "waitForMotionEnd xchg 5000 r2 = Some (Some settled, r3)"
    and 4: "openingFromRegister rnd (position (xStatus settled)) profile \<noteq> None"
    and 5: "withStatus xchg l r3 = Some (m, r')" and c: "command' = ?c"
    by (clarsimp simp: moveTo_def Register Let_def bind_eq_Some_conv split: if_splits option.splits) blast+
  note s1 = setCommandAndWait_carried [OF 1 assms(2)]
  note p1 = conjunct1 [OF s1]
  note s2 = waitFor_spec [OF 2 [unfolded waitForObjectDetection_def] sched_ok_any]
  note s3 = waitFor_spec [OF 3 [unfolded waitForMotionEnd_def] sched_ok_any]
  note c2 = progress_count [OF conjunct1 [OF s2] progress_count(2) [OF p1 assms(2)]]
  note c3 = progress_count [OF conjunct1 [OF s3] c2(2)]
  have p4: "progress xchg any_event r3 r'" by (rule withStatus_progress [OF 5 sched_ok_any])
  have p23: "progress xchg any_event r1 r3" using progress_trans [OF conjunct1 [OF s2] conjunct1 [OF s3]] .
  have m: "command_eq (xCommand (record_of (fst r1))) ?c"
    and up: "countOf (record_of (fst r)) < countOf (record_of (fst r1))" using s1 by auto
  have rest: "objectDetection (gripperStatus (xStatus (record_of (fst r3)))) \<noteq> Moving"
    and later: "countOf (record_of (fst r1)) < countOf (record_of (fst r3))" using s3 c2 by auto
  have "moved xchg ?c r r'" unfolding moved_def using p1 p23 p4 m up later rest by blast
  with Register c show ?thesis by blast
qed (use assms(1) in \<open>auto simp: moveTo_def\<close>)

lemma moved_progress: "moved xchg c r r' \<Longrightarrow> progress xchg any_event r r'"
  unfolding moved_def by (blast intro: progress_trans)

lemma activation_progress: "activation_seen xchg r r' \<Longrightarrow> progress xchg any_event r r'"
  unfolding activation_seen_def by (blast intro: progress_trans)

lemma progress_moved:
  assumes "progress xchg any_event q r" and "moved xchg c r r'" and "room q"
  shows "moved xchg c q r'"
  using assms progress_count(1) [OF assms(1,3)] unfolding moved_def
  by (meson order_le_less_trans progress_trans)

lemma activation_then_moved:
  assumes "activation_seen xchg r r1" and "moved xchg c r1 r2" and "room r"
  shows "\<exists>m. progress xchg any_event r m \<and> activationState (gripperStatus (xStatus (record_of (fst m)))) = Complete
    \<and> countOf (record_of (fst r)) < countOf (record_of (fst m)) \<and> moved xchg c m r2"
  using assms progress_moved progress_count(2) unfolding activation_seen_def by blast

lemma moveTo_outcome:
  assumes "moveTo rnd mm xchg command v profile r = Some (ok, command', lines, r')" and "room r"
  shows "(ok \<longrightarrow> (\<exists>p. openingToRegister rnd v profile = Register p
      \<and> command' = command\<lparr>positionRequest := p, action := action_set (action command) GoTo True\<rparr>
      \<and> moved xchg command' r r'))
    \<and> ((\<forall>p. openingToRegister rnd v profile \<noteq> Register p) \<longrightarrow> \<not> ok \<and> command' = command \<and> r' = r)"
proof (cases "\<exists>p. openingToRegister rnd v profile = Register p")
  case False
  with assms(1) show ?thesis
    by (cases "openingToRegister rnd v profile") (auto simp: moveTo_def)
next
  case True
  then show ?thesis using moveTo_ok [of rnd mm xchg command v profile r command' lines r'] assms by fastforce
qed

end
