(* ===== verification/RecorderProperties.thy ===== *)
theory RecorderProperties
  imports Demo Recorder
begin

text \<open>
  Properties of the recorder and of the shared procedures of the examples. \<open>moving_link\<close> is a link
  whose gripper moves for three exchanges and then rests at the requested position.
\<close>

text \<open>C30: The recorder of the logging example accounts for every exchange. Whenever it stops, the
  rows it wrote carry strictly rising exchange counts after the one it started from, and the rows,
  the exchanges it counts as skipped and the row whose write failed add up to the exchanges that
  completed from its start to its last row.\<close>

theorem recorder_accounts:
  assumes "recorder_run xchg stop good r = Some (first, s, r')" and "room r"
  shows "rising (unat (countOf first)) (counts (recorded s))
    \<and> length (recorded s) = unat (rec_rows s) + of_bool (writeFailed s)
    \<and> unat (countOf first) + unat (rec_rows s) + of_bool (writeFailed s) + unat (rec_skipped s) = unat (written s)
    \<and> written s \<le> countOf (record_of (fst r'))"
  using recorder_run_accounts [OF assms] .

lemma recorder_accounts_witness:
  "\<exists>first s r'. recorder_run demo_link (\<lambda>w. False) (\<lambda>xs. length xs < 2) demo_run = Some (first, s, r')
    \<and> writeFailed s \<and> unat (countOf first) + unat (rec_rows s) + 1 + unat (rec_skipped s) = unat (written s)"
proof -
  have "map_option (\<lambda>(first, s, r). writeFailed s)
      (recorder_run demo_link (\<lambda>w. False) (\<lambda>xs. length xs < 2) demo_run) = Some True"
    by code_simp
  then obtain first s r' where
    run: "recorder_run demo_link (\<lambda>w. False) (\<lambda>xs. length xs < 2) demo_run = Some (first, s, r')" "writeFailed s"
    by auto
  from recorder_accounts [OF run(1) demo_run_room] run show ?thesis by auto
qed

text \<open>When \<open>moveTo\<close> reports success, an exchange after the call carried the very command it built
  from the opening, and a later exchange showed the fingers at rest; the command handed back is that
  command. A call that finds no register for the opening leaves the gripper alone.\<close>

theorem moveTo_settled:
  assumes "moveTo rnd mm xchg command v profile r = Some (ok, command', lines, r')" and "room r"
  shows "(ok \<longrightarrow> (\<exists>p. openingToRegister rnd v profile = Register p
      \<and> command' = command\<lparr>positionRequest := p, action := action_set (action command) GoTo True\<rparr>
      \<and> moved xchg command' r r'))
    \<and> ((\<forall>p. openingToRegister rnd v profile \<noteq> Register p) \<longrightarrow> \<not> ok \<and> command' = command \<and> r' = r)"
  using moveTo_outcome [OF assms] .

definition moving_link :: "nat exchange_op" where
  "moving_link n c =
     (Inr (GripperStatus_init\<lparr>gripperStatus := if n < 3 then 0x39 else 0xF9,
                              positionRequestEcho := positionRequest c, position := positionRequest c\<rparr>), Suc n)"

definition moving_run :: "nat sched_run" where
  "moving_run =
     (\<lparr>clock = 0, gs = start 0 (snd (initializeImage (\<lambda>n. (Inr GripperStatus_init, n)) 0 (GripperState_create 0 1000 demo_image)))\<rparr>,
      snd demo_run)"

lemma moving_run_room: "room moving_run"
proof -
  have "countOf (record_of (fst moving_run)) = 0" by code_simp
  moreover have "snd moving_run = snd demo_run" by (simp add: moving_run_def)
  ultimately show ?thesis using demo_run_counts(1) by (simp add: room_def)
qed

lemma moveTo_settled_witness:
  "\<exists>command' p r'. command' = demo_command\<lparr>positionRequest := p, action := action_set (action demo_command) GoTo True\<rparr>
      \<and> moved moving_link command' moving_run r'"
proof -
  have "map_option fst (moveTo Fin (\<lambda>d. []) moving_link demo_command (Fin (85 / 1000)) (k2F85 Fin) moving_run) = Some True"
    by code_simp
  then obtain c' lines r' where
    "moveTo Fin (\<lambda>d. []) moving_link demo_command (Fin (85 / 1000)) (k2F85 Fin) moving_run = Some (True, c', lines, r')"
    by auto
  from moveTo_settled [OF this moving_run_room] show ?thesis by blast
qed

end
