(* ===== verification/PosixDuplex.thy ===== *)
theory PosixDuplex
  imports SerialProperties "HOL-Library.Sublist"
begin

text \<open>
  Both directions of a POSIX serial port at once: on an operating system that keeps
  \<open>posix_duplex\<close>, writing and draining end within their timeouts and leave what was received alone,
  and reading leaves what was sent alone.
\<close>

section \<open>What POSIX promises for both directions\<close>

text \<open>
  Besides \<open>posix_contract\<close> and \<open>posix_accepts\<close>: a call for one direction does nothing to the other;
  the clock does not go back and sleeping moves it on; a signal uses up one of \<open>intr\<close>.
\<close>

definition onward :: "('o \<Rightarrow> time) \<Rightarrow> ('o \<Rightarrow> u8 list) \<Rightarrow> ('o \<Rightarrow> nat) \<Rightarrow> 'o \<Rightarrow> 'o \<Rightarrow> bool" where
  "onward clk got intr w w' \<longleftrightarrow> clk w \<le> clk w' \<and> got w' = got w \<and> intr w' \<le> intr w"

definition posix_duplex ::
  "'o posix_os \<Rightarrow> ('o \<Rightarrow> time) \<Rightarrow> ('o \<Rightarrow> u8 list) \<Rightarrow> ('o \<Rightarrow> u8 list) \<Rightarrow> ('o \<Rightarrow> nat) \<Rightarrow> bool" where
  "posix_duplex os clk got acc intr \<longleftrightarrow>
     posix_contract os clk got intr \<and> posix_accepts os acc
   \<and> (\<forall>fd n w. acc (snd (sys_read os fd n w)) = acc w)
   \<and> (\<forall>fd data w r w'. sys_write os fd data w = (r, w')
        \<longrightarrow> onward clk got intr w w' \<and> (r = Inl EINTR \<longrightarrow> intr w' < intr w))
   \<and> (\<forall>fd w r w'. sys_outq os fd w = (r, w') \<longrightarrow> onward clk got intr w w')
   \<and> (\<forall>d w. 0 < d \<longrightarrow> onward clk got intr w (sys_sleep_for os d w) \<and> clk w < clk (sys_sleep_for os d w))
   \<and> (\<forall>fd w r w'. sys_tcdrain os fd w = (r, w')
        \<longrightarrow> onward clk got intr w w' \<and> (r = Some EINTR \<longrightarrow> intr w' < intr w))"

lemma duplex_contracts:
  assumes "posix_duplex os clk got acc intr"
  shows "posix_contract os clk got intr" "posix_accepts os acc"
  using assms by (simp_all add: posix_duplex_def)

lemma duplex_read:
  assumes "posix_duplex os clk got acc intr" "sys_read os fd n w = (r, w')" shows "acc w' = acc w"
  using assms(1) [unfolded posix_duplex_def, THEN conjunct2, THEN conjunct2, THEN conjunct1, rule_format, of fd n w]
    assms(2) by simp

lemma duplex_write:
  assumes "posix_duplex os clk got acc intr" "sys_write os fd data w = (r, w')"
  shows "onward clk got intr w w'" "r = Inl EINTR \<Longrightarrow> intr w' < intr w"
  using assms(1) [unfolded posix_duplex_def, THEN conjunct2, THEN conjunct2, THEN conjunct2, THEN conjunct1,
    rule_format, OF assms(2)] by simp_all

lemma duplex_outq:
  assumes "posix_duplex os clk got acc intr" "sys_outq os fd w = (r, w')" shows "onward clk got intr w w'"
  using assms(1) [unfolded posix_duplex_def, THEN conjunct2, THEN conjunct2, THEN conjunct2, THEN conjunct2,
    THEN conjunct1, rule_format, OF assms(2)] by simp_all

lemma duplex_sleep:
  assumes "posix_duplex os clk got acc intr" "0 < d"
  shows "onward clk got intr w (sys_sleep_for os d w)" "clk w < clk (sys_sleep_for os d w)"
  using assms by (simp_all add: posix_duplex_def del: split_paired_All)

lemma duplex_tcdrain:
  assumes "posix_duplex os clk got acc intr" "sys_tcdrain os fd w = (r, w')"
  shows "onward clk got intr w w'" "r = Some EINTR \<Longrightarrow> intr w' < intr w"
  using assms(1) [unfolded posix_duplex_def, THEN conjunct2, THEN conjunct2, THEN conjunct2, THEN conjunct2,
    THEN conjunct2, THEN conjunct2, rule_format, OF assms(2)] by simp_all

lemma duplex_now:
  assumes "posix_duplex os clk got acc intr" "sys_now os w = (t, w')"
  shows "clk w \<le> t" "t \<le> clk w'" "onward clk got intr w w'"
  using contract_now [OF duplex_contracts(1) [OF assms(1)] assms(2)] by (simp_all add: onward_def)

lemma onward_refl [simp]: "onward clk got intr w w"
  by (simp add: onward_def)

lemma onward_trans: "onward clk got intr w w' \<Longrightarrow> onward clk got intr w' w'' \<Longrightarrow> onward clk got intr w w''"
  by (auto simp: onward_def)

lemma duplex_wait:
  assumes "posix_duplex os clk got acc intr" "0 < remaining"
    and "waitReady os fd ev remaining context w = (r, w')"
  shows "clk w < clk w'" "onward clk got intr w w'"
  using waitReady_contract(1-3) [OF duplex_contracts(1) [OF assms(1)] assms(2,3)] by (simp_all add: onward_def)

section \<open>Writes end\<close>

text \<open>What a call that has ended leaves: a result, and the input as it was.\<close>

abbreviation ends :: "('o \<Rightarrow> time) \<Rightarrow> ('o \<Rightarrow> u8 list) \<Rightarrow> ('o \<Rightarrow> nat) \<Rightarrow> 'o \<Rightarrow> ('a \<times> 'o) option \<Rightarrow> bool" where
  "ends clk got intr w run \<equiv> \<exists>r w'. run = Some (r, w') \<and> onward clk got intr w w'"

lemma onward_remaining: "onward clk got intr w w' \<Longrightarrow> nat (deadline - clk w') \<le> nat (deadline - clk w)"
  by (auto simp: onward_def intro: nat_mono)

lemma onward_intr: "onward clk got intr w w' \<Longrightarrow> intr w' \<le> intr w"
  by (simp add: onward_def)

lemma ends_onward: "ends clk got intr w1 run \<Longrightarrow> onward clk got intr w w1 \<Longrightarrow> ends clk got intr w run"
  using onward_trans by fastforce

lemma write_loop_ends:
  assumes c: "posix_duplex os clk got acc intr"
  shows "length data - sent + intr w + nat (deadline - clk w) < fuel \<Longrightarrow>
    ends clk got intr w (posix_write_loop fuel os fd data False deadline sent w)"
proof (induction fuel arbitrary: sent w)
  case 0
  then show ?case by simp
next
  case (Suc fuel)
  let ?go = "\<lambda>sent w. posix_write_loop fuel os fd data False deadline sent w"
  show ?case
  proof (cases "sent < length data")
    case False
    then show ?thesis by auto
  next
    case True
    obtain count w1 where wr: "sys_write os fd (drop sent data) w = (count, w1)"
      by (cases "sys_write os fd (drop sent data) w")
    note w1 = duplex_write [OF c wr]
    obtain now w2 where n: "sys_now os w1 = (now, w2)" by (cases "sys_now os w1")
    note w2 = duplex_now [OF c n]
    have on2: "onward clk got intr w w2" by (rule onward_trans [OF w1(1) w2(3)])
    obtain res w3 where wt: "waitReady os fd POLLOUT (deadline - now) ''waiting to send on the serial port'' w2 = (res, w3)"
      by (cases "waitReady os fd POLLOUT (deadline - now) ''waiting to send on the serial port'' w2")
    have sent: "ends clk got intr w (?go (sent + Suc k) w1)" for k
      by (rule ends_onward [OF Suc.IH w1(1)])
         (use Suc.prems True onward_remaining [OF w1(1), of deadline] onward_intr [OF w1(1)] in linarith)
    have signal: "ends clk got intr w (?go sent w1)" if "count = Inl EINTR"
      by (rule ends_onward [OF Suc.IH w1(1)])
         (use Suc.prems onward_remaining [OF w1(1), of deadline] w1(2) [OF that] in linarith)
    have waited: "ends clk got intr w (?go sent w3) \<and> onward clk got intr w w3" if pos: "0 < deadline - now"
    proof -
      note w3 = duplex_wait [OF c pos wt]
      have on3: "onward clk got intr w w3" by (rule onward_trans [OF on2 w3(2)])
      have "ends clk got intr w3 (?go sent w3)"
      proof (rule Suc.IH)
        have "nat (deadline - clk w3) < nat (deadline - clk w)"
          using w3(1) w2(1,2) pos w1(1) by (simp add: onward_def)
        then show "length data - sent + intr w3 + nat (deadline - clk w3) < fuel"
          using Suc.prems onward_intr [OF on3] by linarith
      qed
      from ends_onward [OF this on3] on3 show ?thesis by simp
    qed
    define quiet where "quiet = (if deadline - now \<le> 0 then Some (Inr sent, w2)
      else case res of Inl e \<Rightarrow> Some (Inl e, w3)
           | Inr result \<Rightarrow> if result = TimedOut then Some (Inr sent, w3) else ?go sent w3)"
    have step: "posix_write_loop (Suc fuel) os fd data False deadline sent w =
        (case count of Inr (Suc k) \<Rightarrow> ?go (sent + Suc k) w1 | Inr 0 \<Rightarrow> quiet
         | Inl e \<Rightarrow> if e = EINTR then ?go sent w1
             else if e \<noteq> EAGAIN \<and> e \<noteq> EWOULDBLOCK
             then Some (Inl (os_fail os ''writing to the serial port'' e), w1) else quiet)"
      by (subst posix_write_loop.simps(2))
         (simp add: True wr n wt quiet_def Let_def del: posix_write_loop.simps split: sum.split nat.split)
    have quiet: "ends clk got intr w quiet"
      using on2 waited by (simp add: quiet_def split: sum.split)
    show ?thesis
      unfolding step using sent signal quiet w1(1) by (simp split: sum.split nat.split)
  qed
qed

lemma posix_write_ends:
  assumes c: "posix_duplex os clk got acc intr" and "0 < timeout"
    and "length data + intr w + nat (ns_of_ms timeout) < fuel"
  shows "ends clk got intr w (posix_write fuel os sp data timeout w)"
proof -
  obtain now w1 where n: "sys_now os w = (now, w1)" by (cases "sys_now os w")
  note now = duplex_now [OF c n]
  have "ends clk got intr w1 (posix_write_loop fuel os (port_fd sp) data False (now + ns_of_ms timeout) 0 w1)"
    by (rule write_loop_ends [OF c])
       (use assms(3) onward_intr [OF now(3)] nat_mono [of "now + ns_of_ms timeout - clk w1" "ns_of_ms timeout"] now(2)
        in simp)
  then show ?thesis using assms(2) n ends_onward [OF _ now(3)] by (simp add: posix_write_def)
qed

section \<open>Drains end\<close>

lemma outq_loop_ends:
  assumes c: "posix_duplex os clk got acc intr" and b: "0 < byteTime"
  shows "nat (deadline - clk w) < fuel \<Longrightarrow> ends clk got intr w (outq_loop fuel os fd False deadline byteTime w)"
proof (induction fuel arbitrary: w)
  case 0
  then show ?case by simp
next
  case (Suc fuel)
  obtain q w1 where q: "sys_outq os fd w = (q, w1)" by (cases "sys_outq os fd w")
  note w1 = duplex_outq [OF c q]
  obtain now w2 where n: "sys_now os w1 = (now, w2)" by (cases "sys_now os w1")
  note w2 = duplex_now [OF c n]
  have on2: "onward clk got intr w w2" by (rule onward_trans [OF w1 w2(3)])
  have again: "ends clk got intr w (outq_loop fuel os fd False deadline byteTime (sys_sleep_for os (byteTime * int (Suc k)) w2))"
    if "now < deadline" for k
  proof -
    have d: "0 < byteTime * int (Suc k)" using b by simp
    note w3 = duplex_sleep [OF c d, of w2]
    have "nat (deadline - clk (sys_sleep_for os (byteTime * int (Suc k)) w2)) < nat (deadline - clk w)"
      using that w3(2) w1 w2(1,2) by (simp del: of_nat_Suc add: onward_def)
    then show ?thesis
      by (intro ends_onward [OF Suc.IH onward_trans [OF on2 w3(1)]]) (use Suc.prems in linarith)
  qed
  show ?case
    using q n on2 w1 again by (auto simp: Let_def not_le simp del: of_nat_Suc split: option.split nat.split)
qed

lemma tcdrain_loop_ends:
  assumes c: "posix_duplex os clk got acc intr"
  shows "intr w < fuel \<Longrightarrow> ends clk got intr w (tcdrain_loop fuel os fd w)"
proof (induction fuel arbitrary: w)
  case (Suc fuel)
  obtain e w1 where e: "sys_tcdrain os fd w = (e, w1)" by (cases "sys_tcdrain os fd w")
  note w1 = duplex_tcdrain [OF c e]
  have "ends clk got intr w (tcdrain_loop fuel os fd w1)" if "e = Some EINTR"
    by (rule ends_onward [OF Suc.IH w1(1)]) (use w1(2) [OF that] Suc.prems in simp)
  then show ?case using e w1(1) by (auto split: option.split)
qed simp

lemma posix_drain_ends:
  assumes c: "posix_duplex os clk got acc intr" and "0 < timeout" and "0 < byte_time (port_baudrate sp)"
    and "intr w + nat (ns_of_ms timeout) < fuel"
  shows "ends clk got intr w (posix_drain fuel os b sp timeout w)"
proof -
  obtain now w1 where n: "sys_now os w = (now, w1)" by (cases "sys_now os w")
  note now = duplex_now [OF c n]
  have "ends clk got intr w1 (outq_loop fuel os (port_fd sp) False (now + ns_of_ms timeout) (byte_time (port_baudrate sp)) w1)"
    by (rule outq_loop_ends [OF c assms(3)])
       (use assms(4) nat_mono [of "now + ns_of_ms timeout - clk w1" "ns_of_ms timeout"] now(2) in simp)
  from ends_onward [OF this now(3)]
  obtain d w2 where d: "(if has_TIOCOUTQ b
         then let (now, w) = sys_now os w
              in outq_loop fuel os (port_fd sp) (timeout = 0) (now + ns_of_ms timeout)
                   (byte_time (port_baudrate sp)) w
         else Some (True, w)) = Some (d, w2)" and on: "onward clk got intr w w2"
    using n assms(2) by (cases "has_TIOCOUTQ b") auto
  have "ends clk got intr w2 (tcdrain_loop fuel os (port_fd sp) w2)"
    by (rule tcdrain_loop_ends [OF c]) (use on assms(4) in \<open>simp add: onward_def\<close>)
  then show ?thesis unfolding posix_drain_def Let_def
    using d on onward_trans [OF on] by (cases d) (auto simp: Let_def split: sum.split)
qed

section \<open>Reads leave the output alone\<close>

lemma wait_keeps_sent:
  assumes c: "posix_duplex os clk got acc intr"
  shows "waitReady os fd ev remaining context w = (r, w') \<Longrightarrow> acc w' = acc w"
  by (rule accepts_waitReady [OF duplex_contracts(2) [OF c]])

lemma read_loop_keeps_sent:
  assumes c: "posix_duplex os clk got acc intr"
  shows "posix_read_loop fuel os fd sz deadline received pr w = Some (r, w') \<Longrightarrow>
    acc w' = acc w \<and> intr w' \<le> intr w \<and> prefix (got w) (got w')"
proof (induction fuel arbitrary: received pr w)
  case 0
  then show ?case by simp
next
  case (Suc fuel)
  note a = accepts_other(1) [OF duplex_contracts(2) [OF c]]
  have quiet: "acc w' = acc w2 \<and> intr w' \<le> intr w2 \<and> prefix (got w2) (got w')"
    if "after_nothing fuel os fd sz deadline received w2 = Some (r, w')" for w2
  proof -
    obtain now w3 where n: "sys_now os w2 = (now, w3)" by (cases "sys_now os w2")
    obtain res w4 where wt: "waitReady os fd POLLIN (deadline - now) ''waiting for serial input'' w3 = (res, w4)"
      by (cases "waitReady os fd POLLIN (deadline - now) ''waiting for serial input'' w3")
    show ?thesis
    proof (cases "deadline - now \<le> 0")
      case True
      then show ?thesis using that n a [OF n] duplex_now(3) [OF c n] by (simp add: after_nothing_def onward_def)
    next
      case False
      then have "acc w4 = acc w2" "intr w4 \<le> intr w2" "got w4 = got w2"
        using a [OF n] wait_keeps_sent [OF c wt] duplex_now(3) [OF c n] duplex_wait(2) [OF c _ wt]
        by (simp_all add: onward_def)
      then show ?thesis
        using that n wt False Suc.IH [of _ _ w4]
        by (fastforce simp: after_nothing_def split: sum.splits if_splits)
    qed
  qed
  show ?case
  proof (cases "length received < sz")
    case False
    then show ?thesis using Suc.prems by (simp add: read_loop_full)
  next
    case True
    obtain count w1 where rd: "sys_read os fd (sz - length received) w = (count, w1)"
      by (cases "sys_read os fd (sz - length received) w")
    have w1: "acc w1 = acc w" "intr w1 \<le> intr w" "prefix (got w) (got w1)"
      using duplex_read [OF c rd] contract_read(2,4,6) [OF duplex_contracts(1) [OF c] rd] by (cases count; simp)+
    have run: "after_nothing fuel os fd sz deadline received w1 = Some (r, w')
        \<or> (\<exists>rec pr. posix_read_loop fuel os fd sz deadline rec pr w1 = Some (r, w')) \<or> w' = w1"
      using Suc.prems [unfolded read_loop_step [OF True rd]]
      by (auto split: sum.splits list.splits if_splits)
    then show ?thesis
    proof (elim disjE exE)
      fix rec pr
      assume "posix_read_loop fuel os fd sz deadline rec pr w1 = Some (r, w')"
      from Suc.IH [OF this] w1 show ?thesis by (auto intro: prefix_order.trans)
    next
      assume "after_nothing fuel os fd sz deadline received w1 = Some (r, w')"
      then have "acc w' = acc w1 \<and> intr w' \<le> intr w1 \<and> prefix (got w1) (got w')" by (rule quiet)
      with w1 show ?thesis by (auto intro: prefix_order.trans)
    next
      assume "w' = w1"
      with w1 show ?thesis by simp
    qed
  qed
qed

lemma posix_read_keeps_sent:
  assumes c: "posix_duplex os clk got acc intr" and "posix_read fuel os sp sz timeout w = Some (r, w')"
  shows "acc w' = acc w" "intr w' \<le> intr w" "prefix (got w) (got w')"
proof -
  obtain now w1 where n: "sys_now os w = (now, w1)" by (cases "sys_now os w")
  show "acc w' = acc w" "intr w' \<le> intr w" "prefix (got w) (got w')"
    using assms(2) n read_loop_keeps_sent [OF c, of fuel "port_fd sp" sz "now + ns_of_ms timeout" "[]" False w1 r w']
      accepts_other(1) [OF duplex_contracts(2) [OF c] n] duplex_now(3) [OF c n]
    by (auto simp: posix_read_def onward_def)
qed

lemma tty_duplex: "posix_duplex tty_os tty_clock tty_got tty_sent (\<lambda>t. 0)"
  unfolding posix_duplex_def
  by (intro conjI tty_contract tty_accepts) (auto simp: tty_os_def tty_read_def onward_def Let_def split: if_splits)

end
