(* ===== verification/NanoReturns.thy ===== *)
theory NanoReturns
  imports NanoSafety
begin

text \<open>
  What the client of nanomodbus.c asks of its transport: reads of at most a buffer's bytes with
  one of its two timeouts, and writes of at most a buffer's bytes. The locale \<open>steady_port\<close> is a
  transport that keeps a condition \<open>good\<close> of its argument under such calls; the operations of the
  client then keep it too.
\<close>

locale steady_port =
  fixes conf :: "'p platform_conf" and good :: "'p \<Rightarrow> bool" and longest :: int
  assumes longest: "0 \<le> longest"
    and read_good: "good a \<Longrightarrow> c \<le> kBufSize \<Longrightarrow> t \<le> longest \<Longrightarrow> pread conf c t a = (r, bs, a') \<Longrightarrow> good a'"
    and write_good: "good a \<Longrightarrow> length bs \<le> kBufSize \<Longrightarrow> pwrite conf bs t a = (r, a') \<Longrightarrow> good a'"
begin

definition steady :: "'p nmbs_t \<Rightarrow> bool" where
  "steady n \<longleftrightarrow> platform n = conf \<and> length (buf n) = kBufSize \<and> byte_timeout_ms n \<le> longest \<and>
     read_timeout_ms n \<le> longest \<and> good (arg n)"

definition keeps :: "('p, 'a) nm \<Rightarrow> bool" where
  "keeps m \<longleftrightarrow> nm_spec steady m (\<lambda>_. steady)"

lemma keeps_return: "keeps (nm_return x)"
  by (simp add: keeps_def nm_spec_def)

lemma keeps_asks: "keeps (asks f)"
  by (simp add: keeps_def nm_spec_def)

lemma keeps_bind: "keeps m \<Longrightarrow> (\<And>x. keeps (f x)) \<Longrightarrow> keeps (m \<bind> f)"
  unfolding keeps_def by (rule nm_spec_bind)

lemma keeps_if: "(c \<Longrightarrow> keeps a) \<Longrightarrow> (\<not> c \<Longrightarrow> keeps b) \<Longrightarrow> keeps (if c then a else b)"
  by simp

lemma keeps_prod: "(\<And>a b. keeps (f a b)) \<Longrightarrow> keeps (case p of (a, b) \<Rightarrow> f a b)"
  by (cases p) simp

lemma keeps_on_ok: "keeps m \<Longrightarrow> keeps r \<Longrightarrow> keeps (on_ok m r)"
  unfolding on_ok_def by (intro keeps_bind keeps_if keeps_return)

lemma keeps_modify: "(\<And>n. steady n \<Longrightarrow> steady (f n)) \<Longrightarrow> keeps (modify f)"
  by (simp add: keeps_def nm_spec_def)

lemma length_store: "length (buf (store_at i bs n)) = length (buf n)"
  by (auto simp: store_at_def touch_def)

lemma steady_store: "steady n \<Longrightarrow> steady (store_at i bs n)"
  using length_store [of i bs n] by (simp add: steady_def) (simp add: store_at_def touch_def)

lemma steady_touch: "steady n \<Longrightarrow> steady (touch i k n)"
  by (simp add: steady_def touch_def)

lemma steady_idx: "steady n \<Longrightarrow> steady (n\<lparr>buf_idx := i\<rparr>)"
  by (simp add: steady_def)

lemmas steady_rules = steady_idx steady_store steady_touch

lemma keeps_get_1: "keeps get_1"
  by (auto simp: keeps_def nm_spec_def get_1_def intro: steady_rules)

lemma keeps_get_2: "keeps get_2"
  by (auto simp: keeps_def nm_spec_def get_2_def intro: steady_rules)

lemma keeps_put_1: "keeps (put_1 d)"
  unfolding put_1_def by (intro keeps_modify steady_rules)

lemma keeps_put_2: "keeps (put_2 d)"
  unfolding put_2_def by (intro keeps_modify steady_rules)

lemma keeps_get_2s: "keeps (get_2s k)"
  by (induction k) (auto intro!: keeps_return keeps_bind keeps_get_2)

lemma keeps_put_2s: "keeps (put_2s rs)"
  by (induction rs) (auto intro!: keeps_return keeps_bind keeps_put_2)

lemma keeps_recv: "c \<le> kBufSize \<Longrightarrow> keeps (recv c)"
  unfolding keeps_def
proof (rule nm_specI)
  fix n r n'
  assume c: "c \<le> kBufSize" and n: "steady n" and run: "run_state (recv c) n = (r, n')"
  obtain x bs a where p: "pread conf c (byte_timeout_ms n) (arg n) = (x, bs, a)"
    by (cases "pread conf c (byte_timeout_ms n) (arg n)")
  have "good a" using n read_good [OF _ c _ p] by (simp add: steady_def)
  then have "steady (store_at (buf_idx n) bs (n\<lparr>arg := a\<rparr>))"
    using n by (intro steady_store) (simp add: steady_def)
  moreover have "platform n = conf" using n by (simp add: steady_def)
  ultimately show "steady n'"
    using run n by (auto simp: recv_def p Let_def split: if_splits)
qed

lemma keeps_send: "keeps (send c)"
  unfolding keeps_def
proof (rule nm_specI)
  fix n r n'
  assume n: "steady n" and run: "run_state (send c) n = (r, n')"
  obtain x a where p: "pwrite conf (take c (buf n)) (byte_timeout_ms n) (arg n) = (x, a)"
    by (cases "pwrite conf (take c (buf n)) (byte_timeout_ms n) (arg n)")
  have "good a" using n write_good [OF _ _ p] by (simp add: steady_def)
  then have "steady (touch 0 c (n\<lparr>arg := a\<rparr>))"
    using n by (intro steady_touch) (simp add: steady_def)
  moreover have "platform n = conf" using n by (simp add: steady_def)
  ultimately show "steady n'"
    using run by (auto simp: send_def p Let_def split: if_splits)
qed

lemma keeps_flush: "keeps flush"
  unfolding flush_def
proof (rule keeps_modify)
  fix n assume n: "steady n"
  obtain x bs a where p: "pread conf kBufSize 0 (arg n) = (x, bs, a)"
    by (cases "pread conf kBufSize 0 (arg n)")
  have "good a" using n read_good [OF _ _ longest p] by (simp add: steady_def)
  then have "steady (store_at 0 bs (n\<lparr>arg := a\<rparr>))"
    using n by (intro steady_store) (simp add: steady_def)
  moreover have "platform n = conf" using n by (simp add: steady_def)
  ultimately show "steady (let (ret, bs, a) = pread (platform n) kBufSize 0 (arg n) in store_at 0 bs (n\<lparr>arg := a\<rparr>))"
    by (simp add: p)
qed

text \<open>The header swaps the byte timeout for the read timeout and puts it back.\<close>

lemma keeps_saved_timeout: "(\<And>x. x \<le> longest \<Longrightarrow> keeps (f x)) \<Longrightarrow> keeps (asks byte_timeout_ms \<bind> f)"
  by (simp add: keeps_def nm_spec_def steady_def)

lemmas keeps_rules = keeps_saved_timeout keeps_if keeps_prod keeps_on_ok keeps_bind keeps_return keeps_asks
  keeps_get_1 keeps_get_2 keeps_put_1 keeps_put_2 keeps_get_2s keeps_put_2s keeps_recv keeps_send keeps_flush
  keeps_modify

lemma keeps_msg_buf_reset: "keeps msg_buf_reset"
  unfolding msg_buf_reset_def by (intro keeps_modify steady_idx)

lemma keeps_msg_state_reset: "keeps msg_state_reset"
  unfolding msg_state_reset_def
  by (rule keeps_msg_buf_reset keeps_rules | simp add: steady_def)+

lemma byte_fits: "unat (b :: u8) \<le> kBufSize"
  using unsigned_less [of b, where 'a = nat] by (simp add: kBufSize_def)

lemma mbap_fits: "\<not> (unat l < 2 \<or> unat l > 255) \<Longrightarrow> unat l - 2 \<le> kBufSize"
  unfolding kBufSize_def by linarith

lemma keeps_discard_1: "keeps discard_1"
  unfolding discard_1_def by (intro keeps_modify steady_idx)

lemma keeps_recv_msg_header: "keeps recv_msg_header"
  unfolding recv_msg_header_def
  by (rule keeps_msg_state_reset keeps_msg_buf_reset keeps_discard_1 keeps_rules
      | (rule mbap_fits, assumption) | (simp add: kBufSize_def; fail) | (simp add: steady_def; fail))+

lemma keeps_footer: "keeps recv_msg_footer"
  unfolding recv_msg_footer_def
  by (rule keeps_rules steady_touch | assumption | simp add: kBufSize_def)+

lemma keeps_recv_res_header: "keeps recv_res_header"
  unfolding recv_res_header_def
  by (rule keeps_recv_msg_header keeps_footer keeps_rules | simp add: kBufSize_def)+

lemma keeps_send_msg: "keeps send_msg"
  unfolding send_msg_def
  by (rule keeps_rules steady_touch | assumption)+

lemma keeps_put_req_header: "keeps (put_req_header l)"
  unfolding put_req_header_def put_msg_header_def
  by (rule keeps_msg_buf_reset keeps_rules)+

lemma keeps_msg_state_req: "keeps (msg_state_req f)"
  unfolding msg_state_req_def
  by (rule keeps_msg_state_reset keeps_rules | simp add: steady_def)+

lemmas frame_keeps = keeps_recv_res_header keeps_footer keeps_send_msg keeps_put_req_header keeps_msg_state_req
  keeps_rules

lemma keeps_recv_registers: "keeps (recv_read_registers_res q rs)"
  unfolding recv_read_registers_res_def
  by (rule frame_keeps byte_fits | simp add: kBufSize_def)+

lemma keeps_recv_echo: "keeps (recv_echo_res a v)"
  unfolding recv_echo_res_def
  by (rule frame_keeps | simp add: kBufSize_def)+

text \<open>The three operations the SDK uses.\<close>

lemma keeps_read_holding: "keeps (nmbs_read_holding_registers a q rs)"
  unfolding nmbs_read_holding_registers_def read_registers_def
  by (rule keeps_recv_registers frame_keeps)+

lemma keeps_write_registers: "keeps (nmbs_write_multiple_registers a q rs)"
  unfolding nmbs_write_multiple_registers_def recv_write_multiple_registers_res_def Let_def unless_broadcast_def
  by (rule keeps_recv_echo frame_keeps)+

lemma keeps_read_write: "keeps (nmbs_read_write_registers ra rq out wa wq rs)"
  unfolding nmbs_read_write_registers_def Let_def
  by (rule keeps_recv_registers frame_keeps)+

lemma keepsD: "keeps m \<Longrightarrow> steady n \<Longrightarrow> steady (snd (run_state m n))"
  by (cases "run_state m n") (auto simp: keeps_def dest: nm_specD)

end

end
