(* ===== verification/DesktopLink.thy ===== *)
theory DesktopLink
  imports PosixDuplex LinkProperties NanoReturns
begin

text \<open>
  The driver's whole path on a POSIX desktop: the Modbus client, its callbacks, \<open>DefaultSerial\<close>, the
  serial port and the system calls. \<open>desktop_serial\<close> is \<open>DefaultSerial\<close> as the \<open>Serial\<close> the client
  holds. The interpretations \<open>desktop\<close> and \<open>desktop_returns\<close> carry the proofs.
\<close>

section \<open>The serial of the client\<close>

text \<open>
  The driver's state with the operating system behind it. \<open>None\<close>: a call has not come back within the
  fuel of the port's loops, so nothing after it happens.
\<close>

type_synonym ('p, 'o) desktop = "('p DefaultSerial \<times> 'o) option"

definition desktop_call ::
  "('p DefaultSerial \<Rightarrow> 'o \<Rightarrow> ((exc + 'a) \<times> 'p DefaultSerial \<times> 'o) option) \<Rightarrow> ('p, 'o) desktop
     \<Rightarrow> (exc + 'a) \<times> ('p, 'o) desktop" where
  "desktop_call f s =
     (case s of None \<Rightarrow> (Inl UnknownException, None)
      | Some (d, w) \<Rightarrow> (case f d w of None \<Rightarrow> (Inl UnknownException, None) | Some (r, s) \<Rightarrow> (r, Some s)))"

definition desktop_serial ::
  "target \<Rightarrow> ('p, 'o) port_ops \<Rightarrow> 'o file_ops \<Rightarrow> ('p, 'o) desktop serial_ops" where
  "desktop_serial t ops fs =
     \<lparr>s_open = desktop_call (\<lambda>d w. Some (ds_open t ops fs d w)),
      s_isOpen = (\<lambda>s. case s of None \<Rightarrow> False | Some (d, w) \<Rightarrow> ds_isOpen d),
      s_read = (\<lambda>count timeout. desktop_call (\<lambda>d w. ds_read ops d count timeout w)),
      s_write = (\<lambda>data. desktop_call (\<lambda>d w. ds_write ops d data w)),
      s_getTimeout = (\<lambda>s. case s of None \<Rightarrow> 0 | Some (d, w) \<Rightarrow> ds_getTimeout d)\<rparr>"

abbreviation desktop_conf where
  "desktop_conf t fuel os b fs \<equiv> serial_conf (desktop_serial t (posix_port fuel os b) fs)"

section \<open>What a call does to the terminal\<close>

lemma baud_byte_time:
  assumes "baudConstant b baudrate \<noteq> None" shows "0 < byte_time baudrate"
proof -
  have "baudrate \<in> {1200, 2400, 4800, 9600, 19200, 38400, 57600, 115200, 230400, 460800, 500000, 921600, 1000000}"
    using assms by (auto simp: baudConstant_def split: if_splits)
  then show ?thesis by (auto simp: byte_time_def kWireBitsPerByte_def)
qed

lemma ds_read_wire:
  assumes c: "posix_duplex os clk got acc intr" and p: "ds_port d = Some p"
    and run: "ds_read (posix_port fuel os b) d sz timeout w = Some (r, d', w')"
  shows "d' = d" "acc w' = acc w" "intr w' \<le> intr w" "prefix (got w) (got w')"
    "r = Inr bs \<Longrightarrow> got w' = got w @ bs" "r = Inr bs \<Longrightarrow> length bs \<le> sz"
proof -
  have rd: "posix_read fuel os p sz timeout w = Some (r, w')" and d': "d' = d\<lparr>ds_port := Some p\<rparr>"
    using run p by (auto simp: ds_read_def posix_port_def split: option.splits)
  from d' p show "d' = d" by simp
  show "acc w' = acc w" "intr w' \<le> intr w" "prefix (got w) (got w')"
    by (fact posix_read_keeps_sent [OF c rd])+
  obtain now w1 where n: "sys_now os w = (now, w1)" by (cases "sys_now os w")
  show "got w' = got w @ bs" "length bs \<le> sz" if r: "r = Inr bs"
    using read_loop_delivers [OF duplex_contracts(1) [OF c], of fuel "port_fd p" sz "now + ns_of_ms timeout" "[]" False w1 bs w']
      rd r n duplex_now(3) [OF c n] by (auto simp: posix_read_def onward_def)
qed

lemma ds_read_returns:
  assumes c: "posix_duplex os clk got acc intr" and p: "ds_port d = Some p"
    and fuel: "sz + intr w + nat (ns_of_ms timeout) < fuel"
  shows "\<exists>r d' w'. ds_read (posix_port fuel os b) d sz timeout w = Some (r, d', w')"
proof -
  obtain now w1 where n: "sys_now os w = (now, w1)" by (cases "sys_now os w")
  note now = duplex_now [OF c n]
  have "sz - length [] + intr w1 + nat (now + ns_of_ms timeout - clk w1) < fuel"
    using fuel onward_intr [OF now(3)] nat_mono [of "now + ns_of_ms timeout - clk w1" "ns_of_ms timeout"] now(2)
    by simp
  from read_loop_total [OF duplex_contracts(1) [OF c] this, of "port_fd p" False]
  obtain r w' where "posix_read fuel os p sz timeout w = Some (r, w')" using n by (auto simp: posix_read_def)
  then show ?thesis using p by (simp add: ds_read_def posix_port_def)
qed

lemma ds_write_wire:
  assumes c: "posix_duplex os clk got acc intr" and p: "ds_port d = Some p"
    and ms: "0 < cfg_timeout (ds_config d)" and baud: "baudConstant b (port_baudrate p) \<noteq> None"
    and fuel: "length data + intr w + nat (ns_of_ms (cfg_timeout (ds_config d))) < fuel"
  shows "\<exists>r w'. ds_write (posix_port fuel os b) d data w = Some (r, d, w') \<and> got w' = got w \<and>
    intr w' \<le> intr w \<and> (r = Inr () \<longrightarrow> acc w' = acc w @ data)"
proof -
  let ?ms = "cfg_timeout (ds_config d)"
  obtain r1 w1 where w1: "posix_write fuel os p data ?ms w = Some (r1, w1)" "onward clk got intr w w1"
    using posix_write_ends [OF c ms fuel] by blast
  have "intr w1 + nat (ns_of_ms ?ms) < fuel" using fuel onward_intr [OF w1(2)] by linarith
  then obtain r2 w2 where w2: "posix_drain fuel os b p ?ms w1 = Some (r2, w2)" "onward clk got intr w1 w2"
    using posix_drain_ends [OF c ms baud_byte_time [OF baud]] by blast
  have d: "d\<lparr>ds_port := Some p\<rparr> = d" using p by simp
  have "\<exists>r w'. ds_write (posix_port fuel os b) d data w = Some (r, d, w') \<and> (w' = w1 \<or> w' = w2)"
    by (cases r1; cases r2; simp add: ds_write_def posix_port_def Let_def p w1(1) w2(1) d)
  then obtain r w' where run: "ds_write (posix_port fuel os b) d data w = Some (r, d, w')" and w': "w' = w1 \<or> w' = w2"
    by blast
  have "onward clk got intr w w'" using w' w1(2) onward_trans [OF w1(2) w2(2)] by blast
  moreover have "acc w' = acc w @ data" if "r = Inr ()"
    using ds_write_sends [OF duplex_contracts(2) [OF c] run] that by auto
  ultimately show ?thesis using run by (auto simp: onward_def)
qed

section \<open>What a call of the client does\<close>

text \<open>
  \<open>desk_good\<close>: the port is open, the timeout is not zero (which would mean to wait without end), and
  the fuel covers a message, the signals still to come and every nanosecond of the longest timeout.
\<close>

definition longest_wait :: "millis \<Rightarrow> millis" where
  "longest_wait ms = max ms kByteTimeoutMs"

definition desk_good ::
  "'o posix_os \<Rightarrow> ('o \<Rightarrow> time) \<Rightarrow> ('o \<Rightarrow> u8 list) \<Rightarrow> ('o \<Rightarrow> u8 list) \<Rightarrow> ('o \<Rightarrow> nat) \<Rightarrow> nat \<Rightarrow> posix_build
     \<Rightarrow> SerialPort \<Rightarrow> millis \<Rightarrow> (SerialPort, 'o) desktop CallbackContext \<Rightarrow> bool" where
  "desk_good os clk got acc intr fuel b p ms ctx \<longleftrightarrow>
     posix_duplex os clk got acc intr \<and> 0 < ms \<and> baudConstant b (port_baudrate p) \<noteq> None
   \<and> (\<exists>d w. serial ctx = Some (d, w) \<and> ds_port d = Some p \<and> cfg_timeout (ds_config d) = ms
        \<and> kBufSize + intr w + nat (ns_of_ms (longest_wait ms)) < fuel)"

text \<open>The bytes that went out and came in between two states.\<close>

definition wire_moved ::
  "('o \<Rightarrow> u8 list) \<Rightarrow> ('o \<Rightarrow> u8 list) \<Rightarrow> u8 list \<Rightarrow> (u8 list \<Rightarrow> bool)
     \<Rightarrow> ('p, 'o) desktop CallbackContext \<Rightarrow> ('p, 'o) desktop CallbackContext \<Rightarrow> bool" where
  "wire_moved got acc sent received ctx ctx' \<longleftrightarrow>
     (\<exists>d w d' w' new. serial ctx = Some (d, w) \<and> serial ctx' = Some (d', w')
        \<and> acc w' = acc w @ sent \<and> got w' = got w @ new \<and> received new)"

lemma readSerial_desktop:
  assumes g: "desk_good os clk got acc intr fuel b p ms ctx"
    and run: "pread (desktop_conf t fuel os b fs) sz timeout ctx = (x, bs, ctx')"
  shows "sz \<le> kBufSize \<Longrightarrow> timeout \<le> longest_wait ms \<Longrightarrow> serial ctx' \<noteq> None"
    and "serial ctx' \<noteq> None \<Longrightarrow> desk_good os clk got acc intr fuel b p ms ctx' \<and>
      wire_moved got acc [] (\<lambda>new. True) ctx ctx'"
    and "x = int sz \<Longrightarrow> length bs = sz \<and> serial ctx' \<noteq> None \<and> wire_moved got acc [] (\<lambda>new. new = bs) ctx ctx'"
proof -
  obtain d w where dw: "serial ctx = Some (d, w)" "ds_port d = Some p" "cfg_timeout (ds_config d) = ms"
      "kBufSize + intr w + nat (ns_of_ms (longest_wait ms)) < fuel"
    and c: "posix_duplex os clk got acc intr" and ok: "0 < ms" "baudConstant b (port_baudrate p) \<noteq> None"
    using g by (auto simp: desk_good_def)
  define res where "res = ds_read (posix_port fuel os b) d sz timeout w"
  have call: "s_read (desktop_serial t (posix_port fuel os b) fs) sz timeout (serial ctx) =
      (case res of None \<Rightarrow> (Inl UnknownException, None) | Some (r, s) \<Rightarrow> (r, Some s))"
    by (simp add: desktop_serial_def desktop_call_def dw(1) res_def)
  have pr: "readSerial (desktop_serial t (posix_port fuel os b) fs) sz timeout ctx = (x, bs, ctx')"
    using run by (simp add: serial_conf_def)
  show "serial ctx' \<noteq> None" if "sz \<le> kBufSize" "timeout \<le> longest_wait ms"
  proof -
    have "nat (ns_of_ms timeout) \<le> nat (ns_of_ms (longest_wait ms))" using that(2) by (simp add: ns_of_ms_def)
    then have "sz + intr w + nat (ns_of_ms timeout) < fuel" using dw(4) that(1) by linarith
    from ds_read_returns [OF c dw(2) this] obtain y where "res = Some y" unfolding res_def by fast
    then show ?thesis using pr call
      by (cases y) (auto simp: readSerial_def Let_def context_log_def split: sum.splits if_splits)
  qed
  {
    assume "serial ctx' \<noteq> None"
    then obtain r d' w' where res: "res = Some (r, d', w')"
      using pr call by (cases res) (auto simp: readSerial_def context_log_def)
    note wire = ds_read_wire [OF c dw(2) res [unfolded res_def]]
    have s': "serial ctx' = Some (d, w')"
      using pr call res wire(1) by (auto simp: readSerial_def Let_def context_log_def split: sum.splits if_splits)
    have "desk_good os clk got acc intr fuel b p ms ctx'"
      using c ok dw s' wire(3) by (auto simp: desk_good_def)
    moreover have "wire_moved got acc [] (\<lambda>new. True) ctx ctx'"
      using dw(1) s' wire(2,4) by (auto simp: wire_moved_def prefix_def)
    ultimately show "desk_good os clk got acc intr fuel b p ms ctx' \<and> wire_moved got acc [] (\<lambda>new. True) ctx ctx'" ..
  }
  assume x: "x = int sz"
  then obtain data d' w' where res: "res = Some (Inr data, d', w')"
    using pr call by (cases res) (auto simp: readSerial_def Let_def split: sum.splits if_splits)
  have "length data \<le> sz" by (rule ds_read_wire(6) [OF c dw(2) res [unfolded res_def] HOL.refl])
  then have len: "length bs = sz" and same: "data = bs"
    using pr call res x by (auto simp: readSerial_def Let_def min_def split: if_splits)
  note res = res [unfolded same]
  note wire = ds_read_wire [OF c dw(2) res [unfolded res_def]]
  have s': "serial ctx' = Some (d, w')"
    using pr call res wire(1) by (auto simp: readSerial_def Let_def context_log_def split: if_splits)
  then show "length bs = sz \<and> serial ctx' \<noteq> None \<and> wire_moved got acc [] (\<lambda>new. new = bs) ctx ctx'"
    using len dw(1) wire(2,5) by (auto simp: wire_moved_def)
qed

lemma writeSerial_desktop:
  assumes g: "desk_good os clk got acc intr fuel b p ms ctx" and len: "length bs \<le> kBufSize"
    and run: "pwrite (desktop_conf t fuel os b fs) bs timeout ctx = (x, ctx')"
  shows "desk_good os clk got acc intr fuel b p ms ctx'"
    and "x = int (length bs) \<Longrightarrow> wire_moved got acc bs (\<lambda>new. new = []) ctx ctx'"
proof -
  obtain d w where dw: "serial ctx = Some (d, w)" "ds_port d = Some p" "cfg_timeout (ds_config d) = ms"
      "kBufSize + intr w + nat (ns_of_ms (longest_wait ms)) < fuel"
    and c: "posix_duplex os clk got acc intr" and ok: "0 < ms" "baudConstant b (port_baudrate p) \<noteq> None"
    using g by (auto simp: desk_good_def)
  have "nat (ns_of_ms ms) \<le> nat (ns_of_ms (longest_wait ms))" by (simp add: ns_of_ms_def longest_wait_def)
  then have "length bs + intr w + nat (ns_of_ms ms) < fuel" using dw(4) len by linarith
  then obtain r w' where r: "ds_write (posix_port fuel os b) d bs w = Some (r, d, w')"
      "got w' = got w" "intr w' \<le> intr w" "r = Inr () \<Longrightarrow> acc w' = acc w @ bs"
    using ds_write_wire [OF c dw(2), of b bs w fuel] ok dw(3) by auto
  have pr: "writeSerial (desktop_serial t (posix_port fuel os b) fs) bs timeout ctx = (x, ctx')"
    using run by (simp add: serial_conf_def)
  have call: "s_write (desktop_serial t (posix_port fuel os b) fs) bs (serial ctx) = (r, Some (d, w'))"
    by (simp add: desktop_serial_def desktop_call_def dw(1) r(1))
  have s': "serial ctx' = Some (d, w')"
    using pr call by (auto simp: writeSerial_def context_log_def split: sum.splits)
  show "desk_good os clk got acc intr fuel b p ms ctx'"
    using c ok dw s' r(3) by (auto simp: desk_good_def)
  assume x: "x = int (length bs)"
  have "r = Inr ()" using pr call x by (cases r) (auto simp: writeSerial_def)
  then show "wire_moved got acc bs (\<lambda>new. new = []) ctx ctx'"
    using dw(1) s' r(2,4) by (auto simp: wire_moved_def)
qed

lemma wire_moved_trans:
  assumes "wire_moved got acc xs P a a'" and "wire_moved got acc ys Q a' a''"
  shows "wire_moved got acc (xs @ ys) (\<lambda>new. \<exists>us vs. new = us @ vs \<and> P us \<and> Q vs) a a''"
  using assms by (fastforce simp: wire_moved_def)

section \<open>The two interpretations\<close>

interpretation desktop_returns: steady_port "desktop_conf t fuel os b fs"
    "desk_good os clk got acc intr fuel b p ms" "longest_wait ms"
  for t :: target and fuel :: nat and os :: "'o posix_os" and b :: posix_build and fs :: "'o file_ops"
    and clk :: "'o \<Rightarrow> time" and got acc :: "'o \<Rightarrow> u8 list" and intr :: "'o \<Rightarrow> nat" and p :: SerialPort and ms :: millis
proof unfold_locales
  show "0 \<le> longest_wait ms" by (simp add: longest_wait_def kByteTimeoutMs_def)
next
  fix ctx sz timeout r bs ctx'
  assume g: "desk_good os clk got acc intr fuel b p ms ctx" and "sz \<le> kBufSize" "timeout \<le> longest_wait ms"
    and run: "pread (desktop_conf t fuel os b fs) sz timeout ctx = (r, bs, ctx')"
  then show "desk_good os clk got acc intr fuel b p ms ctx'"
    using readSerial_desktop(1,2) [OF g run] by simp
next
  fix ctx bs timeout r ctx'
  assume "desk_good os clk got acc intr fuel b p ms ctx" "length bs \<le> kBufSize"
    and "pwrite (desktop_conf t fuel os b fs) bs timeout ctx = (r, ctx')"
  then show "desk_good os clk got acc intr fuel b p ms ctx'" by (rule writeSerial_desktop(1))
qed

definition desk_took ::
  "'o posix_os \<Rightarrow> ('o \<Rightarrow> time) \<Rightarrow> ('o \<Rightarrow> u8 list) \<Rightarrow> ('o \<Rightarrow> u8 list) \<Rightarrow> ('o \<Rightarrow> nat) \<Rightarrow> nat \<Rightarrow> posix_build
     \<Rightarrow> SerialPort \<Rightarrow> millis \<Rightarrow> u8 list \<Rightarrow> (u8 list \<Rightarrow> bool)
     \<Rightarrow> (SerialPort, 'o) desktop CallbackContext \<Rightarrow> (SerialPort, 'o) desktop CallbackContext \<Rightarrow> bool" where
  "desk_took os clk got acc intr fuel b p ms sent received ctx ctx' \<longleftrightarrow>
     (desk_good os clk got acc intr fuel b p ms ctx \<longrightarrow> length sent \<le> kBufSize \<longrightarrow>
        desk_good os clk got acc intr fuel b p ms ctx' \<and> wire_moved got acc sent received ctx ctx')"

interpretation desktop: exact_port "desktop_conf t fuel os b fs"
    "\<lambda>a bs. desk_took os clk got acc intr fuel b p ms [] (\<lambda>new. new = bs) a"
    "\<lambda>a bs. desk_took os clk got acc intr fuel b p ms bs (\<lambda>new. new = []) a"
    "desk_took os clk got acc intr fuel b p ms [] (\<lambda>new. True)"
  for t :: target and fuel :: nat and os :: "'o posix_os" and b :: posix_build and fs :: "'o file_ops"
    and clk :: "'o \<Rightarrow> time" and got acc :: "'o \<Rightarrow> u8 list" and intr :: "'o \<Rightarrow> nat" and p :: SerialPort and ms :: millis
proof unfold_locales
  fix sz timeout ctx bs ctx'
  assume run: "pread (desktop_conf t fuel os b fs) sz timeout ctx = (int sz, bs, ctx')"
  have "length bs = sz"
    using run by (auto simp: serial_conf_def readSerial_def Let_def split: sum.splits prod.splits if_splits)
  then show "length bs = sz \<and> desk_took os clk got acc intr fuel b p ms [] (\<lambda>new. new = bs) ctx ctx'"
    using readSerial_desktop(2,3) [OF _ run] by (auto simp: desk_took_def)
next
  fix ctx bs ctx1 cs ctx2
  assume "desk_took os clk got acc intr fuel b p ms [] (\<lambda>new. new = bs) ctx ctx1"
    and "desk_took os clk got acc intr fuel b p ms [] (\<lambda>new. new = cs) ctx1 ctx2"
  then show "desk_took os clk got acc intr fuel b p ms [] (\<lambda>new. new = bs @ cs) ctx ctx2"
    using wire_moved_trans [of got acc "[]" "\<lambda>new. new = bs" ctx ctx1 "[]" "\<lambda>new. new = cs" ctx2]
    by (auto simp: desk_took_def)
next
  fix bs timeout ctx ctx'
  assume run: "pwrite (desktop_conf t fuel os b fs) bs timeout ctx = (int (length bs), ctx')"
  then show "desk_took os clk got acc intr fuel b p ms bs (\<lambda>new. new = []) ctx ctx'"
    using writeSerial_desktop [OF _ _ run] by (auto simp: desk_took_def)
next
  fix ctx r bs ctx'
  assume run: "pread (desktop_conf t fuel os b fs) kBufSize 0 ctx = (r, bs, ctx')"
  have "0 \<le> longest_wait ms" by (simp add: longest_wait_def kByteTimeoutMs_def)
  then show "desk_took os clk got acc intr fuel b p ms [] (\<lambda>new. True) ctx ctx'"
    using readSerial_desktop(1,2) [OF _ run] by (auto simp: desk_took_def)
qed

section \<open>The client over the wire\<close>

text \<open>
  A client as \<open>GripperModbusClient_create\<close> leaves it and every operation finds it: set up on the
  desktop's serial, its port open, its timeouts no longer than the serial's.
\<close>

definition desk_client ::
  "target \<Rightarrow> nat \<Rightarrow> 'o posix_os \<Rightarrow> posix_build \<Rightarrow> 'o file_ops \<Rightarrow> ('o \<Rightarrow> time) \<Rightarrow> ('o \<Rightarrow> u8 list) \<Rightarrow> ('o \<Rightarrow> u8 list)
     \<Rightarrow> ('o \<Rightarrow> nat) \<Rightarrow> SerialPort \<Rightarrow> millis \<Rightarrow> (SerialPort, 'o) desktop modbus_client \<Rightarrow> bool" where
  "desk_client t fuel os b fs clk got acc intr p ms n \<longleftrightarrow>
     intact (desktop_conf t fuel os b fs) n
   \<and> byte_timeout_ms n \<le> longest_wait ms \<and> read_timeout_ms n \<le> longest_wait ms
   \<and> desk_good os clk got acc intr fuel b p ms (arg n)"

lemma desk_client_steady:
  "desk_client t fuel os b fs clk got acc intr p ms n \<Longrightarrow> desktop_returns.steady t fuel os b fs clk got acc intr p ms n"
  by (simp add: desk_client_def intact_def desktop_returns.steady_def)

lemma desk_clientI:
  "intact (desktop_conf t fuel os b fs) n \<Longrightarrow> desktop_returns.steady t fuel os b fs clk got acc intr p ms n \<Longrightarrow>
     desk_client t fuel os b fs clk got acc intr p ms n"
  by (simp add: desk_client_def desktop_returns.steady_def)

end
