(* ===== verification/DesktopProperties.thy ===== *)
theory DesktopProperties
  imports DesktopLink
begin

text \<open>
  Properties of the driver's path on a POSIX desktop, with a terminal whose other end answers each
  write at once to show that they can hold.
\<close>

section \<open>A terminal that answers\<close>

definition answering_tty :: "(u8 list \<Rightarrow> u8 list) \<Rightarrow> tty posix_os" where
  "answering_tty reply = tty_os\<lparr>sys_write := (\<lambda>fd data t.
     (Inr (length data), t\<lparr>tty_sent := tty_sent t @ data,
        tty_coming := tty_coming t @ map (\<lambda>b. (tty_clock t, b)) (reply data)\<rparr>))\<rparr>"

lemma answering_duplex: "posix_duplex (answering_tty reply) tty_clock tty_got tty_sent (\<lambda>t. 0)"
  unfolding posix_duplex_def posix_contract_def posix_accepts_def
  by (auto simp: answering_tty_def tty_os_def tty_read_def tty_poll_def onward_def Let_def ns_of_ms_def max_def
        split: list.splits if_splits)

text \<open>All that is on its way has arrived.\<close>

definition arrived :: "tty \<Rightarrow> bool" where
  "arrived w \<longleftrightarrow> (\<forall>(at, b) \<in> set (tty_coming w). at \<le> tty_clock w)"

definition answering_fine :: "(SerialPort, tty) desktop CallbackContext \<Rightarrow> bool" where
  "answering_fine ctx \<longleftrightarrow>
     (\<exists>d w. serial ctx = Some (d, w) \<and> ds_port d = Some tty_port \<and> 0 < cfg_timeout (ds_config d) \<and> arrived w)"

definition arriving :: "(SerialPort, tty) desktop CallbackContext \<Rightarrow> u8 list" where
  "arriving ctx = (case serial ctx of None \<Rightarrow> [] | Some (d, w) \<Rightarrow> map snd (tty_coming w))"

definition tty_pop :: "nat \<Rightarrow> tty \<Rightarrow> tty" where
  "tty_pop c w = w\<lparr>tty_coming := drop c (tty_coming w), tty_got := tty_got w @ map snd (take c (tty_coming w))\<rparr>"

definition arriving_pop ::
  "nat \<Rightarrow> (SerialPort, tty) desktop CallbackContext \<Rightarrow> (SerialPort, tty) desktop CallbackContext" where
  "arriving_pop c ctx = ctx\<lparr>serial := map_option (\<lambda>(d, w). (d, tty_pop c w)) (serial ctx)\<rparr>"

definition answering_push ::
  "(u8 list \<Rightarrow> u8 list) \<Rightarrow> u8 list \<Rightarrow> (SerialPort, tty) desktop CallbackContext
     \<Rightarrow> (SerialPort, tty) desktop CallbackContext" where
  "answering_push reply bs ctx = ctx\<lparr>serial := map_option (\<lambda>(d, w). (d,
     if bs = [] then w else snd (sys_write (answering_tty reply) 3 bs w))) (serial ctx)\<rparr>"

lemma tty_calls [simp]:
  "sys_read tty_os = tty_read" "sys_now tty_os = (\<lambda>t. (tty_clock t, t))"
  "sys_read (answering_tty reply) = tty_read" "sys_now (answering_tty reply) = (\<lambda>t. (tty_clock t, t))"
  by (simp_all add: tty_os_def answering_tty_def)

text \<open>A read that may not wait and finds nothing.\<close>

lemma quiet_read:
  assumes "sys_read os = tty_read" "sys_now os = (\<lambda>t. (tty_clock t, t))"
    and "\<And>fd k. tty_read fd k w = (Inr [], w)" "0 < sz"
  shows "posix_read (Suc fuel) os p sz 0 w = Some (Inr [], w)"
  using assms by (simp add: posix_read_def posix_read_loop.simps(2) ns_of_ms_def)

lemma arrived_read:
  assumes "arrived w" "c \<le> length (tty_coming w)"
  shows "tty_read fd c w = (Inr (map snd (take c (tty_coming w))), tty_pop c w)"
proof -
  have all: "takeWhile (\<lambda>(at, b). at \<le> tty_clock w) (tty_coming w) = tty_coming w"
    using assms(1) by (simp add: arrived_def)
  show ?thesis unfolding tty_read_def all using assms(2) by (simp add: tty_pop_def Let_def min_def)
qed

lemma answering_read:
  assumes "arrived w" "c \<le> length (tty_coming w)"
  shows "posix_read (Suc (Suc fuel)) (answering_tty reply) p c timeout w
     = Some (Inr (map snd (take c (tty_coming w))), tty_pop c w)"
proof (cases c)
  case 0
  then show ?thesis
    by (simp add: posix_read_def answering_tty_def tty_os_def posix_read_loop.simps(2) tty_pop_def)
next
  case (Suc k)
  define bs where "bs = map snd (take c (tty_coming w))"
  have len: "length bs = Suc k" using assms(2) Suc by (simp add: bs_def)
  then obtain x xs where xs: "bs = x # xs" by (cases bs) auto
  have "tty_read fd c w = (Inr bs, tty_pop c w)" for fd using arrived_read [OF assms] by (simp add: bs_def)
  then show ?thesis
    using xs len Suc unfolding bs_def [symmetric]
    by (simp add: posix_read_def answering_tty_def tty_os_def posix_read_loop.simps(2) Let_def)
qed

lemma answering_write:
  assumes "ds_port d = Some p" "0 < cfg_timeout (ds_config d)"
  shows "ds_write (posix_port (Suc (Suc fuel)) (answering_tty reply) b) d bs w
     = Some (Inr (), d, if bs = [] then w else snd (sys_write (answering_tty reply) 3 bs w))"
proof -
  have "d\<lparr>ds_port := Some p\<rparr> = d" using assms(1) by simp
  then show ?thesis using assms
    by (cases bs) (simp_all add: ds_write_def posix_port_def posix_write_def posix_drain_def answering_tty_def
        tty_os_def Let_def)
qed

interpretation answering: byte_queue "desktop_conf t (Suc (Suc fuel)) (answering_tty reply) b fs"
    answering_fine arriving arriving_pop "answering_push reply"
  for t :: target and fuel :: nat and b :: posix_build and fs :: "tty file_ops" and reply :: "u8 list \<Rightarrow> u8 list"
proof unfold_locales
  fix ctx timeout c
  assume "answering_fine ctx" "timeout \<noteq> (0 :: int)" "c \<le> length (arriving ctx)"
  then show "pread (desktop_conf t (Suc (Suc fuel)) (answering_tty reply) b fs) c timeout ctx =
      (int c, take c (arriving ctx), arriving_pop c ctx)"
    using answering_read [of _ c fuel reply tty_port timeout]
    by (auto simp: answering_fine_def arriving_def arriving_pop_def serial_conf_def readSerial_def
        desktop_serial_def desktop_call_def ds_read_def posix_port_def Let_def take_map min_def)
next
  fix ctx timeout bs
  assume "answering_fine ctx"
  then show "pwrite (desktop_conf t (Suc (Suc fuel)) (answering_tty reply) b fs) bs timeout ctx =
      (int (length bs), answering_push reply bs ctx)"
    using answering_write [of _ tty_port fuel reply b bs]
    by (auto simp: answering_fine_def answering_push_def serial_conf_def writeSerial_def
        desktop_serial_def desktop_call_def)
next
  fix c d ctx
  show "arriving_pop c (arriving_pop d ctx) = arriving_pop (d + c) ctx"
    by (cases "serial ctx") (auto simp: arriving_pop_def tty_pop_def take_add add.commute [of c d])
next
  fix c ctx
  assume "answering_fine ctx"
  then show "answering_fine (arriving_pop c ctx)"
    by (force simp: answering_fine_def arriving_pop_def tty_pop_def arrived_def dest: in_set_dropD)
next
  fix bs ctx
  assume "answering_fine ctx"
  then show "answering_fine (answering_push reply bs ctx)"
    by (cases "bs = []") (auto simp: answering_fine_def answering_push_def arrived_def answering_tty_def)
qed (auto simp: arriving_def arriving_pop_def tty_pop_def drop_map split: option.splits)

text \<open>A client on that terminal, and an exchange with a gripper that answers with the registers \<open>rs\<close>.\<close>

definition desk_files :: "tty file_ops" where
  "desk_files = \<lparr>f_canonical = (\<lambda>s w. None), f_exists = (\<lambda>s w. False), f_read_int = (\<lambda>s w. None),
     f_write_int = (\<lambda>s i w. ((False, False), w))\<rparr>"

definition desk_start :: "tty posix_os \<Rightarrow> tty \<Rightarrow> (SerialPort, tty) desktop modbus_client" where
  "desk_start os w = (nmbs_create (desktop_conf Linux 500000300 os all_features desk_files)
      \<lparr>serial = Some (tty_serial, w), logger = []\<rparr>)
     \<lparr>byte_timeout_ms := 50, read_timeout_ms := 500, dest_address_rtu := 9\<rparr>"

lemma desk_start_fields [simp]:
  "platform (desk_start os w) = desktop_conf Linux 500000300 os all_features desk_files"
  "length (buf (desk_start os w)) = kBufSize" "oob (desk_start os w) = False" "buf_idx (desk_start os w) = 0"
  "byte_timeout_ms (desk_start os w) = 50" "read_timeout_ms (desk_start os w) = 500"
  "dest_address_rtu (desk_start os w) = 9" "arg (desk_start os w) = \<lparr>serial = Some (tty_serial, w), logger = []\<rparr>"
  by (simp_all add: desk_start_def nmbs_create_def)

lemma tty_serial_fields [simp]: "ds_port tty_serial = Some tty_port" "cfg_timeout (ds_config tty_serial) = 500"
  by (simp_all add: tty_serial_def DefaultSerial_create_def SerialConfig_defaults_def)

lemma desk_start_client:
  assumes "posix_duplex os tty_clock tty_got tty_sent (\<lambda>t. 0)"
  shows "desk_client Linux 500000300 os all_features desk_files tty_clock tty_got tty_sent (\<lambda>t. 0) tty_port 500
    (desk_start os w)"
  using assms
  by (simp add: desk_client_def desk_good_def intact_def longest_wait_def kByteTimeoutMs_def kBufSize_def
      tty_port_def baudConstant_def ns_of_ms_def)

lemma answered_exchange:
  assumes "length rs = 3" and reply: "\<And>bs. reply bs = registers_reply 9 23 rs"
  shows "\<exists>n'. client_exchange (desk_start (answering_tty reply) (tty_at 0 [])) c =
    (Inr (status_overlay (bytesFromRegisters rs (status_data GripperStatus_init))), n')"
proof -
  let ?n = "desk_start (answering_tty reply) (tty_at 0 [])"
  have fuel: "(500000300 :: nat) = Suc (Suc 500000298)" by simp
  note run = answering.run_read_write [of Linux 500000298 reply all_features desk_files ?n,
      folded fuel, where rq = "of_nat kStatusRegisterCount" and wq = "of_nat kCommandRegisterCount"
      and ra = kStatusAddress and wa = kCommandAddress and ws = "command_registers c" and rs = rs
      and out = "replicate kStatusRegisterCount 0" and rest = "[]"]
  have ready: "answering.ready Linux 500000298 reply all_features desk_files ?n"
    by (simp add: answering.ready_def [where fuel = 500000298, folded fuel] answering_fine_def arrived_def tty_at_def)
  have answer: "arriving (answering_push reply (b # bs) \<lparr>serial = Some (d, tty_at 0 []), logger = l\<rparr>) = reply (b # bs)"
    for b bs d l
    by (simp add: arriving_def answering_push_def answering_tty_def tty_at_def comp_def)
  have quiet: "pread (desktop_conf Linux 500000300 (answering_tty reply) all_features desk_files) kBufSize 0 (arg ?n)
      = (0, [], arg ?n)"
  proof -
    have "posix_read 500000300 (answering_tty reply) tty_port kBufSize 0 (tty_at 0 []) = Some (Inr [], tty_at 0 [])"
      unfolding fuel by (rule quiet_read) (simp_all add: tty_at_def tty_read_def kBufSize_def)
    then show ?thesis
      by (simp add: serial_conf_def readSerial_def desktop_serial_def desktop_call_def ds_read_def posix_port_def)
  qed
  have "\<exists>n'. run_state (nmbs_read_write_registers kStatusAddress (of_nat kStatusRegisterCount)
      (replicate kStatusRegisterCount 0) kCommandAddress (of_nat kCommandRegisterCount)
      (command_registers c)) ?n = ((NMBS_ERROR_NONE, rs), n')"
    using run [OF ready [folded fuel]] assms quiet answer
    by (simp add: register_ranges NMBS_BROADCAST_ADDRESS_def adu_def with_crc_def, blast)
  then show ?thesis
    by (auto simp: client_exchange_def command_registers_def [symmetric] nmbs_check_def Let_def)
qed

section \<open>Properties\<close>

text \<open>C20: On a POSIX desktop every operation of the Modbus client comes back: with an open port, a timeout
  that is not zero and an operating system that keeps its promises, none of the loops below it
  (reading, writing, draining the output) runs on for longer than the bytes of a message, the
  signals still to come and the nanoseconds of the timeout; and it leaves a client that is ready
  for the next operation, on the same port.\<close>

theorem desktop_client_returns:
  assumes "desk_client t fuel os b fs clk got acc intr p ms n"
    and "n' \<in> {snd (client_exchange n c), snd (client_readStatus n), snd (client_writeCommand n c)}"
  shows "desk_client t fuel os b fs clk got acc intr p ms n' \<and> serial (arg n') \<noteq> None"
proof -
  have i: "intact (desktop_conf t fuel os b fs) n" using assms(1) by (simp add: desk_client_def)
  have "desktop_returns.steady t fuel os b fs clk got acc intr p ms (snd (run_state m n))"
    if "desktop_returns.keeps t fuel os b fs clk got acc intr p ms m" for m :: "(_, 'x) nm"
    by (rule desktop_returns.keepsD [OF that desk_client_steady [OF assms(1)]])
  note run = this [OF desktop_returns.keeps_read_write] this [OF desktop_returns.keeps_read_holding]
    this [OF desktop_returns.keeps_write_registers]
  have "desktop_returns.steady t fuel os b fs clk got acc intr p ms n'"
    using assms(2) run by (auto simp: client_exchange_def client_readStatus_def client_writeCommand_def Let_def split_beta)
  moreover have "serial (arg n') \<noteq> None" if "desk_good os clk got acc intr fuel b p ms (arg n')"
    using that by (auto simp: desk_good_def)
  ultimately show ?thesis
    using desk_clientI [OF client_intact [OF i assms(2)]] by (auto simp: desk_client_def)
qed

lemma desktop_client_returns_witness:
  "serial (arg (snd (client_exchange (desk_start tty_os (tty_at 0 [])) GripperCommand_defaults))) \<noteq> None"
  using desktop_client_returns [OF desk_start_client [OF tty_duplex, of "tty_at 0 []"], where n' =
      "snd (client_exchange (desk_start tty_os (tty_at 0 [])) GripperCommand_defaults)" and c = GripperCommand_defaults] by simp

text \<open>C17: An exchange that returns a status on a POSIX desktop did this to the terminal, in this order:
  whatever had come in before was read and thrown away; the terminal took the bytes of the one
  request for this command, no more and no fewer; and it then delivered a complete reply of the
  gripper's address, function code 23 and a matching checksum, whose registers the status is.\<close>

theorem desktop_exchange_on_the_wire:
  assumes "desk_client t fuel os b fs clk got acc intr p ms n"
    and "client_exchange n c = (Inr s, n')"
  defines "u \<equiv> dest_address_rtu n"
  shows "\<exists>ctx1 ctx2 rs. wire_moved got acc [] (\<lambda>new. True) (arg n) ctx1 \<and>
    wire_moved got acc (with_crc (request_head u kStatusAddress 3 kCommandAddress 3 (command_registers c)))
      (\<lambda>new. new = []) ctx1 ctx2 \<and>
    wire_moved got acc [] (\<lambda>new. new = registers_reply u 23 rs) ctx2 (arg n') \<and>
    length rs = 3 \<and> s = status_overlay (bytesFromRegisters rs (status_data GripperStatus_init))"
proof -
  obtain rs where run: "run_state (nmbs_read_write_registers kStatusAddress (of_nat kStatusRegisterCount)
      (replicate kStatusRegisterCount 0) kCommandAddress (of_nat kCommandRegisterCount)
      (command_registers c)) n = ((NMBS_ERROR_NONE, rs), n')"
    and s: "s = status_overlay (bytesFromRegisters rs (status_data GripperStatus_init))"
    by (rule exchange_returns [OF assms(2)])
  have n: "intact (desktop_conf t fuel os b fs) n" "desk_good os clk got acc intr fuel b p ms (arg n)"
    using assms(1) by (simp_all add: desk_client_def)
  let ?moved = "desk_took os clk got acc intr fuel b p ms"
  let ?request = "with_crc (request_head u kStatusAddress 3 kCommandAddress 3 (command_registers c))"
  obtain ctx1 ctx2 where moved: "length rs = 3" "?moved [] (\<lambda>new. True) (arg n) ctx1"
      "?moved ?request (\<lambda>new. new = []) ctx1 ctx2"
      "?moved [] (\<lambda>new. new = registers_reply u 23 rs) ctx2 (arg n')"
    using desktop.read_write_ok [OF run n(1), of clk got acc intr p ms]
    by (auto simp: register_ranges u_def)
  have "length ?request \<le> kBufSize" by (simp add: with_crc_def request_head_def kBufSize_def)
  with moved n(2) s show ?thesis by (auto simp: desk_took_def)
qed

lemma desktop_exchange_on_the_wire_witness:
  "\<exists>n' ctx1 ctx2 rs. wire_moved tty_got tty_sent [] (\<lambda>new. new = registers_reply 9 23 rs) ctx2 (arg n') \<and>
     wire_moved tty_got tty_sent (with_crc (request_head 9 kStatusAddress 3 kCommandAddress 3
       (command_registers GripperCommand_defaults))) (\<lambda>new. new = []) ctx1 ctx2 \<and>
     client_exchange (desk_start (answering_tty (\<lambda>bs. registers_reply 9 23 [0x3100, 0x0000, 0x0300])) (tty_at 0 []))
       GripperCommand_defaults
       = (Inr (status_overlay (bytesFromRegisters rs (status_data GripperStatus_init))), n')"
proof -
  let ?n = "desk_start (answering_tty (\<lambda>bs. registers_reply 9 23 [0x3100, 0x0000, 0x0300])) (tty_at 0 [])"
  obtain s n' where run: "client_exchange ?n GripperCommand_defaults = (Inr s, n')"
    using answered_exchange [of "[0x3100, 0x0000, 0x0300]" "\<lambda>bs. registers_reply 9 23 [0x3100, 0x0000, 0x0300]"
        GripperCommand_defaults] by auto
  from desktop_exchange_on_the_wire [OF desk_start_client [OF answering_duplex] run] run show ?thesis by auto
qed

section \<open>A reply that trickles in\<close>

text \<open>One byte arrives; of several bytes only the first arrives before a pause.\<close>

lemma tty_read_one:
  assumes "tty_coming w = (a, x) # rest" "a \<le> tty_clock w + ns_of_ms timeout" "timeout \<le> kInt32Max"
  shows "posix_read (Suc (Suc (Suc fuel))) tty_os p 1 timeout w
     = Some (Inr [x], w\<lparr>tty_clock := max (tty_clock w) a, tty_coming := rest, tty_got := tty_got w @ [x]\<rparr>)"
proof (cases "tty_clock w < a")
  case True
  have "0 < ns_of_ms timeout" using True assms by simp
  then have "0 < timeout" by (simp add: ns_of_ms_def)
  moreover have "ceil_ms (ns_of_ms timeout) = timeout" by (simp add: ceil_ms_def ns_of_ms_def)
  ultimately show ?thesis
    using assms True
    by (simp add: posix_read_def posix_read_loop.simps(2) tty_os_def tty_read_def tty_poll_def
          waitReady_def Let_def max_def min_def)
next
  case False
  then show ?thesis
    using assms by (simp add: posix_read_def posix_read_loop.simps(2) tty_os_def tty_read_def Let_def max_def)
qed

lemma tty_read_hangup:
  assumes "tty_coming w = (a, x) # (a', y) # rest" "tty_clock w < a" "a < a'"
    and "a \<le> tty_clock w + ns_of_ms timeout" "timeout \<le> kInt32Max"
  shows "posix_read (Suc (Suc (Suc fuel))) tty_os p (Suc (Suc k)) timeout w
     = Some (Inl (failHungUp ''reading from the serial port''),
         w\<lparr>tty_clock := a, tty_coming := (a', y) # rest, tty_got := tty_got w @ [x]\<rparr>)"
proof -
  have "0 < ns_of_ms timeout" using assms by simp
  then have "0 < timeout" by (simp add: ns_of_ms_def)
  moreover have "ceil_ms (ns_of_ms timeout) = timeout" by (simp add: ceil_ms_def ns_of_ms_def)
  ultimately show ?thesis
    using assms
    by (simp add: posix_read_def posix_read_loop.simps(2) tty_os_def tty_read_def tty_poll_def
          waitReady_def Let_def max_def min_def)
qed

lemma tty_write:
  assumes "ds_port d = Some p"
  shows "ds_write (posix_port (Suc (Suc fuel)) tty_os b) d bs w
     = Some (Inr (), d, w\<lparr>tty_sent := tty_sent w @ bs\<rparr>)"
proof -
  have "d\<lparr>ds_port := Some p\<rparr> = d" using assms by simp
  then show ?thesis using assms
    by (cases bs) (simp_all add: ds_write_def posix_port_def posix_write_def posix_drain_def tty_os_def Let_def)
qed

text \<open>The client's argument after the terminal moved on to \<open>w\<close>.\<close>

definition at_tty :: "tty \<Rightarrow> (SerialPort, tty) desktop CallbackContext \<Rightarrow> (SerialPort, tty) desktop CallbackContext" where
  "at_tty w ctx = ctx\<lparr>serial := map_option (\<lambda>(d, w'). (d, w)) (serial ctx)\<rparr>"

abbreviation tty_conf where
  "tty_conf t fuel b fs \<equiv> desktop_conf t (Suc (Suc (Suc fuel))) tty_os b fs"

lemma pread_tty:
  assumes "serial ctx = Some (d, w)" "ds_port d = Some p"
    and "posix_read (Suc (Suc (Suc fuel))) tty_os p c timeout w = Some (Inr bs, w')" "length bs \<le> c"
  shows "pread (tty_conf t fuel b fs) c timeout ctx = (int (length bs), bs, at_tty w' ctx)"
  using assms
  by (simp add: serial_conf_def readSerial_def desktop_serial_def desktop_call_def ds_read_def posix_port_def
      at_tty_def Let_def min_def)

lemma pread_tty_fails:
  assumes "serial ctx = Some (d, w)" "ds_port d = Some p"
    and "posix_read (Suc (Suc (Suc fuel))) tty_os p c timeout w = Some (Inl e, w')"
  shows "pread (tty_conf t fuel b fs) c timeout ctx = (-1, [], context_log (failure_line ''serial read'' e) (at_tty w' ctx))"
  using assms
  by (cases d) (simp add: serial_conf_def readSerial_def desktop_serial_def desktop_call_def ds_read_def posix_port_def at_tty_def)

lemma pwrite_tty:
  assumes "serial ctx = Some (d, w)" "ds_port d = Some p"
  shows "pwrite (tty_conf t fuel b fs) bs timeout ctx = (int (length bs), at_tty (w\<lparr>tty_sent := tty_sent w @ bs\<rparr>) ctx)"
  using assms tty_write [of d p "Suc fuel" b bs w]
  by (simp add: serial_conf_def writeSerial_def desktop_serial_def desktop_call_def at_tty_def)

lemma at_tty_fields [simp]:
  "serial ctx = Some (d, w) \<Longrightarrow> serial (at_tty w' ctx) = Some (d, w')" "at_tty w' (at_tty w ctx) = at_tty w' ctx"
  "logger (at_tty w ctx) = logger ctx"
  by (simp_all add: at_tty_def) (cases "serial ctx"; auto)+

definition hung_up_line :: log_line where
  "hung_up_line = (Error, failure_line ''serial read'' (failHungUp ''reading from the serial port''))"

text \<open>Receiving a reply that comes in pieces: the header and the length, then the failure.\<close>

lemma trickle_recv:
  assumes n: "platform n = tty_conf t fuel b fs" "fits 0 (n\<lparr>buf_idx := 0\<rparr>)"
    and ctx: "serial (arg n) = Some (d, w)" "ds_port d = Some p"
    and coming: "tty_coming w = (t1, unit_id n) # (t2, fc n) # (t3, 6) # (t4, x) # (t5, y) # rest"
    and rising: "tty_clock w < t1" "t1 \<le> t2" "t2 \<le> t3" "t3 < t4" "t4 < t5" "t5 \<le> tty_clock w + ns_of_ms kByteTimeoutMs"
    and timeouts: "byte_timeout_ms n = kByteTimeoutMs" "kByteTimeoutMs \<le> read_timeout_ms n" "read_timeout_ms n \<le> kInt32Max"
  shows "\<exists>n'. run_state (recv_read_registers_res 3 out) n = ((NMBS_ERROR_TRANSPORT, out), n')
    \<and> logger (arg n') = logger (arg n) @ [hung_up_line]"
proof -
  let ?conf = "tty_conf t fuel b fs"
  define w1 where "w1 = w\<lparr>tty_clock := t1, tty_coming := tl (tty_coming w), tty_got := tty_got w @ [unit_id n]\<rparr>"
  define w2 where "w2 = w1\<lparr>tty_clock := t2, tty_coming := tl (tty_coming w1), tty_got := tty_got w1 @ [fc n]\<rparr>"
  define w3 where "w3 = w2\<lparr>tty_clock := t3, tty_coming := tl (tty_coming w2), tty_got := tty_got w2 @ [6]\<rparr>"
  have ms: "ns_of_ms kByteTimeoutMs \<le> ns_of_ms (read_timeout_ms n)" "kByteTimeoutMs \<le> kInt32Max"
    using timeouts by (simp_all add: ns_of_ms_def)
  have p1: "pread ?conf 1 (read_timeout_ms n) (arg n) = (1, [unit_id n], at_tty w1 (arg n))"
    using pread_tty [OF ctx tty_read_one [of w t1 "unit_id n" "tl (tty_coming w)" "read_timeout_ms n" fuel]]
      coming rising ms timeouts by (simp add: w1_def)
  have p2: "pread ?conf 1 (byte_timeout_ms n) (at_tty w1 (arg n)) = (1, [fc n], at_tty w2 (arg n))"
    using pread_tty [OF _ ctx(2) tty_read_one [of w1 t2 "fc n" "tl (tty_coming w1)" "byte_timeout_ms n" fuel], of "at_tty w1 (arg n)"]
      ctx(1) coming rising ms timeouts by (simp add: w1_def w2_def)
  have p3: "pread ?conf 1 (byte_timeout_ms n) (at_tty w2 (arg n)) = (1, [6], at_tty w3 (arg n))"
    using pread_tty [OF _ ctx(2) tty_read_one [of w2 t3 6 "tl (tty_coming w2)" "byte_timeout_ms n" fuel], of "at_tty w2 (arg n)"]
      ctx(1) coming rising ms timeouts by (simp add: w1_def w2_def w3_def)
  obtain a where p4: "pread ?conf 6 (byte_timeout_ms n) (at_tty w3 (arg n)) = (-1, [], a)"
      "logger a = logger (arg n) @ [hung_up_line]"
    using pread_tty_fails [OF _ ctx(2) tty_read_hangup [of w3 t4 x t5 y rest "byte_timeout_ms n" fuel p 4], of "at_tty w3 (arg n)"]
      ctx(1) coming rising ms timeouts by (simp add: w1_def w2_def w3_def context_log_def hung_up_line_def)
  define F where "F a = fresh (unit_id n) (fc n) (n\<lparr>arg := a\<rparr>)" for a
  have F: "fits k (F a) \<longleftrightarrow> k \<le> kBufSize" "platform (F a) = ?conf" "\<not> complete (F a)" "arg (F a) = a"
      "byte_timeout_ms (F a) = byte_timeout_ms n" "F a\<lparr>arg := a'\<rparr> = F a'" "buf_idx (F a) = 0" for k a a'
    using n by (auto simp: F_def fits_def)
  have buf: "length (buf (wr [u, f, l] (F a))) = kBufSize" for u f l a
    using F(1) [of 0 a] by (simp add: fits_def wr_def hold_def kBufSize_def F_def)
  have "run_state recv_res_header n = (NMBS_ERROR_NONE, wr [unit_id n, fc n] (F (at_tty w2 (arg n))))"
    unfolding F_def by (rule serial_port.run_res_header_by [OF n p1 p2])
  moreover have "run_state (recv 1) (wr [unit_id n, fc n] (F (at_tty w2 (arg n)))) =
      (NMBS_ERROR_NONE, hold [6] (wr [unit_id n, fc n] (F (at_tty w3 (arg n)))))"
    using serial_port.run_recv_by [of "wr [unit_id n, fc n] (F (at_tty w2 (arg n)))" _ 1 "[6]" "at_tty w3 (arg n)"] F p3
    by (simp add: kBufSize_def)
  moreover have "run_state get_1 (hold [6] (wr [unit_id n, fc n] (F a))) = (6, wr [unit_id n, fc n, 6] (F a))" for a
    using run_get_1 [of "[]" "wr [unit_id n, fc n] (F a)" 6] F by (simp add: kBufSize_def)
  moreover have "run_state (recv 6) (wr [unit_id n, fc n, 6] (F (at_tty w3 (arg n)))) =
      (NMBS_ERROR_TRANSPORT, wr [unit_id n, fc n, 6] (F a))"
    using serial_port.run_recv_failing [of "wr [unit_id n, fc n, 6] (F (at_tty w3 (arg n)))" _ 6 a] F buf p4
    by (simp add: kBufSize_def)
  moreover have "arg (wr [unit_id n, fc n, 6] (F a)) = a" by (simp add: F(4))
  ultimately show ?thesis using p4(2) by (simp add: recv_read_registers_res_def)
qed

lemma eleven_rising:
  assumes "length ts = 11" and "sorted ts" and "t < hd ts" and "ts ! 2 < ts ! 3" "ts ! 3 < ts ! 4" and "last ts \<le> (limit :: time)"
  obtains t1 t2 t3 t4 t5 us where "ts = t1 # t2 # t3 # t4 # t5 # us" "t < t1" "t1 \<le> t2" "t2 \<le> t3" "t3 < t4" "t4 < t5"
    "t5 \<le> limit" "length us = 6"
proof -
  obtain t1 t2 t3 t4 t5 us where ts: "ts = t1 # t2 # t3 # t4 # t5 # us" "length us = 6"
    using assms(1) by (auto simp: length_Suc_conv eval_nat_numeral)
  moreover have "t5 \<le> last us" using assms(2) ts by (cases us rule: rev_cases) auto
  ultimately show ?thesis using assms(2-) that by (auto split: if_splits simp: eval_nat_numeral)
qed

lemma three_registers_reply:
  "length rs = 3 \<Longrightarrow> \<exists>x y rest. registers_reply u f rs = u # f # 6 # x # y # rest \<and> length rest = 6"
  by (auto simp: registers_reply_def adu_def with_crc_def length_Suc_conv eval_nat_numeral)

lemma msg_state_req_frame:
  assumes "run_state (msg_state_req f) n = ((), n1)"
    and "pread (platform n) kBufSize 0 (arg n) = (r, [], a)"
  shows "arg n1 = a" "byte_timeout_ms n1 = byte_timeout_ms n" "read_timeout_ms n1 = read_timeout_ms n"
  using assms
  by (auto simp: msg_state_req_def flush_def msg_state_reset_def msg_buf_reset_def store_at_def touch_def
      split: if_splits)

text \<open>C24: A correct reply that comes in pieces fails the exchange. On a terminal that keeps every law the
  driver asks of the system (\<open>tty_duplex\<close>), let the gripper's whole reply arrive, in its order and within
  the byte timeout of 50 ms, with a pause before its six register bytes and another one after the
  first of them (as when each byte comes a moment after the one before). Then the read of the register
  bytes takes the second pause for a hang-up: \<open>exchange()\<close> throws a transport error and the one line
  logged says that the other end hung up, although nobody did and no byte was lost or late.\<close>

theorem trickling_reply_fails:
  assumes "platform n = tty_conf t fuel b fs" and "length (buf n) = kBufSize" and "\<not> oob n"
    and "serial (arg n) = Some (d, w)" and "ds_port d = Some p"
    and "byte_timeout_ms n = kByteTimeoutMs" and "kByteTimeoutMs \<le> read_timeout_ms n" and "read_timeout_ms n \<le> kInt32Max"
    and "length rs = 3" and "tty_coming w = zip ts (registers_reply (dest_address_rtu n) 23 rs)"
    and "length ts = 11" and "sorted ts" and "tty_clock w < hd ts" and "ts ! 2 < ts ! 3" and "ts ! 3 < ts ! 4"
    and "last ts \<le> tty_clock w + ns_of_ms kByteTimeoutMs"
  shows "\<exists>n'. client_exchange n c = (Inl (DriverException ''exchange failed: transport error''), n')
    \<and> logger (arg n') = logger (arg n) @ [hung_up_line]"
proof -
  let ?u = "dest_address_rtu n" and ?conf = "tty_conf t fuel b fs"
  define m where "m = request_head ?u kStatusAddress 3 kCommandAddress 3 (command_registers c)"
  have i: "intact ?conf n" using assms(1-3) by (simp add: intact_def)
  obtain t1 t2 t3 t4 t5 us where ts: "ts = t1 # t2 # t3 # t4 # t5 # us" "tty_clock w < t1" "t1 \<le> t2" "t2 \<le> t3"
      "t3 < t4" "t4 < t5" "t5 \<le> tty_clock w + ns_of_ms kByteTimeoutMs"
    using eleven_rising [OF assms(11-16)] by metis
  obtain x y rest where reply: "registers_reply ?u 23 rs = ?u # 23 # 6 # x # y # rest"
    using three_registers_reply [OF assms(9)] by blast
  have "tty_read fd k w = (Inr [], w)" for fd k
    using ts(2) by (simp add: tty_read_def assms(10) ts(1) reply)
  then have "posix_read (Suc (Suc (Suc fuel))) tty_os p kBufSize 0 w = Some (Inr [], w)"
    by (intro quiet_read) (simp_all add: kBufSize_def)
  from pread_tty [OF assms(4,5) this, of t b fs]
  have flushed: "pread ?conf kBufSize 0 (arg n) = (0, [], at_tty w (arg n))" by simp
  obtain n1 where r1: "run_state (msg_state_req 23) n = ((), n1)"
    by (cases "run_state (msg_state_req 23) n") simp
  note n1 = any_serial.msg_state_req_ok(1-5) [OF r1 i]
  note n1' = msg_state_req_frame [OF r1, unfolded assms(1), OF flushed]
  have fit: "fits k n1 \<longleftrightarrow> k \<le> kBufSize" for k using n1(2,3) by (auto simp: fits_def)
  have lm: "length m = 17" by (simp add: m_def request_head_def)
  have sm: "sofar (wr m n1) = m" "fits 2 (wr m n1)"
    using n1(3) lm by (simp_all add: fit sofar_wr [of m n1] fits_wr [of m 2 n1] kBufSize_def) (simp add: sofar_def)
  define w' where "w' = w\<lparr>tty_sent := tty_sent w @ with_crc m\<rparr>"
  define n2 where "n2 = wr (with_crc m) (n1\<lparr>arg := at_tty w' (arg n)\<rparr>)"
  have s1: "serial (arg n1) = Some (d, w)" using assms(4) by (simp add: n1')
  have sent: "run_state send_msg (wr m n1) = (NMBS_ERROR_NONE, n2)"
    using serial_port.run_send_by [of "wr m n1" _ "at_tty w' (arg n1)"] pwrite_tty [OF s1 assms(5)] n1(1) sm lm
    by (simp add: n2_def w'_def n1' with_crc_def fit kBufSize_def)
  have "\<exists>n'. run_state (recv_read_registers_res 3 out) n2 = ((NMBS_ERROR_TRANSPORT, out), n')
    \<and> logger (arg n') = logger (arg n2) @ [hung_up_line]" for out
  proof (rule trickle_recv [where w = w' and d = d and p = p])
    show "fits 0 (n2\<lparr>buf_idx := 0\<rparr>)"
      using n1(2,3) lm by (auto simp: n2_def fits_def wr_def hold_def with_crc_def kBufSize_def)
  qed (use n1 n1' assms(4-8,10) ts reply in \<open>simp_all add: n2_def w'_def\<close>)
  then obtain n' where "run_state (recv_read_registers_res 3 (replicate 3 0)) n2
      = ((NMBS_ERROR_TRANSPORT, replicate 3 0), n')" and line: "logger (arg n') = logger (arg n) @ [hung_up_line]"
    by (auto simp: n2_def)
  then have "run_state (nmbs_read_write_registers kStatusAddress 3 (replicate 3 0) kCommandAddress 3
      (command_registers c)) n = ((NMBS_ERROR_TRANSPORT, replicate 3 0), n')"
    using serial_port.run_read_write_request [OF r1 n1, of 3 kStatusAddress 3 kCommandAddress "command_registers c"
        "replicate 3 0"] sent
    by (simp add: register_ranges m_def)
  then show ?thesis using line
    unfolding client_exchange_def command_registers_def [symmetric]
    by (simp add: nmbs_check_def register_ranges Let_def split_beta)
qed

text \<open>A reply in three pieces: the header and the length, the first register byte, the rest.\<close>

definition three_pieces :: "time list" where
  "three_pieces = [1000000, 1000000, 1000000, 2000000, 3000000, 3000000, 3000000, 3000000, 3000000, 3000000, 3000000]"

lemma trickling_reply_fails_witness:
  "\<exists>n'. client_exchange (desk_start tty_os (tty_at 0 (zip three_pieces (registers_reply 9 23 [0x3100, 0x0000, 0x0300]))))
       GripperCommand_defaults = (Inl (DriverException ''exchange failed: transport error''), n')
     \<and> last (logger (arg n')) = hung_up_line"
proof -
  have fuel: "(500000300 :: nat) = Suc (Suc (Suc 500000297))" by simp
  have "\<exists>n'. client_exchange (desk_start tty_os (tty_at 0 (zip three_pieces (registers_reply 9 23 [0x3100, 0x0000, 0x0300]))))
       GripperCommand_defaults = (Inl (DriverException ''exchange failed: transport error''), n')
     \<and> logger (arg n') = logger (arg (desk_start tty_os (tty_at 0 (zip three_pieces
         (registers_reply 9 23 [0x3100, 0x0000, 0x0300]))))) @ [hung_up_line]"
    by (rule trickling_reply_fails [where t = Linux and fuel = 500000297 and b = all_features and fs = desk_files
          and p = tty_port and rs = "[0x3100, 0x0000, 0x0300]" and ts = three_pieces
          and d = tty_serial and w = "tty_at 0 (zip three_pieces
            (registers_reply 9 23 [0x3100, 0x0000, 0x0300]))", folded fuel, OF desk_start_fields(1)])
       (simp_all add: kByteTimeoutMs_def kInt32Max_def ns_of_ms_def tty_at_def three_pieces_def)
  then show ?thesis by auto
qed

end
