(* ===== verification/CommandLine.thy ===== *)
theory CommandLine
  imports Units
begin

text \<open>
  The command lines of the examples: the options of \<open>examples/exchange_rate_probe.cpp\<close> and the baud
  rate of \<open>examples/move_gripper.cpp\<close>, down to the conversions of the C library they use. A \<open>long\<close>
  has \<open>w\<close> bits: 64 on Linux and macOS, 32 on Windows. A C string is a list of characters without its
  terminating NUL; the \<open>end\<close> that a conversion hands back is the list it points to.
\<close>

section \<open>The C library's conversions\<close>

definition c_isspace :: "char \<Rightarrow> bool" where
  "c_isspace c \<longleftrightarrow> c = CHR '' '' \<or> c \<in> {CHR 0x09, CHR 0x0A, CHR 0x0B, CHR 0x0C, CHR 0x0D}"

definition c_isdigit :: "char \<Rightarrow> bool" where
  "c_isdigit c \<longleftrightarrow> c \<in> set ''0123456789''"

definition skip_space :: "string \<Rightarrow> string" where
  "skip_space s = dropWhile c_isspace s"

text \<open>Whether there is a minus sign, and what follows the sign.\<close>

definition take_sign :: "string \<Rightarrow> bool \<times> string" where
  "take_sign s =
     (case s of
        c # cs \<Rightarrow> if c = CHR ''-'' then (True, cs) else if c = CHR ''+'' then (False, cs) else (False, s)
      | [] \<Rightarrow> (False, []))"

text \<open>The decimal digits at the front, with the rest; \<open>None\<close> when there are none.\<close>

definition take_digits :: "string \<Rightarrow> (nat \<times> string) option" where
  "take_digits s =
     (let ds = takeWhile c_isdigit s
      in if ds = [] then None else Some (parse_decimal ds, dropWhile c_isdigit s))"

text \<open>\<open>strtol(text, &end, 10)\<close>: out of range, the nearest \<open>long\<close>.\<close>

definition strtol :: "nat \<Rightarrow> string \<Rightarrow> int \<times> string" where
  "strtol w text =
     (let (negative, s) = take_sign (skip_space text)
      in case take_digits s of
           None \<Rightarrow> (0, text)
         | Some (n, rest) \<Rightarrow>
             (max (- (2 ^ (w - 1))) (min (2 ^ (w - 1) - 1) (if negative then - int n else int n)), rest))"

text \<open>
  \<open>std::stoul\<close>: \<open>strtoul\<close>, with its two failures as exceptions and whatever follows the digits
  ignored. A minus sign negates the value in \<open>unsigned long\<close>.
\<close>

datatype stoul_result = Invalid_argument | Out_of_range | Parsed nat

definition stoul :: "nat \<Rightarrow> string \<Rightarrow> stoul_result" where
  "stoul w text =
     (let (negative, s) = take_sign (skip_space text)
      in case take_digits s of
           None \<Rightarrow> Invalid_argument
         | Some (n, rest) \<Rightarrow>
             if 2 ^ w \<le> n then Out_of_range
             else Parsed (if negative then nat (- int n mod 2 ^ w) else n))"

subsection \<open>Floating point\<close>

text \<open>\<open>strcasecmp\<close> with the front of the string; the word is lower case.\<close>

definition lower :: "char \<Rightarrow> char" where
  "lower c = (if c \<in> set ''ABCDEFGHIJKLMNOPQRSTUVWXYZ'' then char_of (of_char c + 32 :: nat) else c)"

definition starts_with :: "string \<Rightarrow> string \<Rightarrow> bool" where
  "starts_with word s = (map lower (take (length word) s) = word)"

definition hex_value :: "char \<Rightarrow> nat" where
  "hex_value c = (if c_isdigit c then digit_value c else of_char (lower c) - 87)"

definition c_isxdigit :: "char \<Rightarrow> bool" where
  "c_isxdigit c \<longleftrightarrow> lower c \<in> set ''0123456789abcdef''"

definition digits_value :: "nat \<Rightarrow> string \<Rightarrow> nat" where
  "digits_value base s = foldl (\<lambda>n c. base * n + hex_value c) 0 s"

text \<open>Digits with at most one radix point among or around them: the value, with the rest.\<close>

definition take_mantissa :: "nat \<Rightarrow> string \<Rightarrow> (rat \<times> string) option" where
  "take_mantissa base s =
     (let isdigit = (if base = 16 then c_isxdigit else c_isdigit);
          whole = takeWhile isdigit s;
          s1 = dropWhile isdigit s;
          (fraction, s2) = (case s1 of
              c # cs \<Rightarrow> if c = CHR ''.'' then (takeWhile isdigit cs, dropWhile isdigit cs) else ([], s1)
            | [] \<Rightarrow> ([], []))
      in if whole = [] \<and> fraction = [] then None
         else Some (of_nat (digits_value base (whole @ fraction)) / of_nat base ^ length fraction, s2))"

text \<open>An exponent: taken only when a digit follows its letter.\<close>

definition take_exponent :: "char \<Rightarrow> string \<Rightarrow> int \<times> string" where
  "take_exponent letter s =
     (case s of
        [] \<Rightarrow> (0, s)
      | c # cs \<Rightarrow>
          if lower c \<noteq> letter then (0, s)
          else let (negative, s') = take_sign cs
               in (case take_digits s' of
                     None \<Rightarrow> (0, s)
                   | Some (n, rest) \<Rightarrow> (if negative then - int n else int n, rest)))"

definition scale :: "nat \<Rightarrow> int \<Rightarrow> rat" where
  "scale base e = (if 0 \<le> e then of_nat base ^ nat e else 1 / of_nat base ^ nat (- e))"

text \<open>\<open>nan\<close> may carry a sequence of letters, digits and underscores in parentheses.\<close>

definition skip_nan_sequence :: "string \<Rightarrow> string" where
  "skip_nan_sequence s =
     (case s of
        [] \<Rightarrow> s
      | c # cs \<Rightarrow>
          let rest = dropWhile (\<lambda>c. c_isdigit c \<or> lower c \<in> set ''abcdefghijklmnopqrstuvwxyz_'') cs
          in if c = CHR ''('' \<and> rest \<noteq> [] \<and> hd rest = CHR '')'' then tl rest else s)"

definition with_sign :: "(rat \<Rightarrow> double) \<Rightarrow> bool \<Rightarrow> rat \<Rightarrow> double" where
  "with_sign rnd negative x = rnd (if negative then - x else x)"

definition decimal_number :: "(rat \<Rightarrow> double) \<Rightarrow> bool \<Rightarrow> string \<Rightarrow> (double \<times> string) option" where
  "decimal_number rnd negative s =
     (case take_mantissa 10 s of
        None \<Rightarrow> None
      | Some (m, s1) \<Rightarrow> let (e, s2) = take_exponent (CHR ''e'') s1 in Some (with_sign rnd negative (m * scale 10 e), s2))"

text \<open>\<open>strtod\<close> in the C locale. \<open>0x\<close> without a hexadecimal digit after it is the number 0.\<close>

definition strtod :: "(rat \<Rightarrow> double) \<Rightarrow> string \<Rightarrow> double \<times> string" where
  "strtod rnd text =
     (let (negative, s) = take_sign (skip_space text)
      in if starts_with ''infinity'' s then (Infinite (\<not> negative), drop 8 s)
         else if starts_with ''inf'' s then (Infinite (\<not> negative), drop 3 s)
         else if starts_with ''nan'' s then (NaN, skip_nan_sequence (drop 3 s))
         else case (if starts_with ''0x'' s then take_mantissa 16 (drop 2 s) else None) of
             Some (m, s1) \<Rightarrow> (let (e, s2) = take_exponent (CHR ''p'') s1 in (with_sign rnd negative (m * scale 2 e), s2))
           | None \<Rightarrow>
               (case decimal_number rnd negative s of None \<Rightarrow> (Fin 0, text) | Some r \<Rightarrow> r))"

section \<open>The options of the rate probe\<close>

text \<open>\<open>None\<close> is the \<open>false\<close> of the code, which leaves \<open>out\<close> alone.\<close>

definition parseLong :: "nat \<Rightarrow> string \<Rightarrow> int \<Rightarrow> int \<Rightarrow> int option" where
  "parseLong w text minimum maximum =
     (let (v, rest) = strtol w text
      in if rest = text \<or> rest \<noteq> [] \<or> v < minimum \<or> v > maximum then None else Some v)"

definition parseDouble :: "(rat \<Rightarrow> double) \<Rightarrow> string \<Rightarrow> double \<Rightarrow> double \<Rightarrow> double option" where
  "parseDouble rnd text minimum maximum =
     (let (v, rest) = strtod rnd text
      in if rest = text \<or> rest \<noteq> [] \<or> \<not> (dle minimum v \<and> dle v maximum) then None else Some v)"

record Options =
  opt_port :: "string option"
  opt_hz :: double
  opt_seconds :: int
  opt_baudrate :: int

definition Options_defaults :: Options where
  "Options_defaults = \<lparr>opt_port = None, opt_hz = Fin 100, opt_seconds = 5, opt_baudrate = 115200\<rparr>"

text \<open>One turn of the loop: the options so far, \<open>None\<close> when \<open>ok\<close> turned false.\<close>

definition read_option :: "(rat \<Rightarrow> double) \<Rightarrow> nat \<Rightarrow> string \<Rightarrow> string \<Rightarrow> Options \<Rightarrow> Options option" where
  "read_option rnd w option_name v options =
     (if option_name = ''--port'' then Some (options\<lparr>opt_port := Some v\<rparr>)
      else if option_name = ''--hz''
      then map_option (\<lambda>x. options\<lparr>opt_hz := x\<rparr>) (parseDouble rnd v (rnd (1 / 10)) (Fin 1000))
      else if option_name = ''--seconds''
      then map_option (\<lambda>x. options\<lparr>opt_seconds := x\<rparr>) (parseLong w v 1 3600)
      else if option_name = ''--baudrate''
      then map_option (\<lambda>x. options\<lparr>opt_baudrate := x\<rparr>) (parseLong w v 1200 3000000)
      else None)"

fun read_options :: "(rat \<Rightarrow> double) \<Rightarrow> nat \<Rightarrow> string list \<Rightarrow> Options \<Rightarrow> Options option" where
  "read_options rnd w (option_name # v # args) options =
     (case read_option rnd w option_name v options of
        None \<Rightarrow> None
      | Some options \<Rightarrow> read_options rnd w args options)"
| "read_options rnd w args options = Some options"

text \<open>
  \<open>args\<close> are the arguments after the program's name. \<open>None\<close> is the port left null, after the usage
  has been printed.
\<close>

definition parseOptions :: "(rat \<Rightarrow> double) \<Rightarrow> nat \<Rightarrow> string list \<Rightarrow> Options option" where
  "parseOptions rnd w args =
     (if odd (length args) then None
      else case read_options rnd w args Options_defaults of
             None \<Rightarrow> None
           | Some options \<Rightarrow> if opt_port options = None then None else Some options)"

section \<open>The baud rate of \<open>move_gripper\<close>\<close>

definition kMinBaudrate :: nat where "kMinBaudrate = 1"
definition kMaxBaudrate :: nat where "kMaxBaudrate = 1000000"

text \<open>\<open>None\<close>: one of the exceptions, all of which end in the same message.\<close>

definition parse_baudrate :: "nat \<Rightarrow> string \<Rightarrow> u32 option" where
  "parse_baudrate w text =
     (case stoul w text of
        Parsed parsed \<Rightarrow> if parsed < kMinBaudrate \<or> parsed > kMaxBaudrate then None else Some (of_nat parsed)
      | _ \<Rightarrow> None)"

end
