(* ===== verification/RateProbe.thy ===== *)
theory RateProbe
  imports CommandLine StdPlatform Factories Schedule
begin

text \<open>
  \<open>examples/exchange_rate_probe.cpp\<close> after its command line (\<open>CommandLine\<close>): the platform that stamps
  every pacing sleep of the exchange thread, the sleep probe, the distribution both measurements are
  printed as, and \<open>main\<close>. The stamps are taken among the events of \<open>Exchange\<close>, the overshoots on the
  standard platform.
\<close>

section \<open>Distributions\<close>

text \<open>A count of nanoseconds as a floating-point number of milliseconds.\<close>

definition toMs :: "(rat \<Rightarrow> double) \<Rightarrow> time \<Rightarrow> double" where
  "toMs rnd d = ddiv rnd (rnd (of_int d)) (Fin 1000000)"

text \<open>\<open>std::sort\<close>; its result is sorted when no element is NaN.\<close>

fun insert_double :: "double \<Rightarrow> double list \<Rightarrow> double list" where
  "insert_double x [] = [x]"
| "insert_double x (y # ys) = (if dlt y x then y # insert_double x ys else x # y # ys)"

definition sort_doubles :: "double list \<Rightarrow> double list" where
  "sort_doubles ms = foldr insert_double ms []"

record Distribution =
  d_samples :: nat
  d_median :: double
  d_p90 :: double
  d_p99 :: double
  d_front :: double
  d_back :: double

text \<open>
  \<open>at(q)\<close>, with the \<open>size_t\<close> arithmetic of the code: the element before an empty sample is number
  \<open>2 ^ 64 - 1\<close>. \<open>None\<close> is an access outside the sample, or a conversion out of range.
\<close>

definition last_index :: "double list \<Rightarrow> nat" where
  "last_index ms = unat (of_nat (length ms) - 1 :: u64)"

definition quantile :: "(rat \<Rightarrow> double) \<Rightarrow> double \<Rightarrow> double list \<Rightarrow> double option" where
  "quantile rnd q ms =
     (case dmul rnd q (rnd (of_nat (last_index ms))) of
        Fin x \<Rightarrow> (if 0 \<le> x \<and> nat \<lfloor>x\<rfloor> < length ms then Some (ms ! nat \<lfloor>x\<rfloor>) else None)
      | _ \<Rightarrow> None)"

definition printDistribution :: "(rat \<Rightarrow> double) \<Rightarrow> double list \<Rightarrow> Distribution option" where
  "printDistribution rnd sample =
     (let ms = sort_doubles sample
      in case (quantile rnd (rnd (1 / 2)) ms, quantile rnd (rnd (9 / 10)) ms, quantile rnd (rnd (99 / 100)) ms) of
           (Some median, Some p90, Some p99) \<Rightarrow>
             Some \<lparr>d_samples = length ms, d_median = median, d_p90 = p90, d_p99 = p99, d_front = hd ms, d_back = last ms\<rparr>
         | _ \<Rightarrow> None)"

section \<open>The sleep probe\<close>

text \<open>The platform is its clock and its \<open>sleepUntil\<close>.\<close>

fun overshoots ::
  "(rat \<Rightarrow> double) \<Rightarrow> ('o \<Rightarrow> time \<times> 'o) \<Rightarrow> (time \<Rightarrow> 'o \<Rightarrow> 'o option) \<Rightarrow> nat \<Rightarrow> 'o \<Rightarrow> (double list \<times> 'o) option" where
  "overshoots rnd now sleepUntil 0 w = Some ([], w)"
| "overshoots rnd now sleepUntil (Suc i) w =
     (let (t, w) = now w;
          deadline = t + ns_of_ms 3
      in case sleepUntil deadline w of
           None \<Rightarrow> None
         | Some w \<Rightarrow>
             (let (t, w) = now w
              in case overshoots rnd now sleepUntil i w of
                   None \<Rightarrow> None
                 | Some (os, w) \<Rightarrow> Some (toMs rnd (t - deadline) # os, w)))"

definition probeSleepGranularity ::
  "(rat \<Rightarrow> double) \<Rightarrow> ('o \<Rightarrow> time \<times> 'o) \<Rightarrow> (time \<Rightarrow> 'o \<Rightarrow> 'o option) \<Rightarrow> 'o \<Rightarrow> (Distribution \<times> 'o) option" where
  "probeSleepGranularity rnd now sleepUntil w =
     (case overshoots rnd now sleepUntil 50 w of
        None \<Rightarrow> None
      | Some (os, w) \<Rightarrow> map_option (\<lambda>d. (d, w)) (printDistribution rnd os))"

section \<open>The stamping platform\<close>

text \<open>
  The exchange thread on a \<open>TimestampingPlatform\<close>: once it calls \<open>sleepUntil\<close>, its next step is the
  stamp, and only then does it sleep. \<open>unstamped\<close> says that it is between the two.
\<close>

record 'l probe =
  probe_world :: "'l world"
  unstamped :: bool
  stamps :: "time list"

definition probe_start :: "'l world \<Rightarrow> 'l probe" where
  "probe_start w = \<lparr>probe_world = w, unstamped = False, stamps = []\<rparr>"

definition probe_fire :: "'l exchange_op \<Rightarrow> event \<Rightarrow> 'l probe \<Rightarrow> 'l probe option" where
  "probe_fire xchg e p =
     (if e = ThreadStep \<and> unstamped p
      then Some (p\<lparr>unstamped := False, stamps := stamps p @ [clock (probe_world p)]\<rparr>)
      else case fire xchg e (probe_world p) of
             None \<Rightarrow> None
           | Some w \<Rightarrow> Some (p\<lparr>probe_world := w, unstamped := (unstamped p \<or> e = ThreadStep \<and> pc (gs (probe_world p)) = Pacing)\<rparr>))"

fun probe_run :: "'l exchange_op \<Rightarrow> event list \<Rightarrow> 'l probe \<Rightarrow> 'l probe" where
  "probe_run xchg [] p = p"
| "probe_run xchg (e # es) p = probe_run xchg es (case probe_fire xchg e p of None \<Rightarrow> p | Some p \<Rightarrow> p)"

section \<open>Main\<close>

text \<open>The cast truncates; \<open>None\<close> where it is not defined.\<close>

definition truncate_double :: "double \<Rightarrow> int option" where
  "truncate_double a = (case a of Fin x \<Rightarrow> Some (if 0 \<le> x then \<lfloor>x\<rfloor> else - \<lfloor>- x\<rfloor>) | _ \<Rightarrow> None)"

definition probe_period :: "(rat \<Rightarrow> double) \<Rightarrow> Options \<Rightarrow> int option" where
  "probe_period rnd options = truncate_double (ddiv rnd (Fin 1000000) (opt_hz options))"

fun intervals :: "time list \<Rightarrow> time list" where
  "intervals (t # u # ts) = (u - t) # intervals (u # ts)"
| "intervals ts = []"

definition achieved_hz :: "(rat \<Rightarrow> double) \<Rightarrow> time list \<Rightarrow> double" where
  "achieved_hz rnd ts =
     ddiv rnd (dmul rnd (Fin 1000) (rnd (of_nat (length (intervals ts))))) (toMs rnd (last ts - hd ts))"

datatype probe_end =
    Usage
  | NoCycles
  | ProbeFailed exc
  | Measured double Distribution

fun probe_exit :: "probe_end \<Rightarrow> int" where
  "probe_exit Usage = 2"
| "probe_exit NoCycles = 1"
| "probe_exit (ProbeFailed e) = 1"
| "probe_exit (Measured hz d) = 0"

definition measure_stamps :: "(rat \<Rightarrow> double) \<Rightarrow> time list \<Rightarrow> probe_end option" where
  "measure_stamps rnd ts =
     (if length ts < 2 then Some NoCycles
      else map_option (Measured (achieved_hz rnd ts)) (printDistribution rnd (map (toMs rnd) (intervals ts))))"

definition probe_config :: "Options \<Rightarrow> SerialConfig" where
  "probe_config options =
     (SerialConfig_defaults (the (opt_port options)))\<lparr>cfg_baudrate := of_int (opt_baudrate options)\<rparr>"

text \<open>
  \<open>sleep_probe\<close> is the run of \<open>probeSleepGranularity\<close>; \<open>build\<close> is the constructor on the serial of the
  options, with the period; \<open>es\<close> is what the others do until the stamps are read, which is no earlier
  than the seconds asked for. \<open>None\<close>: not there yet, or undefined.
\<close>

definition probe_main ::
  "(rat \<Rightarrow> double) \<Rightarrow> nat \<Rightarrow> string list \<Rightarrow> (Distribution \<times> 'o) option \<Rightarrow>
     ('p DefaultSerial \<Rightarrow> u8 \<Rightarrow> int \<Rightarrow> exc + 'l world) \<Rightarrow> 'l exchange_op \<Rightarrow> event list \<Rightarrow> probe_end option" where
  "probe_main rnd bits args sleep_probe build xchg es =
     (case parseOptions rnd bits args of
        None \<Rightarrow> Some Usage
      | Some options \<Rightarrow>
          do { _ \<leftarrow> sleep_probe;
               period \<leftarrow> probe_period rnd options;
               (case build (DefaultSerial_create (probe_config options)) kDefaultModbusSlaveAddress period of
                  Inl e \<Rightarrow> Some (ProbeFailed e)
                | Inr w \<Rightarrow>
                    let p = probe_run xchg es (probe_start w)
                    in if clock (probe_world p) < clock w + ns_of_ms (1000 * opt_seconds options) then None
                       else measure_stamps rnd (stamps p)) })"

end
