(* ===== verification/CommandLineProperties.thy ===== *)
theory CommandLineProperties
  imports CommandLine UnitsProperties
begin

text \<open>
  Properties of the examples' command lines: what the options of the rate probe accept, and which
  texts \<open>move_gripper\<close> takes for a baud rate.
\<close>

section \<open>Numbers in decimal\<close>

lemma digit_char_isdigit: "d < 10 \<Longrightarrow> c_isdigit (digit_char d)"
proof -
  assume "d < 10"
  then have "d \<in> {0, 1, 2, 3, 4, 5, 6, 7, 8, 9}" by auto
  then show ?thesis by (auto simp: c_isdigit_def digit_char_def)
qed

lemma to_string_isdigit: "\<forall>c \<in> set (to_string n). c_isdigit c"
proof (induction n rule: to_string.induct)
  case (1 n)
  then show ?case
    by (subst to_string.simps) (auto simp: digit_char_isdigit)
qed

lemma to_string_nonempty [simp]: "to_string n \<noteq> []"
  by (subst to_string.simps) simp

lemma nonempty_to_string [simp]: "[] \<noteq> to_string n"
  using to_string_nonempty [of n] by metis

lemma take_digits_to_string: "take_digits (to_string n) = Some (n, [])"
  using to_string_isdigit [of n]
  by (simp add: take_digits_def Let_def takeWhile_eq_all_conv [THEN iffD2] parse_decimal_to_string)

lemma digit_no_space: "c_isdigit c \<Longrightarrow> \<not> c_isspace c \<and> c \<noteq> CHR ''-'' \<and> c \<noteq> CHR ''+''"
  by (auto simp: c_isdigit_def c_isspace_def)

lemma to_string_front:
  shows "skip_space (to_string n) = to_string n" "take_sign (to_string n) = (False, to_string n)"
proof -
  obtain c cs where s: "to_string n = c # cs" by (cases "to_string n") auto
  then have "c_isdigit c" using to_string_isdigit [of n] by simp
  from digit_no_space [OF this] show "skip_space (to_string n) = to_string n" "take_sign (to_string n) = (False, to_string n)"
    by (simp_all add: s skip_space_def take_sign_def)
qed

lemma minus_front: "take_sign (skip_space (CHR ''-'' # s)) = (True, s)"
  by (simp add: skip_space_def take_sign_def c_isspace_def)

lemma stoul_to_string: "stoul w (to_string n) = (if n < 2 ^ w then Parsed n else Out_of_range)"
  by (simp add: stoul_def to_string_front take_digits_to_string)

lemma stoul_minus:
  "stoul w (CHR ''-'' # to_string n) = (if n < 2 ^ w then Parsed (nat (- int n mod 2 ^ w)) else Out_of_range)"
  by (simp add: stoul_def minus_front take_digits_to_string)

lemma parseLong_to_string:
  assumes "hi < 2 ^ (w - 1) - 1"
  shows "parseLong w (to_string n) lo hi = (if lo \<le> int n \<and> int n \<le> hi then Some (int n) else None)"
proof -
  have "max (- (2 ^ (w - 1))) (min (2 ^ (w - 1) - 1) (int n)) = min (2 ^ (w - 1) - 1) (int n)"
    by (simp add: max_def min_def not_le)
  then show ?thesis
    using assms
    by (auto simp: parseLong_def strtol_def to_string_front take_digits_to_string min_def not_le)
qed

section \<open>The baud rate\<close>

text \<open>\<open>move_gripper\<close> reads a baud rate back: the decimal rendering of a number is accepted exactly when
  the number lies between 1 and 1000000, and then as itself, on every platform.\<close>

theorem baudrate_roundtrip:
  assumes "w \<in> {32, 64}"
  shows "parse_baudrate w (to_string n) = (if 1 \<le> n \<and> n \<le> 1000000 then Some (of_nat n) else None)"
proof -
  have "n < 2 ^ w" if "n \<le> 1000000"
  proof -
    have "(1000000 :: nat) < 2 ^ 20" by simp
    also have "(2 :: nat) ^ 20 \<le> 2 ^ w" using assms by (intro power_increasing) auto
    finally show ?thesis using that by simp
  qed
  then show ?thesis by (auto simp: parse_baudrate_def stoul_to_string kMinBaudrate_def kMaxBaudrate_def)
qed

lemma baudrate_roundtrip_witness:
  "parse_baudrate 64 (to_string 115200) = Some 115200"
  using baudrate_roundtrip [of 64 115200] by simp

text \<open>C39: The bounds on the parsed value do not catch every negative number, as the comment in
  \<open>move_gripper\<close> has it: \<open>stoul\<close> negates in \<open>unsigned long\<close>, so for every supported rate there is a
  negative number that is taken for it.\<close>

theorem negative_baudrate_accepted:
  assumes "w \<in> {32, 64}" and "1 \<le> r" and "r \<le> 1000000"
  shows "parse_baudrate w (''-'' @ to_string (2 ^ w - r)) = Some (of_nat r)"
proof -
  have "(1000000 :: nat) < 2 ^ 20" by simp
  also have "(2 :: nat) ^ 20 \<le> 2 ^ w" using assms(1) by (intro power_increasing) auto
  finally have r: "r < 2 ^ w" using assms(3) by simp
  then have "- int (2 ^ w - r) = int r - 2 ^ w" by simp
  then have "- int (2 ^ w - r) mod 2 ^ w = int r mod 2 ^ w"
    by (metis minus_mod_self2)
  also have "\<dots> = int r"
    using r by (metis of_nat_less_iff of_nat_numeral of_nat_power mod_pos_pos_trivial of_nat_0_le_iff)
  finally have "stoul w (''-'' @ to_string (2 ^ w - r)) = Parsed r"
    using assms(2) r by (simp add: stoul_minus)
  then show ?thesis using assms by (simp add: parse_baudrate_def kMinBaudrate_def kMaxBaudrate_def)
qed

lemma negative_baudrate_accepted_witness:
  "parse_baudrate 64 (''-'' @ to_string 18446744073709436416) = Some 115200"
  using negative_baudrate_accepted [of 64 115200] by simp

section \<open>The options\<close>

text \<open>The arguments as pairs of a name and its value.\<close>

fun arg_pairs :: "string list \<Rightarrow> (string \<times> string) list" where
  "arg_pairs (option_name # v # args) = (option_name, v) # arg_pairs args"
| "arg_pairs args = []"

definition options_in_range :: "(rat \<Rightarrow> double) \<Rightarrow> Options \<Rightarrow> bool" where
  "options_in_range rnd o1 \<longleftrightarrow>
     dle (rnd (1 / 10)) (opt_hz o1) \<and> dle (opt_hz o1) (Fin 1000)
   \<and> 1 \<le> opt_seconds o1 \<and> opt_seconds o1 \<le> 3600
   \<and> 1200 \<le> opt_baudrate o1 \<and> opt_baudrate o1 \<le> 3000000"

definition known_option :: "string \<Rightarrow> bool" where
  "known_option option_name \<longleftrightarrow> option_name \<in> {''--port'', ''--hz'', ''--seconds'', ''--baudrate''}"

lemma parseLong_range: "parseLong w v lo hi = Some x \<Longrightarrow> lo \<le> x \<and> x \<le> hi"
  by (auto simp: parseLong_def split: prod.splits if_splits)

lemma parseDouble_range: "parseDouble rnd v lo hi = Some x \<Longrightarrow> dle lo x \<and> dle x hi"
  by (auto simp: parseDouble_def split: prod.splits if_splits)

lemma read_option_range:
  assumes "read_option rnd w n v o1 = Some o2" and "options_in_range rnd o1"
  shows "options_in_range rnd o2 \<and> known_option n \<and>
    opt_port o2 = (if n = ''--port'' then Some v else opt_port o1)"
  using assms
  by (auto simp: read_option_def options_in_range_def known_option_def dest: parseLong_range parseDouble_range
      split: if_splits)

fun last_port :: "(string \<times> string) list \<Rightarrow> string option \<Rightarrow> string option" where
  "last_port [] p = p"
| "last_port ((n, v) # ps) p = last_port ps (if n = ''--port'' then Some v else p)"

lemma read_options_range:
  "read_options rnd w args o1 = Some o2 \<Longrightarrow> options_in_range rnd o1 \<Longrightarrow>
     options_in_range rnd o2 \<and> (\<forall>(n, v) \<in> set (arg_pairs args). known_option n) \<and>
     opt_port o2 = last_port (arg_pairs args) (opt_port o1)"
proof (induction rnd w args o1 rule: read_options.induct)
  case (1 rnd w n v args o1)
  then obtain o' where o': "read_option rnd w n v o1 = Some o'" "read_options rnd w args o' = Some o2"
    by (auto split: option.splits)
  from read_option_range [OF o'(1) "1.prems"(2)] "1.IH" [OF o'(1,2)] show ?case by simp
qed auto

lemma parseOptions_facts:
  assumes "parseOptions rnd w args = Some options" and "ieee rnd"
  shows "even (length args) \<and> (\<forall>(n, v) \<in> set (arg_pairs args). known_option n)
    \<and> opt_port options = last_port (arg_pairs args) None \<and> opt_port options \<noteq> None
    \<and> options_in_range rnd options \<and> isfinite (opt_hz options)"
proof -
  have run: "read_options rnd w args Options_defaults = Some options" and "even (length args)" "opt_port options \<noteq> None"
    using assms(1) by (auto simp: parseOptions_def split: if_splits option.splits)
  obtain k where k: "rnd (1 / 10) = Fin k" "0 \<le> k" "k \<le> 1"
    using ieee_between [OF assms(2), of 0 "1 / 10" 1] by auto
  have "options_in_range rnd Options_defaults"
    using k by (simp add: options_in_range_def Options_defaults_def)
  from read_options_range [OF run this] have all: "options_in_range rnd options"
      "\<forall>(n, v) \<in> set (arg_pairs args). known_option n" "opt_port options = last_port (arg_pairs args) None"
    by (simp_all add: Options_defaults_def)
  moreover have "isfinite (opt_hz options)"
    using all(1) k(1) by (cases "opt_hz options") (auto simp: options_in_range_def isfinite_def)
  ultimately show ?thesis using \<open>even (length args)\<close> \<open>opt_port options \<noteq> None\<close> by blast
qed

text \<open>C38: What \<open>parseOptions\<close> of the rate probe accepts: an even number of arguments, every name one of the
  four, a port (the last one given), and values within their limits, whatever the arguments say: a
  rate between 0.1 and 1000 Hz that is a number, 1 to 3600 seconds, 1200 to 3000000 baud.\<close>

theorem parseOptions_in_range:
  assumes "parseOptions rnd w args = Some options" and "ieee rnd"
  shows "even (length args) \<and> (\<forall>(n, v) \<in> set (arg_pairs args). known_option n)
    \<and> opt_port options = last_port (arg_pairs args) None \<and> opt_port options \<noteq> None
    \<and> options_in_range rnd options \<and> isfinite (opt_hz options)"
  using parseOptions_facts [OF assms] .

lemma parseOptions_in_range_witness:
  "\<exists>options. parseOptions Fin 64 [''--seconds'', ''7'', ''--port'', ''COM3'', ''--hz'', ''1e2''] = Some options
     \<and> opt_port options = Some ''COM3'' \<and> options_in_range Fin options \<and> isfinite (opt_hz options)"
proof -
  have "parseOptions Fin 64 [''--seconds'', ''7'', ''--port'', ''COM3'', ''--hz'', ''1e2''] =
      Some \<lparr>opt_port = Some ''COM3'', opt_hz = Fin 100, opt_seconds = 7, opt_baudrate = 115200\<rparr>"
    by code_simp
  from parseOptions_in_range [OF this ieee_exact] this show ?thesis by auto
qed

end
