(* ===== verification/RateProbeProperties.thy ===== *)
theory RateProbeProperties
  imports RateProbe CommandLineProperties Demo Wait
begin

text \<open>
  Properties of the rate probe: its distributions are ordered, the sleep probe comes to its end with
  overshoots that are never negative, the period it configures stays within its limits, the stamps
  keep to the schedule of the exchange thread, and cycles that fail are stamped all the same.
\<close>

section \<open>Sorted samples\<close>

definition number :: "double \<Rightarrow> bool" where
  "number a \<longleftrightarrow> a \<noteq> NaN"

lemma dle_total: "number a \<Longrightarrow> number b \<Longrightarrow> \<not> dlt a b \<Longrightarrow> dle b a"
  by (cases a; cases b) (auto simp: number_def)

lemma dle_trans: "dle a b \<Longrightarrow> dle b c \<Longrightarrow> dle a c"
  by (cases a; cases b; cases c) auto

lemma dle_same: "number a \<Longrightarrow> dle a a"
  by (cases a) (auto simp: number_def)

lemma dlt_dle: "dlt a b \<Longrightarrow> dle a b"
  by (simp add: dle_def)

lemma insert_double_set: "set (insert_double x ys) = insert x (set ys)"
  by (induction ys) auto

lemma insert_double_length [simp]: "length (insert_double x ys) = Suc (length ys)"
  by (induction ys) auto

lemma insert_double_sorted:
  "number x \<Longrightarrow> (\<forall>y \<in> set ys. number y) \<Longrightarrow> sorted_wrt dle ys \<Longrightarrow> sorted_wrt dle (insert_double x ys)"
proof (induction ys)
  case (Cons y ys)
  show ?case
  proof (cases "dlt y x")
    case True
    then show ?thesis using Cons by (auto simp: insert_double_set dlt_dle)
  next
    case False
    then have "dle x y" using Cons.prems dle_total by simp
    then show ?thesis using False Cons.prems dle_trans by auto
  qed
qed simp

lemma sort_doubles_set: "set (sort_doubles ms) = set ms" "length (sort_doubles ms) = length ms"
  by (induction ms) (simp_all add: sort_doubles_def insert_double_set)

lemma sort_doubles_sorted: "\<forall>m \<in> set ms. number m \<Longrightarrow> sorted_wrt dle (sort_doubles ms)"
proof (induction ms)
  case (Cons m ms)
  then show ?case
    using insert_double_sorted [of m "sort_doubles ms"] sort_doubles_set [of ms]
    by (simp add: sort_doubles_def)
qed (simp add: sort_doubles_def)

section \<open>Quantiles\<close>

lemma last_index_exact:
  assumes "ms \<noteq> []" "length ms \<le> 2 ^ 53"
  shows "last_index ms = length ms - 1"
proof -
  have "(2 :: nat) ^ 53 < 2 ^ 64" by simp
  then have n: "unat (of_nat (length ms) :: u64) = length ms"
    using assms(2) by (simp add: unat_of_nat take_bit_nat_eq_self)
  moreover have "of_nat (length ms) \<noteq> (0 :: u64)" using n assms(1) by (metis length_0_conv unat_0)
  ultimately show ?thesis by (simp add: last_index_def unat_minus_one)
qed

text \<open>An index within the sample, which grows with \<open>q\<close>.\<close>

lemma quantile_index:
  assumes r: "ieee rnd" and q: "0 \<le> q" "q \<le> 1" and n: "ms \<noteq> []" "length ms \<le> 2 ^ 53"
  shows "\<exists>k x. quantile rnd (rnd q) ms = Some (ms ! k) \<and> k < length ms \<and> k = nat \<lfloor>x\<rfloor> \<and> 0 \<le> x \<and>
     (\<exists>y. rnd q = Fin y \<and> rnd (y * of_nat (length ms - 1)) = Fin x)"
proof -
  let ?n = "length ms - 1"
  obtain y where y: "rnd q = Fin y" "0 \<le> y" "y \<le> 1" using ieee_between [OF r, of 0 q 1] q by auto
  have big: "rnd (of_nat ?n) = Fin (of_nat ?n)" using ieee_int [OF r, of "int ?n"] n by simp
  have "0 \<le> y * of_nat ?n" "y * of_nat ?n \<le> of_nat ?n" using y by (simp_all add: mult_left_le_one_le)
  then obtain x where x: "rnd (y * of_nat ?n) = Fin x" "0 \<le> x" "x \<le> of_nat ?n"
    using ieee_between [OF r, of 0 "y * of_nat ?n" "int ?n"] n(2) by (auto simp: le_diff_conv)
  have "\<lfloor>x\<rfloor> \<le> int ?n" using x(3) by (simp add: floor_le_iff le_less_trans)
  then have "nat \<lfloor>x\<rfloor> < length ms" using n(1) by (cases ms) auto
  with x y big last_index_exact [OF n] show ?thesis by (auto simp: quantile_def)
qed

lemma quantile_order:
  assumes r: "ieee rnd" and q: "0 \<le> p" "p \<le> q" "q \<le> 1" and n: "ms \<noteq> []" "length ms \<le> 2 ^ 53"
    and s: "sorted_wrt dle ms" "\<forall>m \<in> set ms. number m"
  shows "\<exists>a b. quantile rnd (rnd p) ms = Some a \<and> quantile rnd (rnd q) ms = Some b
     \<and> dle a b \<and> dle (hd ms) a \<and> dle b (last ms)"
proof -
  obtain i x u where i: "quantile rnd (rnd p) ms = Some (ms ! i)" "i < length ms" "i = nat \<lfloor>x\<rfloor>" "0 \<le> x"
    "rnd p = Fin u" "rnd (u * of_nat (length ms - 1)) = Fin x"
    using quantile_index [OF r q(1) _ n] q by auto
  obtain j y v where j: "quantile rnd (rnd q) ms = Some (ms ! j)" "j < length ms" "j = nat \<lfloor>y\<rfloor>" "0 \<le> y"
    "rnd q = Fin v" "rnd (v * of_nat (length ms - 1)) = Fin y"
    using quantile_index [OF r _ q(3) n] q by auto
  have "u \<le> v" by (rule ieee_mono_Fin [OF r q(2) i(5) j(5)])
  then have "x \<le> y" using ieee_mono_Fin [OF r _ i(6) j(6)] by (simp add: mult_right_mono)
  then have ij: "i \<le> j" using i(3) j(3) by (simp add: floor_mono nat_mono)
  have order: "dle (ms ! a) (ms ! b)" if "a \<le> b" "b < length ms" for a b
    using that s by (cases "a = b") (auto simp: sorted_wrt_iff_nth_less dle_same)
  have "hd ms = ms ! 0" "last ms = ms ! (length ms - 1)" using n(1) by (simp_all add: hd_conv_nth last_conv_nth)
  then show ?thesis using i(1,2) j(1,2) ij order by auto
qed

lemma printDistribution_ordered:
  assumes r: "ieee rnd" and n: "sample \<noteq> []" "length sample \<le> 2 ^ 53" and s: "\<forall>m \<in> set sample. number m"
  shows "\<exists>d. printDistribution rnd sample = Some d \<and> d_samples d = length sample
     \<and> d_front d \<in> set sample \<and> d_back d \<in> set sample \<and> dle (d_front d) (d_median d)
     \<and> dle (d_median d) (d_p90 d) \<and> dle (d_p90 d) (d_p99 d) \<and> dle (d_p99 d) (d_back d)"
proof -
  let ?ms = "sort_doubles sample"
  note set = sort_doubles_set [of sample]
  have m: "?ms \<noteq> []" "length ?ms \<le> 2 ^ 53" "sorted_wrt dle ?ms" "\<forall>m \<in> set ?ms. number m"
  proof -
    show "?ms \<noteq> []" using n(1) set(2) by (metis length_0_conv)
    show "length ?ms \<le> 2 ^ 53" using n(2) set(2) by simp
    show "sorted_wrt dle ?ms" by (rule sort_doubles_sorted [OF s])
    show "\<forall>m \<in> set ?ms. number m" using s set(1) by simp
  qed
  obtain a b where ab: "quantile rnd (rnd (1 / 2)) ?ms = Some a" "quantile rnd (rnd (9 / 10)) ?ms = Some b"
    "dle a b" "dle (hd ?ms) a" using quantile_order [OF r _ _ _ m, of "1 / 2" "9 / 10"] by auto
  obtain c where c: "quantile rnd (rnd (99 / 100)) ?ms = Some c" "dle b c" "dle c (last ?ms)"
    using quantile_order [OF r _ _ _ m, of "9 / 10" "99 / 100"] ab(2) by auto
  have "hd ?ms \<in> set sample" "last ?ms \<in> set sample"
    using m(1) set(1) hd_in_set [of ?ms] last_in_set [of ?ms] by auto
  then show ?thesis using ab c set(2) by (simp add: printDistribution_def Let_def)
qed

lemma toMs_mono: "ieee rnd \<Longrightarrow> d \<le> e \<Longrightarrow> dle (toMs rnd d) (toMs rnd e)"
  unfolding toMs_def by (rule ddiv_mono) (simp_all add: ieee_mono)

lemma toMs_number: "ieee rnd \<Longrightarrow> number (toMs rnd d)"
  using toMs_mono [of rnd d d] by (auto simp: number_def)

lemma toMs_nonneg:
  assumes "ieee rnd" "0 \<le> d"
  shows "dle (Fin 0) (toMs rnd d)"
proof -
  have "toMs rnd 0 = Fin 0" using ieee_int [OF assms(1), of 0] by (simp add: toMs_def)
  with toMs_mono [OF assms] show ?thesis by simp
qed

section \<open>The sleep probe\<close>

text \<open>On any platform: no sleep of the probe ends earlier than the slack.\<close>

context sleeping_platform
begin

lemma overshoots_end:
  assumes r: "ieee rnd" and three: "ns_of_ms 3 \<le> reach"
  shows "good w \<Longrightarrow> \<exists>os w'. overshoots rnd now sleepUntil n w = Some (os, w') \<and> good w' \<and> length os = n
     \<and> (\<forall>m \<in> set os. number m \<and> dle (toMs rnd (- slack)) m)"
proof (induction n arbitrary: w)
  case (Suc n)
  obtain t w1 where n1: "now w = (t, w1)" by (cases "now w")
  obtain w2 where s: "sleepUntil (t + ns_of_ms 3) w1 = Some w2" "good w2" "t + ns_of_ms 3 - slack \<le> clk w2"
    using sleeps_from_now [OF Suc.prems n1 three] by blast
  obtain u w3 where n2: "now w2 = (u, w3)" by (cases "now w2")
  note r3 = reads [OF s(2) n2]
  obtain os w' where i: "overshoots rnd now sleepUntil n w3 = Some (os, w')" "good w'" "length os = n"
    "\<forall>m \<in> set os. number m \<and> dle (toMs rnd (- slack)) m"
    using Suc.IH [OF conjunct1 [OF r3]] by blast
  have "- slack \<le> u - (t + ns_of_ms 3)" using r3 s(3) by linarith
  then show ?case using n1 s(1) n2 i toMs_mono [OF r] toMs_number [OF r] by simp
qed simp

end

text \<open>The sleep probe comes to its end on the standard platform, on Windows or not, and prints fifty
  overshoots of which none is negative, in the order of their quantiles: the fastest at most the
  median, the median at most the 90th percentile, that at most the 99th, that at most the slowest.\<close>

theorem sleep_probe_reports:
  assumes "ieee rnd" "std_contract ops clk" "3000000 < fuel"
  shows "\<exists>d w'. probeSleepGranularity rnd (steady_now ops) (std_sleepUntil fuel windows ops timer) w = Some (d, w')
     \<and> d_samples d = 50 \<and> dle (Fin 0) (d_front d) \<and> dle (d_front d) (d_median d)
     \<and> dle (d_median d) (d_p90 d) \<and> dle (d_p90 d) (d_p99 d) \<and> dle (d_p99 d) (d_back d)"
proof -
  have "std_good ops clk fuel w" using assms(2,3) by (simp add: std_good_def)
  moreover have "ns_of_ms 3 \<le> int fuel - 1" using assms(3) by (simp add: ns_of_ms_def)
  ultimately obtain os w' where o: "overshoots rnd (steady_now ops) (std_sleepUntil fuel windows ops timer) 50 w = Some (os, w')"
    "length os = 50" "\<forall>m \<in> set os. number m \<and> dle (toMs rnd 0) m"
    using std.overshoots_end [OF assms(1), of fuel ops clk w windows timer 50] by auto
  have "os \<noteq> []" "length os \<le> 2 ^ 53" using o(2) by auto
  from printDistribution_ordered [OF assms(1) this] o(3) obtain d where
    d: "printDistribution rnd os = Some d" "d_samples d = 50" "d_front d \<in> set os" "dle (d_front d) (d_median d)"
     "dle (d_median d) (d_p90 d)" "dle (d_p90 d) (d_p99 d)" "dle (d_p99 d) (d_back d)"
    using o(2) by auto
  have "dle (Fin 0) (d_front d)" using d(3) o(3) toMs_nonneg [OF assms(1), of 0] dle_trans by blast
  then show ?thesis using o(1) d by (simp add: probeSleepGranularity_def)
qed

lemma sleep_probe_reports_witness:
  "\<exists>d w'. probeSleepGranularity Fin (steady_now clock_ops) (std_sleepUntil 3000001 True clock_ops (Some 1)) 0 = Some (d, w')
     \<and> d_samples d = 50 \<and> dle (Fin 0) (d_front d)"
  using sleep_probe_reports [OF ieee_exact clock_ops_contract, of 3000001 True "Some 1" 0] by auto

section \<open>The stamps\<close>

text \<open>
  The stamp of cycle \<open>i\<close> is taken no earlier than \<open>i\<close> periods after the start, and the stamps never
  go back.
\<close>

definition stamps_kept :: "time \<Rightarrow> time \<Rightarrow> 'l probe \<Rightarrow> bool" where
  "stamps_kept t0 period p \<longleftrightarrow>
     (let g = gs (probe_world p); now = clock (probe_world p)
      in cyclePeriod g = period \<and> 0 \<le> period \<and> pc g \<noteq> NotStarted
       \<and> (unstamped p \<longrightarrow> pc g = Sleeping \<and> t0 + int (length (stamps p)) * period \<le> now)
       \<and> t0 + int (length (stamps p) + of_bool (unstamped p)) * period \<le> nextCycle g
       \<and> (pc g \<noteq> Sleeping \<longrightarrow> nextCycle g \<le> now)
       \<and> sorted (stamps p) \<and> (\<forall>t \<in> set (stamps p). t \<le> now)
       \<and> (\<forall>i < length (stamps p). t0 + int i * period \<le> stamps p ! i))"

lemma stamp_kept:
  assumes "stamps_kept t0 period p" "unstamped p"
  shows "stamps_kept t0 period (p\<lparr>unstamped := False, stamps := stamps p @ [clock (probe_world p)]\<rparr>)"
  using assms by (auto simp: stamps_kept_def Let_def sorted_append nth_append less_Suc_eq)

lemma thread_kept:
  assumes k: "stamps_kept t0 period p" and u: "\<not> unstamped p"
    and s: "thread_step xchg (clock (probe_world p)) (gs (probe_world p)) = Some g"
  shows "stamps_kept t0 period (p\<lparr>probe_world := (probe_world p)\<lparr>gs := g\<rparr>,
    unstamped := (pc (gs (probe_world p)) = Pacing)\<rparr>)"
proof -
  note n = thread_step_next [OF s] thread_step_period [OF s]
  have wake: "nextCycle (gs (probe_world p)) \<le> clock (probe_world p)"
    if "pc (gs (probe_world p)) = Sleeping"
    using s that by (auto simp: step_defs split: if_splits)
  show ?thesis
    using k u n wake by (auto simp: stamps_kept_def Let_def algebra_simps split: if_splits)
qed

lemma other_kept:
  assumes "stamps_kept t0 period p" "clock (probe_world p) \<le> c" "pc g = pc (gs (probe_world p))"
    "cyclePeriod g = cyclePeriod (gs (probe_world p))" "nextCycle g = nextCycle (gs (probe_world p))"
  shows "stamps_kept t0 period (p\<lparr>probe_world := \<lparr>clock = c, gs = g\<rparr>\<rparr>)"
  using assms by (auto simp: stamps_kept_def Let_def)

lemma probe_fire_kept:
  assumes k: "stamps_kept t0 period p" and f: "probe_fire xchg e p = Some p'"
  shows "stamps_kept t0 period p'"
proof (cases "e = ThreadStep")
  case True
  show ?thesis
  proof (cases "unstamped p")
    case True
    then show ?thesis using stamp_kept [OF k] f \<open>e = ThreadStep\<close> by (auto simp: probe_fire_def)
  next
    case False
    then obtain g where g: "thread_step xchg (clock (probe_world p)) (gs (probe_world p)) = Some g"
      "p' = p\<lparr>probe_world := (probe_world p)\<lparr>gs := g\<rparr>, unstamped := (pc (gs (probe_world p)) = Pacing)\<rparr>"
      using f \<open>e = ThreadStep\<close> by (auto simp: probe_fire_def split: option.splits)
    show ?thesis unfolding g(2) by (rule thread_kept [OF k False g(1)])
  qed
next
  case False
  then obtain w where w: "fire xchg e (probe_world p) = Some w" "p' = p\<lparr>probe_world := w\<rparr>"
    using f by (auto simp: probe_fire_def split: option.splits)
  have "clock (probe_world p) \<le> clock w \<and> pc (gs w) = pc (gs (probe_world p))
      \<and> cyclePeriod (gs w) = cyclePeriod (gs (probe_world p)) \<and> nextCycle (gs w) = nextCycle (gs (probe_world p))"
    using w(1) False by (cases e) auto
  then have "stamps_kept t0 period (p\<lparr>probe_world := \<lparr>clock = clock w, gs = gs w\<rparr>\<rparr>)"
    by (intro other_kept [OF k]) auto
  moreover have "\<lparr>clock = clock w, gs = gs w\<rparr> = w" by simp
  ultimately show ?thesis unfolding w(2) by simp
qed

lemma probe_run_kept: "stamps_kept t0 period p \<Longrightarrow> stamps_kept t0 period (probe_run xchg es p)"
  by (induction es arbitrary: p) (auto split: option.splits intro: probe_fire_kept)

lemma stamps_kept_start:
  assumes "launch rd seeded started (GripperState_create l period im) = Inr w" "0 \<le> period"
  shows "stamps_kept started period (probe_start w)"
  using launch_start [OF assms(1)] assms(2) by (auto simp: stamps_kept_def probe_start_def Let_def)

text \<open>C32: The stamps of the rate probe keep to the schedule of the exchange thread. However late each of
  them is taken and whatever else runs, they never go back and the one of cycle \<open>i\<close> comes at
  least \<open>i\<close> periods after the thread started, so that \<open>n\<close> stamps take at least \<open>n - 1\<close> periods.\<close>

theorem stamps_paced:
  assumes "launch rd seeded started (GripperState_create l period im) = Inr w" "0 \<le> period"
    and "probe_run xchg es (probe_start w) = p"
  shows "sorted (stamps p) \<and> (\<forall>i < length (stamps p). started + int i * period \<le> stamps p ! i)
     \<and> (stamps p \<noteq> [] \<longrightarrow> started + (int (length (stamps p)) - 1) * period \<le> clock (probe_world p))"
proof -
  have k: "stamps_kept started period p"
    using probe_run_kept [OF stamps_kept_start [OF assms(1,2)], of xchg es] assms(3) by simp
  then have all: "\<forall>i < length (stamps p). started + int i * period \<le> stamps p ! i"
    "\<forall>t \<in> set (stamps p). t \<le> clock (probe_world p)" "sorted (stamps p)"
    by (simp_all add: stamps_kept_def Let_def)
  have "started + (int (length (stamps p)) - 1) * period \<le> clock (probe_world p)" if "stamps p \<noteq> []"
  proof -
    let ?i = "length (stamps p) - 1"
    have "?i < length (stamps p)" using that by simp
    then have "started + int ?i * period \<le> stamps p ! ?i" "stamps p ! ?i \<le> clock (probe_world p)"
      using all(1,2) nth_mem by blast+
    moreover have "int ?i = int (length (stamps p)) - 1" using that by (cases "stamps p") auto
    ultimately show ?thesis by simp
  qed
  with all show ?thesis by blast
qed

definition three_cycles :: "event list" where
  "three_cycles = demo_cycle @ demo_cycle @ demo_cycle"

lemma stamps_paced_witness:
  "sorted (stamps (probe_run demo_link three_cycles (probe_start demo_world)))
     \<and> 0 + (int (length (stamps (probe_run demo_link three_cycles (probe_start demo_world)))) - 1) * 1000
         \<le> clock (probe_world (probe_run demo_link three_cycles (probe_start demo_world)))"
proof -
  have "length (stamps (probe_run demo_link three_cycles (probe_start demo_world))) = 2"
    by code_simp
  then have some: "stamps (probe_run demo_link three_cycles (probe_start demo_world)) \<noteq> []" by auto
  have "(0 :: int) \<le> 1000" by simp
  from stamps_paced [OF demo_launch this HOL.refl, of demo_link three_cycles] some show ?thesis by blast
qed

text \<open>Every accepted command line gives the probe a period of 1 ms to 10 s, and a baud rate that its
  conversion to 32 bits leaves as it is.\<close>

theorem probe_period_range:
  assumes "parseOptions rnd bits args = Some options" "ieee rnd"
  shows "(\<exists>us. probe_period rnd options = Some us \<and> 1000 \<le> us \<and> us \<le> 10000000)
     \<and> uint (cfg_baudrate (probe_config options)) = opt_baudrate options"
proof -
  note facts = parseOptions_facts [OF assms]
  obtain k where k: "rnd (1 / 10) = Fin k" "\<bar>k - 1 / 10\<bar> \<le> \<bar>1 / 10\<bar> / 2 ^ 53"
    using ieee_close [OF assms(2), of "1 / 10"] by auto
  obtain hz where hz: "opt_hz options = Fin hz" "k \<le> hz" "hz \<le> 1000"
    using facts k by (cases "opt_hz options") (auto simp: options_in_range_def isfinite_def)
  have low: "1 / 10 - 1 / 10 / 2 ^ 53 \<le> hz" using k(2) hz(2) unfolding abs_le_iff by simp
  have pos: "0 < hz" using low by simp
  define q where "q = 1000000 / hz"
  have "q \<le> 1000000 / (1 / 10 - 1 / 10 / 2 ^ 53)"
    unfolding q_def using low pos by (intro divide_left_mono) auto
  then have upper: "q \<le> 10000000 + 1 / 10" by simp
  have lower: "1000 \<le> q" using hz(3) pos by (simp add: q_def field_simps)
  obtain x where x: "rnd q = Fin x" "\<bar>x - q\<bar> \<le> \<bar>q\<bar> / 2 ^ 53"
    using ieee_close [OF assms(2), of q] lower upper by auto
  have "1000 \<le> x"
    using ieee_mono [OF assms(2) lower] ieee_int [OF assms(2), of 1000] x(1) by simp
  moreover have "x < 10000001" using x(2) upper lower unfolding abs_le_iff by simp
  ultimately have "probe_period rnd options = Some \<lfloor>x\<rfloor>" "1000 \<le> \<lfloor>x\<rfloor>" "\<lfloor>x\<rfloor> \<le> 10000000"
    using x(1) hz pos by (auto simp: probe_period_def truncate_double_def q_def le_floor_iff floor_le_iff)
  moreover have "uint (cfg_baudrate (probe_config options)) = opt_baudrate options"
    using facts by (simp add: probe_config_def options_in_range_def uint_word_of_int_eq take_bit_int_eq_self)
  ultimately show ?thesis by blast
qed

lemma probe_period_range_witness:
  "\<exists>options us. parseOptions Fin 64 [''--port'', ''COM3'', ''--hz'', ''250'', ''--baudrate'', ''9600''] = Some options
     \<and> probe_period Fin options = Some us \<and> 1000 \<le> us \<and> us \<le> 10000000
     \<and> uint (cfg_baudrate (probe_config options)) = 9600"
proof -
  have o: "parseOptions Fin 64 [''--port'', ''COM3'', ''--hz'', ''250'', ''--baudrate'', ''9600''] =
      Some \<lparr>opt_port = Some ''COM3'', opt_hz = Fin 250, opt_seconds = 5, opt_baudrate = 9600\<rparr>"
    by code_simp
  from probe_period_range [OF o ieee_exact] o show ?thesis by auto
qed

section \<open>Cycles that fail\<close>

lemma probe_fire_silent:
  assumes d: "dead_link xchg" and s: "silent (pc (gs (probe_world p)))" and f: "probe_fire xchg e p = Some p'"
  shows "silent (pc (gs (probe_world p'))) \<and> record_of (probe_world p') = record_of (probe_world p)"
proof (cases "e = ThreadStep \<and> unstamped p")
  case True
  then show ?thesis using f s by (auto simp: probe_fire_def)
next
  case False
  then obtain w where w: "fire xchg e (probe_world p) = Some w" "probe_world p' = w"
    using f by (auto simp: probe_fire_def split: option.splits)
  then obtain n where "wstep xchg (probe_world p) e n w" by (auto simp: fire_wstep)
  from wstep_silent [OF this d s] wstep_same_record [OF this] w(2) show ?thesis by simp
qed

text \<open>A link that counts the exchanges tried on it, and whether one is on its way to its pacing sleep.\<close>

definition counting :: "'l exchange_op \<Rightarrow> ('l \<times> nat) exchange_op" where
  "counting xchg = (\<lambda>(l, n) c. let (answer, l') = xchg l c in (answer, (l', Suc n)))"

definition tried :: "('l \<times> nat) world \<Rightarrow> nat" where
  "tried w = snd (client (gs w))"

fun in_flight :: "thread_pc \<Rightarrow> bool" where
  "in_flight (ExchangeFailed e) = True"
| "in_flight (CycleFailed e) = True"
| "in_flight (Answered c s t) = True"
| "in_flight (Publishing c s t r) = True"
| "in_flight (Published r) = True"
| "in_flight Pacing = True"
| "in_flight _ = False"

definition tallied :: "nat \<Rightarrow> ('l \<times> nat) probe \<Rightarrow> bool" where
  "tallied n0 p \<longleftrightarrow>
     tried (probe_world p) = n0 + length (stamps p) + of_bool (unstamped p) + of_bool (in_flight (pc (gs (probe_world p))))
     \<and> (unstamped p \<longrightarrow> pc (gs (probe_world p)) = Sleeping)"

lemma counting_answer: "fst (counting xchg l c) = fst (xchg (fst l) c)" "snd (snd (counting xchg l c)) = Suc (snd l)"
  by (simp_all add: counting_def split_beta Let_def)

lemma dead_counting: "dead_link xchg \<Longrightarrow> dead_link (counting xchg)"
  by (simp add: dead_link_def counting_answer)

lemma thread_step_tried:
  assumes "thread_step (counting xchg) now g = Some g'"
  shows "snd (client g') = snd (client g) + (if in_flight (pc g') \<and> \<not> in_flight (pc g) then 1 else 0)
    \<and> (in_flight (pc g) \<and> \<not> in_flight (pc g') \<longleftrightarrow> pc g = Pacing) \<and> (pc g = Pacing \<longrightarrow> pc g' = Sleeping)"
proof (cases "pc g")
  case (OnWire c)
  have "snd (snd (counting xchg (client g) c)) = Suc (snd (client g))" by (rule counting_answer)
  with assms OnWire show ?thesis by (auto simp: step_defs split: prod.splits sum.splits)
qed (use assms in \<open>auto simp: step_defs split: if_splits prod.splits\<close>)

lemma probe_fire_tallied:
  assumes k: "tallied n0 p" and f: "probe_fire (counting xchg) e p = Some p'"
  shows "tallied n0 p'"
proof (cases "e = ThreadStep")
  case True
  show ?thesis
  proof (cases "unstamped p")
    case True
    then show ?thesis using k f \<open>e = ThreadStep\<close> by (auto simp: probe_fire_def tallied_def)
  next
    case False
    then obtain g where g: "thread_step (counting xchg) (clock (probe_world p)) (gs (probe_world p)) = Some g"
      "p' = p\<lparr>probe_world := (probe_world p)\<lparr>gs := g\<rparr>, unstamped := (pc (gs (probe_world p)) = Pacing)\<rparr>"
      using f \<open>e = ThreadStep\<close> by (auto simp: probe_fire_def split: option.splits)
    show ?thesis using k False thread_step_tried [OF g(1)] unfolding g(2)
      by (cases "pc (gs (probe_world p)) = Pacing") (auto simp: tallied_def tried_def)
  qed
next
  case False
  then obtain w where w: "fire (counting xchg) e (probe_world p) = Some w" "p' = p\<lparr>probe_world := w\<rparr>"
    using f by (auto simp: probe_fire_def split: option.splits)
  have "client (gs w) = client (gs (probe_world p)) \<and> pc (gs w) = pc (gs (probe_world p))"
    using w(1) False by (cases e) (auto simp: gs_setCommand_def stop_running_def stop_close_def)
  with k show ?thesis unfolding w(2) by (simp add: tallied_def tried_def)
qed

lemma probe_run_tallied: "tallied n0 p \<Longrightarrow> tallied n0 (probe_run (counting xchg) es p)"
  by (induction es arbitrary: p) (auto split: option.splits intro: probe_fire_tallied)

lemma probe_run_silent:
  "dead_link xchg \<Longrightarrow> silent (pc (gs (probe_world q)))
     \<Longrightarrow> record_of (probe_world (probe_run xchg es q)) = record_of (probe_world q)"
proof (induction es arbitrary: q)
  case (Cons e es)
  then show ?case using probe_fire_silent by (cases "probe_fire xchg e q") force+
qed simp

lemma length_intervals: "length (intervals ts) = length ts - 1"
  by (induction ts rule: intervals.induct) auto

lemma two_stamps_measured:
  assumes "ieee rnd" "2 \<le> length ts" "length ts \<le> 2 ^ 53"
  shows "\<exists>hz d. measure_stamps rnd ts = Some (Measured hz d) \<and> d_samples d = length ts - 1"
proof -
  let ?ms = "map (toMs rnd) (intervals ts)"
  have "length ?ms = length ts - 1" by (simp add: length_intervals)
  moreover from this have "?ms \<noteq> []" "length ?ms \<le> 2 ^ 53" using assms(2,3) by auto
  moreover have "\<forall>m \<in> set ?ms. number m" using toMs_number [OF assms(1)] by simp
  ultimately obtain d where "printDistribution rnd ?ms = Some d" "d_samples d = length ts - 1"
    using printDistribution_ordered [OF assms(1), of ?ms] by auto
  then show ?thesis using assms(2) by (simp add: measure_stamps_def)
qed

text \<open>C33: A cycle that fails is stamped like one that completes its exchange. Let every exchange fail once
  the thread runs, and let \<open>n\<close> have been tried by the time the stamps are read: the published record is
  still the one the constructor left, there is a stamp for every one of the \<open>n\<close>, but perhaps the one
  whose cycle is still under way, and with three or more the probe prints an achieved rate and a
  distribution of intervals and reports success.\<close>

theorem failed_cycles_are_stamped:
  assumes "dead_link xchg" "launch rd seeded started (GripperState_create l period im) = Inr w" "ieee rnd"
    and "probe_run (counting xchg) es (probe_start w) = p"
    and "n = tried (probe_world p) - tried w" "n \<le> 2 ^ 53"
  shows "record_of (probe_world p) = record_of w \<and> n - 1 \<le> length (stamps p) \<and> length (stamps p) \<le> n
     \<and> (3 \<le> n \<longrightarrow> (\<exists>hz d. measure_stamps rnd (stamps p) = Some (Measured hz d) \<and> d_samples d = length (stamps p) - 1
          \<and> probe_exit (Measured hz d) = 0))"
proof -
  note at = launch_start [OF assms(2)]
  have "tallied (tried w) (probe_start w)" using at by (auto simp: tallied_def probe_start_def)
  from probe_run_tallied [OF this, of xchg es] assms(4) have t: "tallied (tried w) p" by simp
  then have len: "n - 1 \<le> length (stamps p)" "length (stamps p) \<le> n"
    unfolding assms(5) tallied_def by (auto simp: of_bool_def split: if_splits)
  have "silent (pc (gs (probe_world (probe_start w))))" using at by (auto simp: probe_start_def)
  from probe_run_silent [OF dead_counting [OF assms(1)] this, of es] assms(4)
  have "record_of (probe_world p) = record_of w" by (simp add: probe_start_def)
  moreover have "\<exists>hz d. measure_stamps rnd (stamps p) = Some (Measured hz d) \<and> d_samples d = length (stamps p) - 1" if "3 \<le> n"
    by (rule two_stamps_measured [OF assms(3)]) (use len that assms(6) in simp_all)
  ultimately show ?thesis using len by auto
qed

definition counted_world :: "(unit \<times> nat) world" where
  "counted_world = \<lparr>clock = 0, gs = start 0 (snd (initializeImage (\<lambda>l. (Inr GripperStatus_init, l)) 0
     (GripperState_create ((), 0) 1000 demo_image)))\<rparr>"

definition lost_cycles :: "event list" where
  "lost_cycles = concat (replicate 3 (Tick 1000 # replicate 8 ThreadStep))"

lemma failed_cycles_are_stamped_witness:
  "\<exists>hz d. measure_stamps Fin (stamps (probe_run (counting lost_link) lost_cycles (probe_start counted_world))) = Some (Measured hz d)
     \<and> tried (probe_world (probe_run (counting lost_link) lost_cycles (probe_start counted_world))) = 3
     \<and> record_of (probe_world (probe_run (counting lost_link) lost_cycles (probe_start counted_world))) = record_of counted_world"
proof -
  have l: "launch (\<lambda>l. (Inr GripperStatus_init, l)) 0 0 (GripperState_create ((), 0) 1000 demo_image) = Inr counted_world"
    by code_simp
  have n: "tried (probe_world (probe_run (counting lost_link) lost_cycles (probe_start counted_world))) = 3"
    "tried counted_world = 0" by code_simp+
  from failed_cycles_are_stamped [OF dead_lost_link l ieee_exact HOL.refl HOL.refl, of lost_cycles] n
  show ?thesis by auto
qed

end
