(* ===== verification/Examples.thy ===== *)
theory Examples
  imports Recorder Factories CommandLine
begin

text \<open>
  The example programs over the public interface: \<open>connectGripper\<close> of \<open>examples/gripper_events.cpp\<close>,
  \<open>main\<close> of \<open>examples/move_gripper.cpp\<close>, \<open>examples/quick_start.cpp\<close> and \<open>examples/exchange_log.cpp\<close>,
  and the snippets the documentation quotes (\<open>examples/snippets.cpp\<close>). What a program does on a
  connected gripper runs against a schedule, like the procedures it calls.
\<close>

section \<open>Connecting\<close>

definition newline :: string where "newline = [CHR 0x0A]"

text \<open>
  \<open>made\<close> is what the constructor did (\<open>Gripper_connect\<close>). An exception that is a \<open>std::exception\<close> ends
  in the checklist on the console and a null pointer; any other propagates.
\<close>

definition connection_checklist :: "ConnectionConfig \<Rightarrow> string \<Rightarrow> string" where
  "connection_checklist config what =
     ''Error: '' @ what @ newline @ newline
     @ ''Could not open a gripper on '' @ quoted (cfg_port (cc_serial config)) @ ''. Check that:'' @ newline
     @ ''  - the gripper is connected and powered;'' @ newline
     @ ''  - the port name is correct (Linux /dev/ttyUSB0, macOS /dev/tty.usbserial-*, Windows COM3);'' @ newline
     @ ''  - you have permission to use it (Linux: join the '' @ quoted ''dialout'' @ '' group).'' @ newline"

definition connectGripper :: "ConnectionConfig \<Rightarrow> exc + 'g \<Rightarrow> exc + 'g option \<times> string" where
  "connectGripper config made =
     (case made of
        Inr g \<Rightarrow> Inr (Some g, [])
      | Inl e \<Rightarrow> (if e = UnknownException then Inl e else Inr (None, connection_checklist config (exc_what e))))"

section \<open>Moving\<close>

datatype exit_code = EXIT_SUCCESS | EXIT_FAILURE

definition kSpeed :: "(rat \<Rightarrow> double) \<Rightarrow> double" where "kSpeed rnd = rnd (150 / 1000)"
definition kEffort :: double where "kEffort = Fin 1"

text \<open>What \<open>std::optional<uint8_t>::value\<close> yields, \<open>None\<close> for its exception.\<close>

definition register_byte :: "register_value \<Rightarrow> u8 option" where
  "register_byte v = (case v of Register b \<Rightarrow> Some b | _ \<Rightarrow> None)"

definition move_command :: "(rat \<Rightarrow> double) \<Rightarrow> GripperCommand option" where
  "move_command rnd =
     do { s \<leftarrow> register_byte (speedToRegister rnd (kSpeed rnd) (k2F85 rnd));
          f \<leftarrow> register_byte (effortToRegister rnd kEffort);
          Some (GripperCommand_defaults\<lparr>speed := s, force := f\<rparr>) }"

text \<open>\<open>main\<close> once the gripper is connected.\<close>

definition move_gripper_moves ::
  "(rat \<Rightarrow> double) \<Rightarrow> (double \<Rightarrow> string) \<Rightarrow> 'l exchange_op \<Rightarrow> 'l sched_run \<Rightarrow> (exit_code \<times> log_line list \<times> 'l sched_run) option" where
  "move_gripper_moves rnd mm xchg r =
     do { (ok, l1, r) \<leftarrow> activateOrRecover xchg r;
          let lines = (Info, ''Activating...'') # l1;
          if \<not> ok then Some (EXIT_FAILURE, lines, r)
          else (case move_command rnd of
                  None \<Rightarrow> Some (EXIT_FAILURE, lines @ [(Error, ''the requested speed or effort has no register value'')], r)
                | Some command \<Rightarrow>
                    do { (ok, command, l2, r) \<leftarrow> moveTo rnd mm xchg command (maxOpening (k2F85 rnd)) (k2F85 rnd) r;
                         let lines = lines @ (Info, ''Opening...'') # l2;
                         if \<not> ok then Some (EXIT_FAILURE, lines, r)
                         else do { (ok, command, l3, r) \<leftarrow> moveTo rnd mm xchg command (minOpening (k2F85 rnd)) (k2F85 rnd) r;
                                   Some (if ok then EXIT_SUCCESS else EXIT_FAILURE,
                                         lines @ (Info, ''Closing...'') # l3, r) } }) }"

text \<open>The arguments: the configuration, or the text on the console.\<close>

definition move_gripper_config :: "nat \<Rightarrow> string \<Rightarrow> string list \<Rightarrow> string + ConnectionConfig" where
  "move_gripper_config bits program args =
     (case args of
        [] \<Rightarrow> Inl (''Usage: '' @ program @ '' <port> [baudrate]'' @ newline)
      | port # rest \<Rightarrow>
          (let serial = SerialConfig_defaults port
           in case rest of
                [] \<Rightarrow> Inr (ConnectionConfig_of serial)
              | text # _ \<Rightarrow>
                  (case parse_baudrate bits text of
                     None \<Rightarrow> Inl (''Invalid baudrate '' @ quoted text @ newline)
                   | Some rate \<Rightarrow> Inr (ConnectionConfig_of (serial\<lparr>cfg_baudrate := rate\<rparr>)))))"

text \<open>
  \<open>connect\<close> is the constructor on a configuration; \<open>bs\<close> is the schedule from then on. The result is the
  exit code with the run, if there was one; \<open>Inl\<close> is an exception that leaves \<open>main\<close>.
\<close>

definition move_gripper_main ::
  "(rat \<Rightarrow> double) \<Rightarrow> (double \<Rightarrow> string) \<Rightarrow> nat \<Rightarrow> string \<Rightarrow> string list \<Rightarrow> (ConnectionConfig \<Rightarrow> exc + 'l world) \<Rightarrow>
     'l exchange_op \<Rightarrow> event list list \<Rightarrow> (exc + exit_code \<times> 'l sched_run option) option" where
  "move_gripper_main rnd mm bits program args connect xchg bs =
     (case move_gripper_config bits program args of
        Inl message \<Rightarrow> Some (Inr (EXIT_FAILURE, None))
      | Inr config \<Rightarrow>
          (case connectGripper config (connect config) of
             Inl e \<Rightarrow> Some (Inl e)
           | Inr (None, message) \<Rightarrow> Some (Inr (EXIT_FAILURE, None))
           | Inr (Some w, message) \<Rightarrow>
               do { (code, lines, r) \<leftarrow> move_gripper_moves rnd mm xchg (w, bs);
                    Some (Inr (code, Some r)) }))"

section \<open>Quick start\<close>

definition quick_start_command :: GripperCommand where
  "quick_start_command =
     GripperCommand_defaults\<lparr>action := nba_set (action GripperCommand_defaults) (action_index GoTo),
       positionRequest := 100, speed := 255, force := 255\<rparr>"

text \<open>The position printed, on the gripper the constructor left; nothing on the way is checked.\<close>

definition quick_start_run :: "'l exchange_op \<Rightarrow> 'l sched_run \<Rightarrow> (u8 \<times> 'l sched_run) option" where
  "quick_start_run xchg r =
     do { (_, r) \<leftarrow> activate xchg kProcedureTimeout r;
          r \<leftarrow> Gripper_setCommand xchg quick_start_command r;
          (_, r) \<leftarrow> waitForObjectDetection xchg Moving 200 r;
          (_, r) \<leftarrow> waitForMotionEnd xchg 5000 r;
          (st, r) \<leftarrow> Gripper_getStatus xchg r;
          Some (position st, r) }"

section \<open>The logging example\<close>

definition kTargetOpening :: "(rat \<Rightarrow> double) \<Rightarrow> double" where "kTargetOpening rnd = rnd (30 / 1000)"
definition kExchangeRate :: double where "kExchangeRate = Fin 200"
definition kDefaultFile :: string where "kDefaultFile = ''exchange_log.csv''"

definition setSpeed ::
  "(rat \<Rightarrow> double) \<Rightarrow> GripperCommand \<Rightarrow> double \<Rightarrow> bool \<times> GripperCommand \<times> log_line list" where
  "setSpeed rnd command metresPerSecond =
     (case register_byte (speedToRegister rnd metresPerSecond (k2F85 rnd)) of
        None \<Rightarrow> (False, command, [(Error, ''the requested speed has no register value'')])
      | Some s \<Rightarrow> (True, command\<lparr>speed := s\<rparr>, []))"

text \<open>A speed, then a move at that speed.\<close>

definition move_at ::
  "(rat \<Rightarrow> double) \<Rightarrow> (double \<Rightarrow> string) \<Rightarrow> 'l exchange_op \<Rightarrow> GripperCommand \<Rightarrow> double \<Rightarrow> double \<Rightarrow> 'l sched_run
     \<Rightarrow> (bool \<times> GripperCommand \<times> log_line list \<times> 'l sched_run) option" where
  "move_at rnd mm xchg command metresPerSecond opening r =
     (let (ok, command, l1) = setSpeed rnd command metresPerSecond
      in if \<not> ok then Some (False, command, l1, r)
         else do { (ok, command, l2, r) \<leftarrow> moveTo rnd mm xchg command opening (k2F85 rnd) r;
                   Some (ok, command, l1 @ l2, r) })"

text \<open>The main thread while the recorder runs; \<open>None\<close> among the results: the activation failed.\<close>

definition exchange_log_moves ::
  "(rat \<Rightarrow> double) \<Rightarrow> (double \<Rightarrow> string) \<Rightarrow> 'l exchange_op \<Rightarrow> 'l sched_run \<Rightarrow> (bool option \<times> log_line list \<times> 'l sched_run) option" where
  "exchange_log_moves rnd mm xchg r =
     do { (ok, l1, r) \<leftarrow> activateOrRecover xchg r;
          let lines = (Info, ''Activating...'') # l1;
          if \<not> ok then Some (None, lines, r)
          else do { let lines = lines @ [(Info, ''Opening at full speed...'')];
                    (ok, command, l2, r) \<leftarrow>
                      move_at rnd mm xchg GripperCommand_defaults (maxSpeed (k2F85 rnd)) (maxOpening (k2F85 rnd)) r;
                    if \<not> ok then Some (Some False, lines @ l2, r)
                    else do { let lines = lines @ l2 @ [(Info, ''Moving to 30 mm at minimum speed...'')];
                              (ok, command, l3, r) \<leftarrow>
                                move_at rnd mm xchg command (minSpeed (k2F85 rnd)) (kTargetOpening rnd) r;
                              Some (Some ok, lines @ l3, r) } } }"

text \<open>
  The end of \<open>main\<close>: \<open>rec\<close> is the recorder once it is stopped, \<open>failed\<close> whether closing the file
  failed.
\<close>

definition exchange_log_end :: "string \<Rightarrow> bool \<Rightarrow> Recorder \<Rightarrow> bool \<Rightarrow> exit_code \<times> log_line" where
  "exchange_log_end file ok rec failed =
     (let logged = (\<not> writeFailed rec \<and> \<not> failed)
      in (if ok \<and> logged then EXIT_SUCCESS else EXIT_FAILURE,
          (if logged then Info else Error,
           to_string (unat (rec_rows rec)) @ '' rows written to '' @ file @ (if logged then '''' else '' before a write failed'')
             @ '', '' @ to_string (unat (rec_skipped rec)) @ '' exchanges skipped'')))"

definition exchange_log_config :: "string \<Rightarrow> ConnectionConfig" where
  "exchange_log_config port = (ConnectionConfig_of (SerialConfig_defaults port))\<lparr>connectionFrequency := kExchangeRate\<rparr>"

text \<open>
  \<open>opens\<close> tells whether the file could be opened, \<open>bs\<close> is the schedule of the main thread. \<open>rec\<close> is what
  the recorder thread has when \<open>stop()\<close> has joined it; the run that leaves it there is \<open>recorder_run\<close>,
  on the recorder's own schedule, and reads the gripper only.
\<close>

definition exchange_log_main ::
  "(rat \<Rightarrow> double) \<Rightarrow> (double \<Rightarrow> string) \<Rightarrow> string list \<Rightarrow> (string \<Rightarrow> bool) \<Rightarrow> (ConnectionConfig \<Rightarrow> exc + 'l world) \<Rightarrow>
     'l exchange_op \<Rightarrow> event list list \<Rightarrow> Recorder \<Rightarrow> bool \<Rightarrow> (exc + exit_code \<times> 'l sched_run option) option" where
  "exchange_log_main rnd mm args opens connect xchg bs rec failed =
     (case args of
        [] \<Rightarrow> Some (Inr (EXIT_FAILURE, None))
      | port # rest \<Rightarrow>
          (let file = (case rest of [] \<Rightarrow> kDefaultFile | f # _ \<Rightarrow> f);
               config = exchange_log_config port
           in if \<not> opens file then Some (Inr (EXIT_FAILURE, None))
              else case connectGripper config (connect config) of
                     Inl e \<Rightarrow> Some (Inl e)
                   | Inr (None, message) \<Rightarrow> Some (Inr (EXIT_FAILURE, None))
                   | Inr (Some w, message) \<Rightarrow>
                       do { (ok, lines, r) \<leftarrow> exchange_log_moves rnd mm xchg (w, bs);
                            Some (Inr (case ok of
                                         None \<Rightarrow> EXIT_FAILURE
                                       | Some ok \<Rightarrow> fst (exchange_log_end file ok rec failed),
                                       Some r)) }))"

end
