(* ===== verification/Snippets.thy ===== *)
theory Snippets
  imports Examples
begin

text \<open>
  \<open>examples/snippets.cpp\<close>: the functions the documentation quotes. Those that read or command a gripper
  run against a schedule. A branch with an empty body is the condition it tests.
\<close>

section \<open>Blocks and configurations\<close>

definition configureConnection :: ConnectionConfig where
  "configureConnection =
     \<lparr>cc_serial = \<lparr>cfg_port = ''/dev/ttyUSB0'', cfg_baudrate = 115200, cfg_timeout = 500, cfg_latencyTimerMs = 1\<rparr>,
      modbusSlaveAddress = 0x09, connectionFrequency = Fin 100\<rparr>"

definition commandActionBits :: GripperCommand where
  "commandActionBits =
     (let command = GripperCommand_defaults;
          command = command\<lparr>action := action_set (action command) Activate True\<rparr>;
          command = command\<lparr>action := action_set (action command) GoTo True\<rparr>;
          command = command\<lparr>action := action_set (action command) AutoRelease False\<rparr>;
          command = command\<lparr>action := action_set (action command) AutoReleaseOpenDirection True\<rparr>
      in command\<lparr>positionRequest := 100, speed := 255, force := 255\<rparr>)"

text \<open>\<open>set(bit)\<close>, without a value.\<close>

definition set_action :: "ActionRequestBit \<Rightarrow> GripperCommand \<Rightarrow> GripperCommand" where
  "set_action b command = command\<lparr>action := nba_set (action command) (action_index b)\<rparr>"

definition actionRequestBits :: GripperCommand where
  "actionRequestBits =
     (let command = set_action GoTo GripperCommand_defaults
      in command\<lparr>action := action_set (action command) AutoRelease False\<rparr>)"

section \<open>Reading a status\<close>

record StatusFields =
  gOBJ :: ObjectDetection
  gSTA :: ActivationState
  gGTO :: bool
  gACT :: bool
  kFLT :: ControllerFault
  gFLT :: GripperFault
  gPR :: u8
  gPO :: u8
  gCU :: u8

definition status_fields :: "GripperStatus \<Rightarrow> StatusFields" where
  "status_fields st =
     \<lparr>gOBJ = objectDetection (gripperStatus st), gSTA = activationState (gripperStatus st),
      gGTO = goToEnabled (gripperStatus st), gACT = activated (gripperStatus st),
      kFLT = controllerFault (faultStatus st), gFLT = gripperFault (faultStatus st),
      gPR = positionRequestEcho st, gPO = position st, gCU = current st\<rparr>"

definition statusGripperStatusFields ::
  "'l exchange_op \<Rightarrow> 'l sched_run \<Rightarrow> (StatusFields \<times> 'l sched_run) option" where
  "statusGripperStatusFields xchg r = do { (st, r) \<leftarrow> Gripper_getStatus xchg r; Some (status_fields st, r) }"

definition objectDetectionCheck :: "'l exchange_op \<Rightarrow> 'l sched_run \<Rightarrow> (bool \<times> 'l sched_run) option" where
  "objectDetectionCheck xchg r =
     do { (st, r) \<leftarrow> Gripper_getStatus xchg r; Some (objectDetection (gripperStatus st) = Moving, r) }"

definition motionSettledExample :: "'l exchange_op \<Rightarrow> 'l sched_run \<Rightarrow> (bool \<times> 'l sched_run) option" where
  "motionSettledExample xchg r =
     do { (st, r) \<leftarrow> Gripper_getStatus xchg r; Some (objectDetection (gripperStatus st) \<noteq> Moving, r) }"

definition gripperStatusFlags :: "'l exchange_op \<Rightarrow> 'l sched_run \<Rightarrow> (bool \<times> 'l sched_run) option" where
  "gripperStatusFlags xchg r =
     do { (st, r) \<leftarrow> Gripper_getStatus xchg r;
          Some (activated (gripperStatus st) \<and> goToEnabled (gripperStatus st), r) }"

definition statusToString :: "'l exchange_op \<Rightarrow> 'l sched_run \<Rightarrow> (string \<times> 'l sched_run) option" where
  "statusToString xchg r = do { (st, r) \<leftarrow> Gripper_getStatus xchg r; Some (status_toString st, r) }"

section \<open>Units\<close>

text \<open>The results are with the command built; \<open>None\<close> for the result is the exception of \<open>value()\<close>.\<close>

definition normalizedPosition ::
  "(rat \<Rightarrow> double) \<Rightarrow> (double \<Rightarrow> string) \<Rightarrow> 'l exchange_op \<Rightarrow> 'l sched_run
     \<Rightarrow> ((GripperCommand \<times> double) option \<times> 'l sched_run) option" where
  "normalizedPosition rnd render xchg r =
     (case register_byte (fst (normalizedToRegister rnd render (Fin (3 / 4)))) of
        None \<Rightarrow> Some (None, r)
      | Some p \<Rightarrow>
          do { (st, r) \<leftarrow> Gripper_getStatus xchg r;
               Some (Some (GripperCommand_defaults\<lparr>positionRequest := p\<rparr>, normalizedFromRegister rnd (position st)), r) })"

definition si_command :: "(rat \<Rightarrow> double) \<Rightarrow> GripperCommand option" where
  "si_command rnd =
     do { s \<leftarrow> register_byte (speedToRegister rnd (rnd (150 / 1000)) (k2F85 rnd));
          f \<leftarrow> register_byte (effortToRegister rnd (Fin (1 / 2)));
          p \<leftarrow> register_byte (openingToRegister rnd (rnd (40 / 1000)) (k2F85 rnd));
          Some (GripperCommand_defaults\<lparr>speed := s, force := f, positionRequest := p\<rparr>) }"

definition siUnitConversion ::
  "(rat \<Rightarrow> double) \<Rightarrow> 'l exchange_op \<Rightarrow> 'l sched_run \<Rightarrow> ((GripperCommand \<times> double) option \<times> 'l sched_run) option" where
  "siUnitConversion rnd xchg r =
     (case si_command rnd of
        None \<Rightarrow> Some (None, r)
      | Some command \<Rightarrow>
          do { (st, r) \<leftarrow> Gripper_getStatus xchg r;
               Some (map_option (Pair command) (openingFromRegister rnd (position st) (k2F85 rnd)), r) })"

section \<open>Procedures and waits\<close>

definition faultSeverityCheck :: "'l exchange_op \<Rightarrow> 'l sched_run \<Rightarrow> 'l sched_run option" where
  "faultSeverityCheck xchg r =
     do { (st, r) \<leftarrow> Gripper_getStatus xchg r;
          if severity (gripperFault (faultStatus st)) = SeverityMajor
          then do { (res, r) \<leftarrow> recoverFromFault xchg kProcedureTimeout r; Some r }
          else Some r }"

definition activateOnly :: "'l exchange_op \<Rightarrow> 'l sched_run \<Rightarrow> (ActivationResult \<times> 'l sched_run) option" where
  "activateOnly xchg r = activate xchg kProcedureTimeout r"

definition recoverFromFaultOnly :: "'l exchange_op \<Rightarrow> 'l sched_run \<Rightarrow> (ActivationResult \<times> 'l sched_run) option" where
  "recoverFromFaultOnly xchg r = recoverFromFault xchg kProcedureTimeout r"

lemma waitForExchange_length:
  "Gripper_waitForExchange xchg timeout r = Some (res, r') \<Longrightarrow> length (snd r') < length (snd r)"
  by (auto simp: Gripper_waitForExchange_def Gripper_getMostRecentStampedExchange_def bind_eq_Some_conv
      dest!: env_length waitForExchangeCount_length)

function waitForMotionEndByHand :: "'l exchange_op \<Rightarrow> 'l sched_run \<Rightarrow> (bool \<times> 'l sched_run) option" where
  "waitForMotionEndByHand xchg r =
     do { (exchange, r1) \<leftarrow> Gripper_waitForExchange xchg 1000 r;
          (case exchange of
             None \<Rightarrow> Some (False, r1)
           | Some x \<Rightarrow>
               if objectDetection (gripperStatus (xStatus x)) \<noteq> Moving then Some (True, r1)
               else waitForMotionEndByHand xchg r1) }"
  by pat_completeness auto
termination
  by (relation "measure (\<lambda>(xchg, r). length (snd r))") (auto dest: waitForExchange_length)

declare waitForMotionEndByHand.simps [simp del]

definition autorelease_command :: GripperCommand where
  "autorelease_command = set_action AutoRelease GripperCommand_defaults"

definition then_move :: "GripperCommand \<Rightarrow> GripperCommand" where
  "then_move command = (set_action GoTo command)\<lparr>positionRequest := 100\<rparr>"

definition autoreleaseThenMove :: "'l exchange_op \<Rightarrow> 'l sched_run \<Rightarrow> 'l sched_run option" where
  "autoreleaseThenMove xchg r =
     do { let command = autorelease_command;
          r \<leftarrow> Gripper_setCommand xchg command r;
          Gripper_setCommand xchg (then_move command) r }"

text \<open>Whether the second command was set.\<close>

definition autoreleaseThenMoveWithWait :: "'l exchange_op \<Rightarrow> 'l sched_run \<Rightarrow> (bool \<times> 'l sched_run) option" where
  "autoreleaseThenMoveWithWait xchg r =
     do { let command = autorelease_command;
          (sent, r) \<leftarrow> setCommandAndWaitForExchange xchg command 10000 r;
          if sent = None then Some (False, r)
          else do { r \<leftarrow> Gripper_setCommand xchg (then_move command) r; Some (True, r) } }"

text \<open>The exchange returned, with the lines on the console.\<close>

definition waitForMotionToComplete ::
  "'l exchange_op \<Rightarrow> GripperCommand \<Rightarrow> 'l sched_run \<Rightarrow> (StampedExchange option \<times> string list \<times> 'l sched_run) option" where
  "waitForMotionToComplete xchg command r =
     do { (sent, r) \<leftarrow> setCommandAndWaitForExchange xchg command 1000 r;
          let out = (if sent = None then [''no exchange carried the command within 1 s'' @ newline] else []);
          (stopped, r) \<leftarrow> waitForMotionEnd xchg 5000 r;
          let out = out @ (if stopped = None then [''the fingers were still moving after 5 s'' @ newline] else []);
          Some (stopped, out, r) }"

definition waitForHalfwayClosed :: "'l exchange_op \<Rightarrow> 'l sched_run \<Rightarrow> (StampedExchange option \<times> 'l sched_run) option" where
  "waitForHalfwayClosed xchg r = waitFor xchg (\<lambda>x. 128 \<le> position (xStatus x)) 10000 r"

section \<open>Loggers and construction\<close>

text \<open>The levels in the order of the enumerators, by which \<open>level >= Level::Warn\<close> compares.\<close>

fun level_rank :: "Level \<Rightarrow> nat" where
  "level_rank Debug = 0"
| "level_rank Info = 1"
| "level_rank Warn = 2"
| "level_rank Error = 3"

lemma level_rank_inject: "level_rank a = level_rank b \<Longrightarrow> a = b"
  by (cases a; cases b) simp_all

instantiation Level :: linorder
begin

definition less_eq_Level :: "Level \<Rightarrow> Level \<Rightarrow> bool" where
  "a \<le> b \<longleftrightarrow> level_rank a \<le> level_rank b"

definition less_Level :: "Level \<Rightarrow> Level \<Rightarrow> bool" where
  "a < b \<longleftrightarrow> level_rank a < level_rank b"

instance
  by standard (auto simp: less_eq_Level_def less_Level_def intro: level_rank_inject)

end

text \<open>What goes to the UART, write by write.\<close>

definition UartLogger_log :: "Level \<Rightarrow> string \<Rightarrow> string list \<Rightarrow> string list" where
  "UartLogger_log level message uart =
     (uart @ (if Warn \<le> level then [''!! ''] else [])) @ [message]"

definition useCustomLogger ::
  "(rat \<Rightarrow> double) \<Rightarrow> (double \<Rightarrow> string) \<Rightarrow> ('p DefaultSerial \<Rightarrow> u8 \<Rightarrow> int \<Rightarrow> platform option \<Rightarrow> exc + 'g)
     \<Rightarrow> log_line list \<times> (exc + 'g)" where
  "useCustomLogger rnd render build =
     Gripper_connect rnd render (ConnectionConfig_of (SerialConfig_defaults ''/dev/ttyUSB0'')) build"

definition basicLoggerInjection ::
  "(rat \<Rightarrow> double) \<Rightarrow> (double \<Rightarrow> string) \<Rightarrow> ConnectionConfig \<Rightarrow> ('p DefaultSerial \<Rightarrow> u8 \<Rightarrow> int \<Rightarrow> platform option \<Rightarrow> exc + 'g)
     \<Rightarrow> log_line list \<times> (exc + 'g)" where
  "basicLoggerInjection rnd render config build = Gripper_connect rnd render config build"

text \<open>The serial settings of a default configuration have no port; the fake gripper ignores them.\<close>

definition makeFakeGripperUsage ::
  "(rat \<Rightarrow> double) \<Rightarrow> (double \<Rightarrow> string) \<Rightarrow> time \<Rightarrow> time \<Rightarrow> event list list
     \<Rightarrow> exc + (ActivationResult \<times> GripperSerial modbus_client sched_run) option" where
  "makeFakeGripperUsage rnd render seeded started bs =
     (case snd (makeFakeGripper rnd render (ConnectionConfig_of (SerialConfig_defaults [])) seeded started) of
        Inl e \<Rightarrow> Inl e
      | Inr w \<Rightarrow> Inr (activate client_exchange kProcedureTimeout (w, bs)))"

end
