(* ===== verification/ExampleProperties.thy ===== *)
theory ExampleProperties
  imports Examples RecorderProperties
begin

text \<open>
  Properties of the example programs: what the exit codes of \<open>move_gripper\<close> and of the logging example
  mean of the exchanges seen, with the registers their speeds, efforts and openings come to under any
  rounding.
\<close>

section \<open>The registers of the examples\<close>

lemma ieee_near:
  assumes "ieee rnd" "1 / 10 ^ 9 \<le> x" "x \<le> 10 ^ 9"
  obtains y where "rnd x = Fin y" "9 / 10 * x \<le> y" "y \<le> 11 / 10 * x"
proof -
  have pos: "0 < x" using assms(2) by (rule less_le_trans [rotated]) simp
  then obtain y where y: "rnd x = Fin y" "\<bar>y - x\<bar> \<le> x / 2 ^ 53"
    using ieee_close [OF assms(1), of x] assms(2,3) by auto
  have "x / 2 ^ 53 \<le> x / 10" using pos by (intro divide_left_mono) auto
  with y(2) have "9 / 10 * x \<le> y" "y \<le> 11 / 10 * x" unfolding abs_le_iff by linarith+
  with y(1) that show thesis by blast
qed

lemma ieee_nat: "ieee rnd \<Longrightarrow> n \<le> 1000 \<Longrightarrow> rnd (of_nat n) = Fin (of_nat n)"
  using ieee_int [of rnd "int n"] by simp

lemma ieee_small:
  "ieee rnd \<Longrightarrow> rnd 0 = Fin 0 \<and> rnd 1 = Fin 1 \<and> rnd 3 = Fin 3 \<and> rnd 227 = Fin 227 \<and> rnd 230 = Fin 230 \<and> rnd 255 = Fin 255"
  using ieee_nat [of rnd 0] ieee_nat [of rnd 1] ieee_nat [of rnd 3] ieee_nat [of rnd 227] ieee_nat [of rnd 230]
    ieee_nat [of rnd 255] by simp

lemma half_floors:
  "\<lfloor>1 / 2 :: rat\<rfloor> = 0" "\<lfloor>7 / 2 :: rat\<rfloor> = 3" "\<lfloor>461 / 2 :: rat\<rfloor> = 230" "\<lfloor>511 / 2 :: rat\<rfloor> = 255"
  by (simp_all add: floor_eq_iff)

text \<open>The two ends of a span.\<close>

lemma registerFromSpan_ends:
  assumes r: "ieee rnd" and "0 \<le> a" "a < b" "rnd (b - a) = Fin s" "0 < s"
  shows "registerFromSpan rnd (Fin b) (Fin a) (Fin b) = Register 255"
    and "registerFromSpan rnd (Fin a) (Fin a) (Fin b) = Register 0"
  using assms ieee_small [OF r]
  by (simp_all add: registerFromSpan_def isfinite_def Let_def clamp_def roundedRegister_def lround_def half_floors)

lemma full_effort: "ieee rnd \<Longrightarrow> effortToRegister rnd kEffort = Register 255"
  unfolding effortToRegister_def kEffort_def
  by (rule registerFromSpan_ends(1) [of rnd 0 1 1]) (simp_all add: ieee_small)

lemma k2F85_speeds:
  assumes r: "ieee rnd"
  shows "speedToRegister rnd (maxSpeed (k2F85 rnd)) (k2F85 rnd) = Register 255"
    and "speedToRegister rnd (minSpeed (k2F85 rnd)) (k2F85 rnd) = Register 0"
proof -
  obtain a where a: "rnd (20 / 1000) = Fin a" "9 / 10 * (20 / 1000) \<le> a" "a \<le> 11 / 10 * (20 / 1000)"
    by (rule ieee_near [OF r, of "20 / 1000"]) auto
  obtain b where b: "rnd (150 / 1000) = Fin b" "9 / 10 * (150 / 1000) \<le> b" "b \<le> 11 / 10 * (150 / 1000)"
    by (rule ieee_near [OF r, of "150 / 1000"]) auto
  have ab: "0 \<le> a" "a < b" "1 / 10 \<le> b - a" "b - a \<le> 1" using a b by simp_all
  obtain s where s: "rnd (b - a) = Fin s" "9 / 10 * (b - a) \<le> s"
    using ab by (auto intro: ieee_near [OF r, of "b - a"])
  have "0 < s" using s(2) ab(3) by simp
  from registerFromSpan_ends [OF r ab(1,2) s(1) this] a(1) b(1)
  show "speedToRegister rnd (maxSpeed (k2F85 rnd)) (k2F85 rnd) = Register 255"
    "speedToRegister rnd (minSpeed (k2F85 rnd)) (k2F85 rnd) = Register 0"
    by (simp_all add: speedToRegister_def k2F85_def)
qed

lemma k2F85_range:
  assumes r: "ieee rnd"
  shows "registerPositionRange rnd (k2F85 rnd) = Fin 227 \<and> isfinite (openingRange rnd (k2F85 rnd))
    \<and> dlt (Fin 0) (openingRange rnd (k2F85 rnd)) \<and> openPosition (k2F85 rnd) < closedPosition (k2F85 rnd)
    \<and> (\<exists>m. maxOpening (k2F85 rnd) = Fin m \<and> openingRange rnd (k2F85 rnd) = rnd m)"
proof -
  obtain m where m: "rnd (85 / 1000) = Fin m" "9 / 10 * (85 / 1000) \<le> m" "m \<le> 11 / 10 * (85 / 1000)"
    by (rule ieee_near [OF r, of "85 / 1000"]) auto
  have mm: "1 / 100 \<le> m" "m \<le> 1" using m by simp_all
  obtain s where s: "rnd m = Fin s" "9 / 10 * m \<le> s"
    using mm by (auto intro: ieee_near [OF r, of m])
  have "0 < s" using s(2) mm(1) by simp
  moreover have "registerPositionRange rnd (k2F85 rnd) = Fin 227"
    using positionRange [OF r, of "k2F85 rnd"] by (simp add: k2F85_def)
  moreover have "openingRange rnd (k2F85 rnd) = Fin s" "maxOpening (k2F85 rnd) = Fin m"
    using m(1) s(1) by (simp_all add: openingRange_def k2F85_def)
  ultimately show ?thesis using s(1) by (simp add: isfinite_def k2F85_def)
qed

lemma k2F85_openings:
  assumes r: "ieee rnd"
  shows "openingToRegister rnd (maxOpening (k2F85 rnd)) (k2F85 rnd) = Register 3"
    and "openingToRegister rnd (minOpening (k2F85 rnd)) (k2F85 rnd) = Register 230"
proof -
  note range = k2F85_range [OF r]
  obtain m where m: "maxOpening (k2F85 rnd) = Fin m" "openingRange rnd (k2F85 rnd) = rnd m" using range by blast
  obtain s where s: "rnd m = Fin s" "0 < s" using range m(2) by (auto simp: isfinite_iff)
  have ends: "minOpening (k2F85 rnd) = Fin 0" "openPosition (k2F85 rnd) = 3" by (simp_all add: k2F85_def)
  show "openingToRegister rnd (maxOpening (k2F85 rnd)) (k2F85 rnd) = Register 3"
    "openingToRegister rnd (minOpening (k2F85 rnd)) (k2F85 rnd) = Register 230"
    using range m s ieee_small [OF r]
    by (simp_all add: openingToRegister_def Let_def ends isfinite_def clamp_def roundedRegister_def lround_def
        of_u8_def half_floors)
qed

definition full_command :: GripperCommand where
  "full_command = GripperCommand_defaults\<lparr>speed := 255, force := 255\<rparr>"

lemma move_command_full: "ieee rnd \<Longrightarrow> move_command rnd = Some full_command"
  using k2F85_speeds(1) [of rnd] full_effort [of rnd]
  by (simp add: move_command_def register_byte_def full_command_def kSpeed_def) (simp add: k2F85_def)

section \<open>The move example\<close>

definition going :: "u8 \<Rightarrow> GripperCommand \<Rightarrow> GripperCommand" where
  "going p command = command\<lparr>positionRequest := p, action := action_set (action command) GoTo True\<rparr>"

lemma going_fields [simp]:
  "positionRequest (going p c) = p" "speed (going p c) = speed c" "force (going p c) = force c"
  "action_get (action (going p c)) GoTo"
  "action_get (action (going p c)) Activate = action_get (action c) Activate"
  by (simp_all add: going_def)

lemma full_command_fields [simp]:
  "speed full_command = 255" "force full_command = 255" "action_get (action full_command) Activate" "wf_command full_command"
  by (simp_all add: full_command_def GripperCommand_defaults_def)

lemma moveTo_moved:
  assumes "moveTo rnd mm xchg c v profile r = Some (True, c', lines, r')" and "room r"
    and "openingToRegister rnd v profile = Register p"
  shows "c' = going p c \<and> room r' \<and> moved xchg c' r r'"
proof -
  have m: "c' = going p c" "moved xchg c' r r'"
    using moveTo_ok [OF assms(1,2)] assms(3) by (auto simp: going_def)
  with progress_count(2) [OF moved_progress [OF m(2)] assms(2)] show ?thesis by blast
qed

text \<open>C6: When \<open>move_gripper\<close> exits with success and nobody else commands the gripper, its run has been
  through the whole cycle, in this order: a state with a new exchange that showed the activation
  complete, then a new exchange that carried the command to open, with every register as the profile
  has it, a later one that showed the fingers at rest, and the same two again for the command to
  close. Each is the newest record of a state of the run, between its start and the state
  \<open>move_gripper\<close> leaves.\<close>

theorem move_gripper_success:
  assumes "move_gripper_moves rnd mm xchg r = Some (EXIT_SUCCESS, lines, r')"
    and "ieee rnd" and "room r" and "sched_ok no_commander r"
  shows "\<exists>active idle. progress xchg any_event r active
    \<and> activationState (gripperStatus (xStatus (record_of (fst active)))) = Complete
    \<and> countOf (record_of (fst r)) < countOf (record_of (fst active))
    \<and> moved xchg (going 3 full_command) active idle
    \<and> moved xchg (going 230 (going 3 full_command)) idle r'"
proof -
  from assms(1) obtain l1 r1 c2 l2 r2 c3 l3 where a: "activateOrRecover xchg r = Some (True, l1, r1)"
    and o: "moveTo rnd mm xchg full_command (maxOpening (k2F85 rnd)) (k2F85 rnd) r1 = Some (True, c2, l2, r2)"
    and c: "moveTo rnd mm xchg c2 (minOpening (k2F85 rnd)) (k2F85 rnd) r2 = Some (True, c3, l3, r')"
    by (auto simp: move_gripper_moves_def move_command_full [OF assms(2)] Let_def bind_eq_Some_conv split: if_splits)
  note sa = activateOrRecover_ok [OF a assms(4,3)]
  have "room r1" by (rule progress_count(2) [OF activation_progress [OF sa] assms(3)])
  note so = moveTo_moved [OF o this k2F85_openings(1) [OF assms(2)]]
  have "room r2" using so by blast
  note sc = moveTo_moved [OF c this k2F85_openings(2) [OF assms(2)]]
  from so have "moved xchg (going 3 full_command) r1 r2" by blast
  from activation_then_moved [OF sa this assms(3)] so sc show ?thesis by blast
qed

text \<open>A gripper that moves in every other exchange, and twelve exchanges, one in every fifth block.\<close>

definition alternating_link :: "nat exchange_op" where
  "alternating_link n c =
     (Inr (GripperStatus_init\<lparr>gripperStatus := if even n then 0x39 else 0xF9,
                              positionRequestEcho := positionRequest c, position := positionRequest c\<rparr>), Suc n)"

definition example_run :: "nat sched_run" where
  "example_run = (fst moving_run, concat (replicate 12 (replicate 4 [] @ [demo_cycle])))"

lemma example_run_room: "room example_run"
proof -
  have "countOf (record_of (fst example_run)) = 0" by code_simp
  moreover have "length (concat (snd example_run)) = 108"
    by (simp add: example_run_def length_demo_cycle length_concat_replicate)
  ultimately show ?thesis by (simp add: room_def)
qed

lemma example_run_no_commander: "sched_ok no_commander example_run"
  by (simp add: sched_ok_def example_run_def demo_cycle_def list_all_iff)

lemma move_gripper_success_witness:
  "\<exists>active idle r'. activationState (gripperStatus (xStatus (record_of (fst active)))) = Complete
    \<and> moved alternating_link (going 3 full_command) active idle
    \<and> moved alternating_link (going 230 (going 3 full_command)) idle r'"
proof -
  have "map_option fst (move_gripper_moves Fin (\<lambda>d. []) alternating_link example_run) = Some EXIT_SUCCESS"
    by code_simp
  then obtain lines r' where
    "move_gripper_moves Fin (\<lambda>d. []) alternating_link example_run = Some (EXIT_SUCCESS, lines, r')" by auto
  from move_gripper_success [OF this ieee_exact example_run_room example_run_no_commander] show ?thesis by blast
qed

end
