(* ===== verification/SnippetProperties.thy ===== *)
theory SnippetProperties
  imports Snippets ExampleProperties
begin

text \<open>
  Properties of the documentation's snippets: the automatic release that a later block still asks for,
  waiting by hand, conversions that never throw, and the shape of the file the logging example writes.
\<close>

section \<open>The automatic release\<close>

lemma autorelease_bits:
  "action_get (action (then_move autorelease_command)) AutoRelease"
  "action_get (action (then_move autorelease_command)) GoTo"
  "action_get (action autorelease_command) AutoRelease"
  "\<not> action_get (action autorelease_command) GoTo"
  "positionRequest (then_move autorelease_command) = 100"
  by code_simp+

text \<open>C37: The two commands of the auto-release snippet do not cancel the release. The documentation says that the
  second overwrites the first \<open>without taking effect\<close>; but it is built from the same object, whose rATR
  stays set, so that with no other commander every exchange from the second one on carries a block
  that asks for the move and for the release.\<close>

theorem autorelease_stays_requested:
  assumes "autoreleaseThenMove xchg r = Some r'" and "sched_ok no_commander r"
    and "runs xchg no_commander (fst r') n w" and "2 \<le> n"
  shows "xCommand (record_of w) = then_move autorelease_command
    \<and> action_get (action (xCommand (record_of w))) AutoRelease
    \<and> action_get (action (xCommand (record_of w))) GoTo \<and> positionRequest (xCommand (record_of w)) = 100"
proof -
  obtain r1 where "Gripper_setCommand xchg (then_move autorelease_command) r1 = Some r'"
    using assms(1) by (auto simp: autoreleaseThenMove_def Let_def bind_eq_Some_conv)
  from setCommand_progress(2) [OF this sched_ok_any] have "imgCommand (img (gs (fst r'))) = then_move autorelease_command"
    by simp
  then have "carried (then_move autorelease_command) 0 (fst r')" by (simp add: carried_def)
  from runs_carried [OF assms(3) this] have "xCommand (record_of w) = then_move autorelease_command"
    using assms(4) by (simp add: carried_def)
  then show ?thesis using autorelease_bits by simp
qed

lemma autorelease_stays_requested_witness:
  "\<exists>w :: unit world. action_get (action (xCommand (record_of w))) AutoRelease \<and> positionRequest (xCommand (record_of w)) = 100"
proof -
  have "map_option (\<lambda>(w, bs). block_exchanges demo_link (demo_cycle @ demo_cycle) w) (autoreleaseThenMove demo_link demo_run) = Some 2"
    by code_simp
  then obtain w bs where r': "autoreleaseThenMove demo_link demo_run = Some (w, bs)"
    and n: "block_exchanges demo_link (demo_cycle @ demo_cycle) w = 2" by auto
  have "list_all no_commander (demo_cycle @ demo_cycle)" by (simp add: demo_cycle_def list_all_iff)
  from run_block_counts [OF this, of demo_link w]
  have run: "runs demo_link no_commander (fst (w, bs)) 2 (run_block demo_link (demo_cycle @ demo_cycle) w)"
    unfolding n fst_conv .
  from autorelease_stays_requested [OF r' demo_run_no_commander run order_refl] show ?thesis by blast
qed

text \<open>With the wait in between, the release is on the wire before the move is set: when the snippet goes on
  to its second command, an exchange after the call carried the release alone.\<close>

theorem autorelease_waits_for_the_wire:
  assumes "autoreleaseThenMoveWithWait xchg r = Some (True, r')" and "room r"
  shows "(\<exists>x. command_eq (xCommand x) autorelease_command \<and> countOf (record_of (fst r)) < countOf x
      \<and> countOf x \<le> countOf (record_of (fst r')))
    \<and> imgCommand (img (gs (fst r'))) = then_move autorelease_command"
proof -
  obtain x r1 where s: "setCommandAndWaitForExchange xchg autorelease_command 10000 r = Some (Some x, r1)"
    and e: "Gripper_setCommand xchg (then_move autorelease_command) r1 = Some r'"
    using assms(1) by (auto simp: autoreleaseThenMoveWithWait_def Let_def bind_eq_Some_conv split: if_splits)
  note c = setCommandAndWait_carried [OF s assms(2)]
  note p = setCommand_progress [OF e sched_ok_any, simplified]
  have "countOf x \<le> countOf (record_of (fst r'))"
    using c progress_count(1) [OF p(1) progress_count(2) [OF conjunct1 [OF c] assms(2)]] by simp
  with c p(2) show ?thesis by blast
qed

lemma autorelease_waits_for_the_wire_witness:
  "\<exists>r' x. autoreleaseThenMoveWithWait demo_link demo_run = Some (True, r') \<and> command_eq (xCommand x) autorelease_command
     \<and> countOf x \<le> countOf (record_of (fst r'))"
proof -
  have "map_option fst (autoreleaseThenMoveWithWait demo_link demo_run) = Some True" by code_simp
  then obtain r' where r': "autoreleaseThenMoveWithWait demo_link demo_run = Some (True, r')" by auto
  from autorelease_waits_for_the_wire [OF this demo_run_room] r' show ?thesis by blast
qed

section \<open>Waiting by hand\<close>

lemma waitForExchange_new:
  assumes "Gripper_waitForExchange xchg timeout r = Some (res, r')" and "room r"
  shows "progress xchg any_event r r' \<and>
    (\<forall>x. res = Some x \<longrightarrow> x = record_of (fst r') \<and> countOf (record_of (fst r)) < countOf x)"
proof -
  obtain y r1 where y: "Gripper_getMostRecentStampedExchange xchg r = Some (y, r1)"
    and w: "Gripper_waitForExchangeCount xchg (countOf y + 1) timeout r1 = Some (res, r')"
    using assms(1) by (auto simp: Gripper_waitForExchange_def bind_eq_Some_conv)
  have p1: "progress xchg any_event r r1" "y = record_of (fst r1)"
    using access_progress(3) [OF _ y, of any_event] by simp_all
  note c1 = progress_count [OF p1(1) assms(2)]
  note s = waitForExchangeCount_spec [OF w sched_ok_any]
  have "unat (countOf y) + 1 < 2 ^ 64" using c1(2) p1(2) by (simp add: room_def)
  then have "countOf y < countOf y + 1" by (simp add: word_less_nat_alt unat_word_ariths)
  then have "x = record_of (fst r') \<and> countOf (record_of (fst r)) < countOf x" if "res = Some x" for x
    using s that c1(1) p1(2) by auto
  with s progress_trans [OF p1(1)] show ?thesis by blast
qed

text \<open>The loop that waits for the end of a motion by hand ends, and its answer is the gripper's: true only
  when the newest record, of an exchange after the call, shows the fingers at rest.\<close>

theorem waitForMotionEndByHand_result:
  assumes "waitForMotionEndByHand xchg r = Some (ended, r')" and "room r"
  shows "progress xchg any_event r r' \<and>
    (ended \<longrightarrow> objectDetection (gripperStatus (xStatus (record_of (fst r')))) \<noteq> Moving
       \<and> countOf (record_of (fst r)) < countOf (record_of (fst r')))"
  using assms
proof (induction xchg r rule: waitForMotionEndByHand.induct)
  case (1 xchg r)
  from "1.prems"(1) obtain ex r1 where w: "Gripper_waitForExchange xchg 1000 r = Some (ex, r1)"
    by (subst (asm) waitForMotionEndByHand.simps) (auto simp: bind_eq_Some_conv)
  note new = waitForExchange_new [OF w "1.prems"(2)]
  note c = progress_count [OF conjunct1 [OF new] "1.prems"(2)]
  show ?case
  proof (cases "\<exists>x. ex = Some x \<and> objectDetection (gripperStatus (xStatus x)) = Moving")
    case True
    then obtain x where x: "ex = Some x" "\<not> objectDetection (gripperStatus (xStatus x)) \<noteq> Moving" by blast
    have "waitForMotionEndByHand xchg r1 = Some (ended, r')"
      using "1.prems"(1) w x by (subst (asm) waitForMotionEndByHand.simps) simp
    from "1.IH" [OF w HOL.refl x this c(2)] new progress_trans [of xchg any_event r r1 r'] c(1)
    show ?thesis by fastforce
  next
    case False
    then have "r' = r1 \<and> (ended \<longrightarrow> (\<exists>x. ex = Some x \<and> objectDetection (gripperStatus (xStatus x)) \<noteq> Moving))"
      using "1.prems"(1) w by (subst (asm) waitForMotionEndByHand.simps) (auto split: option.splits)
    with new show ?thesis by auto
  qed
qed

lemma waitForMotionEndByHand_result_witness:
  "\<exists>r'. waitForMotionEndByHand alternating_link example_run = Some (True, r')
     \<and> objectDetection (gripperStatus (xStatus (record_of (fst r')))) \<noteq> Moving"
proof -
  have "map_option fst (waitForMotionEndByHand alternating_link example_run) = Some True" by code_simp
  then obtain r' where r': "waitForMotionEndByHand alternating_link example_run = Some (True, r')" by auto
  from waitForMotionEndByHand_result [OF this example_run_room] r' show ?thesis by blast
qed

section \<open>Conversions that never throw\<close>

lemma roundedRegister_byte: "\<exists>b. register_byte (roundedRegister (Fin x)) = Some b"
  by (auto simp: register_byte_def roundedRegister_def lround_def)

lemma registerFromSpan_byte:
  assumes r: "ieee rnd" and v: "0 \<le> v" and ab: "a < b" "rnd (b - a) = Fin s" "0 < s"
  shows "\<exists>n. register_byte (registerFromSpan rnd (Fin v) (Fin a) (Fin b)) = Some n"
proof -
  obtain q where q: "fraction_of rnd (Fin v) (Fin a) (Fin s) = Fin q" "0 \<le> q" "q \<le> 1"
    using fraction_of_unit [OF r ab(3), of v a] by blast
  obtain x where "rnd (q * 255) = Fin x"
    using ieee_between [OF r, of 0 "q * 255" 255] q by auto
  with q ab v show ?thesis
    using roundedRegister_byte by (simp add: registerFromSpan_def isfinite_def Let_def fraction_of_def)
qed

text \<open>The conversions of the snippets never throw, on any rounding: every value the documentation takes
  from an optional is there, and so is the opening of whatever position the gripper reports.\<close>

theorem conversions_never_throw:
  assumes "ieee rnd" and "Gripper_getStatus xchg r = Some (st, r')"
  shows "(\<exists>command metres. siUnitConversion rnd xchg r = Some (Some (command, metres), r') \<and> speed command = 255)
    \<and> (\<exists>command p. normalizedPosition rnd render xchg r = Some (Some (command, p), r'))"
proof -
  note r = assms(1)
  note range = k2F85_range [OF r]
  obtain v where v: "rnd (40 / 1000) = Fin v" by (rule ieee_near [OF r, of "40 / 1000"]) auto
  obtain p where p: "openingToRegister rnd (Fin v) (k2F85 rnd) = Register p"
    using opening_register_range [OF r _ _ _ order_refl, of "k2F85 rnd" v] range by blast
  obtain f where f: "register_byte (effortToRegister rnd (Fin (1 / 2))) = Some f"
    using registerFromSpan_byte [OF r, of "1 / 2" 0 1 1] ieee_small [OF r] by (auto simp: effortToRegister_def)
  have sp: "speedToRegister rnd (rnd (150 / 1000)) (k2F85 rnd) = Register 255"
    using k2F85_speeds(1) [OF r] by (simp add: k2F85_def)
  have command: "si_command rnd = Some (GripperCommand_defaults\<lparr>speed := 255, force := f, positionRequest := p\<rparr>)"
    using sp f p v by (simp add: si_command_def register_byte_def)
  have "\<exists>d. openingFromRegister rnd (position st) (k2F85 rnd) = Some d"
    using range by (auto simp: openingFromRegister_def Let_def isfinite_iff)
  then have si: "\<exists>c d. siUnitConversion rnd xchg r = Some (Some (c, d), r') \<and> speed c = 255"
    using command assms(2) by (auto simp: siUnitConversion_def)
  obtain x where x: "rnd (3 / 4 * 255) = Fin x" using ieee_between [OF r, of 0 "3 / 4 * 255" 255] by auto
  then obtain b where "register_byte (fst (normalizedToRegister rnd render (Fin (3 / 4)))) = Some b"
    using roundedRegister_byte [of x] by (auto simp: normalizedToRegister_def isfinite_def Let_def clamp_def)
  then have "\<exists>c p. normalizedPosition rnd render xchg r = Some (Some (c, p), r')"
    using assms(2) by (simp add: normalizedPosition_def)
  with si show ?thesis by blast
qed

lemma conversions_never_throw_witness:
  "\<exists>command metres r'. siUnitConversion Fin demo_link demo_run = Some (Some (command, metres), r') \<and> speed command = 255"
proof -
  have "Gripper_getStatus demo_link demo_run \<noteq> None" by code_simp
  then obtain st r' where "Gripper_getStatus demo_link demo_run = Some (st, r')" by auto
  from conversions_never_throw [OF ieee_exact this, of "\<lambda>d. []"] show ?thesis by blast
qed

section \<open>The fake gripper\<close>

text \<open>C28: Activating a fake gripper, as the documentation shows it, never ends in a latched fault: whatever the
  interleaving, the result is that it is active, or that the time ran out.\<close>

theorem fake_activation_never_faults:
  assumes "makeFakeGripperUsage rnd render seeded started bs = Inr (Some (res, r'))"
    and "list_all (list_all no_commander) bs" and "length (concat bs) + 1 < 2 ^ 64"
  shows "res \<noteq> FaultLatched \<and> (res \<noteq> Timeout \<longrightarrow>
    activationState (gripperStatus (xStatus (record_of (fst r')))) = Complete \<and> faultStatus (xStatus (record_of (fst r'))) = 0)"
proof -
  obtain w where made: "snd (makeFakeGripper rnd render (ConnectionConfig_of (SerialConfig_defaults [])) seeded started) = Inr w"
    and a: "activate client_exchange kProcedureTimeout (w, bs) = Some (res, r')"
    using assms(1) by (auto simp: makeFakeGripperUsage_def split: sum.splits)
  obtain n p im where n: "fake_client RegisterModel_init kDefaultModbusSlaveAddress = Inr n"
    and l: "launch client_readStatus seeded started (GripperState_create n p im) = Inr w"
    using made
    by (auto simp: makeFakeGripper_def Gripper_create_def fake_client_def ConnectionConfig_of_def Let_def split: sum.splits)
  have "fake_idle n" "fake_model n = RegisterModel_init"
    using fake_client_created [of kDefaultModbusSlaveAddress RegisterModel_init] n
    by (auto simp: kDefaultModbusSlaveAddress_def)
  from fake_launch [OF this, of seeded started p im] l have inv: "healthy_fake.link_inv w" "countOf (record_of w) = 0"
    by (auto simp: healthy_fake.link_inv_def fake_healthy_def)
  have ok: "sched_ok no_commander (w, bs)" "room (w, bs)"
    using assms(2,3) inv(2) by (simp_all add: sched_ok_def room_def)
  note spec = activate_spec [OF a ok(1) HOL.refl]
  obtain k where run: "runs client_exchange (handshake_only (imgCommand (img (gs w)))) w k (fst r')"
    using spec(1) by (auto simp: progress_def)
  have healthy: "faultStatus (xStatus (record_of (fst r'))) = 0" if "res \<noteq> Timeout"
  proof -
    have "countOf (record_of (fst r')) \<noteq> 0" using spec(5) [OF that ok(2)] by auto
    from healthy_fake.record_answers [OF run inv(1) this] show ?thesis by (simp add: no_fault_def)
  qed
  have "severity (gripperFault 0) \<noteq> SeverityMajor" by code_simp
  with spec(2,3,4) healthy show ?thesis by (cases res) auto
qed

text \<open>On a gripper that is being stopped, \<open>activate\<close> comes back at once.\<close>

lemma activate_stopped:
  assumes "ProcessImage.closed (img (gs w))" "countOf (record_of w) = 0"
  shows "activate xchg timeout (w, replicate 7 []) = Some (Timeout, (w, []))"
  using assms
  by (simp add: activate_def waitOperational_def waitForStatus_def remaining_def clock_now_def waitFor_def
      Gripper_getMostRecentStampedExchange_def gs_stampedExchange_def image_stampedExchange_def
      waitForExchangeAfter_def deadlineAfter_def waitForExchangeAfter_loop.simps Gripper_waitForExchangeCount_def
      gs_waitForExchange_def image_sync_def image_waiting_def numeral_eq_Suc Let_def)

definition stopped_schedule :: "event list list" where
  "stopped_schedule = [StopClose] # replicate 6 []"

lemma activate_stopping:
  assumes "countOf (record_of w) = 0"
  shows "\<exists>r'. activate xchg timeout (w, stopped_schedule) = Some (Timeout, r')"
proof -
  let ?w = "w\<lparr>gs := stop_close (gs w)\<rparr>"
  have "activate xchg timeout (w, stopped_schedule) = activate xchg timeout (?w, replicate 7 [])"
    by (simp add: activate_def clock_now_def stopped_schedule_def numeral_eq_Suc)
  moreover have "activate xchg timeout (?w, replicate 7 []) = Some (Timeout, (?w, []))"
    by (rule activate_stopped) (use assms in \<open>simp_all add: stop_close_def image_close_def\<close>)
  ultimately show ?thesis by simp
qed

lemma fake_activation_never_faults_witness:
  "\<exists>r'. makeFakeGripperUsage Fin (\<lambda>d. []) 0 0 stopped_schedule = Inr (Some (Timeout, r')) \<and> Timeout \<noteq> FaultLatched"
proof -
  let ?config = "ConnectionConfig_of (SerialConfig_defaults [])"
  obtain n where n: "fake_client RegisterModel_init 9 = Inr n" "fake_idle n" "fake_model n = RegisterModel_init"
    using fake_client_created [of 9 RegisterModel_init] by auto
  obtain lines w where made: "makeFakeGripper Fin (\<lambda>d. []) ?config 0 0 = (lines, Inr w)"
    using makeFakeGripper_started [OF ieee_exact, of ?config "\<lambda>d. []" 0 0]
    by (auto simp: ConnectionConfig_of_def kDefaultModbusSlaveAddress_def)
  obtain p im where "launch client_readStatus 0 0 (GripperState_create n p im) = Inr w"
    using made n(1)
    by (auto simp: makeFakeGripper_def Gripper_create_def fake_client_def ConnectionConfig_of_def
        kDefaultModbusSlaveAddress_def Let_def split: sum.splits)
  with fake_launch [OF n(2,3), of 0 0 p im] have "countOf (record_of w) = 0" by auto
  from activate_stopping [OF this] obtain r' where
    "activate client_exchange kProcedureTimeout (w, stopped_schedule) = Some (Timeout, r')" by blast
  then have u: "makeFakeGripperUsage Fin (\<lambda>d. []) 0 0 stopped_schedule = Inr (Some (Timeout, r'))"
    by (simp add: makeFakeGripperUsage_def made)
  have "list_all (list_all no_commander) stopped_schedule" "length (concat stopped_schedule) + 1 < 2 ^ 64"
    by (simp_all add: stopped_schedule_def list_all_iff)
  from fake_activation_never_faults [OF u this] u show ?thesis by blast
qed

end
