(* ===== verification/LogProperties.thy ===== *)
theory LogProperties
  imports ExampleProperties
begin

text \<open>
  Properties of the logging example as a whole: the file it writes is a table, and a successful exit
  means that both moves were made and that no row was lost without being counted.
\<close>

section \<open>The table\<close>

definition comma :: char where "comma = CHR '',''"
definition line_end :: char where "line_end = CHR 0x0A"

text \<open>A cell holds neither of the two separators.\<close>

definition plain :: "string \<Rightarrow> bool" where
  "plain s \<longleftrightarrow> comma \<notin> set s \<and> line_end \<notin> set s"

lemma digit_plain: "d < 10 \<Longrightarrow> plain [digit_char d]"
proof -
  assume "d < 10"
  then have "d \<in> {0,1,2,3,4,5,6,7,8,9}" by auto
  then show ?thesis by (auto simp: plain_def digit_char_def comma_def line_end_def)
qed

lemma to_string_plain: "plain (to_string n)"
proof (induction n rule: to_string.induct)
  case (1 n)
  have "plain [digit_char (n mod 10)]" "n < 10 \<Longrightarrow> plain [digit_char n]" by (simp_all add: digit_plain)
  with 1 show ?case by (subst to_string.simps) (auto simp: plain_def)
qed

lemma cell_plain: "plain (show_bool b)" "plain (show_u8 v)"
  using to_string_plain by (auto simp: show_bool_def show_u8_def plain_def comma_def line_end_def)

lemma plain_commas: "plain s \<Longrightarrow> count_list s comma = 0 \<and> count_list s line_end = 0"
  by (simp add: plain_def count_list_0_iff)

definition row_line :: "(time \<Rightarrow> string) \<Rightarrow> time \<Rightarrow> StampedExchange \<Rightarrow> string" where
  "row_line seconds since x =
     writeMetadata seconds since (metadata x) @ '','' @ writeCommand (xCommand x) @ '','' @ writeStatus (xStatus x)"

definition header_line :: string where
  "header_line = kMetadataColumns @ '','' @ kCommandColumns @ '','' @ kStatusColumns"

lemma row_line_cells:
  assumes "plain (seconds (timestamp (metadata x) - since))"
  shows "count_list (row_line seconds since x) comma = 17 \<and> count_list (row_line seconds since x) line_end = 0"
proof -
  have separators: "CHR '','' = comma" "comma \<noteq> line_end" by (simp_all add: comma_def line_end_def)
  then show ?thesis
    using assms to_string_plain cell_plain
    by (simp add: row_line_def writeMetadata_def writeCommand_def writeStatus_def Let_def plain_commas separators)
qed

text \<open>The log is a table, whatever was recorded: a header line and one line for each recorded exchange, in
  their order, each with the eighteen cells of the header and nothing else that separates cells or
  lines.\<close>

theorem csv_is_a_table:
  assumes "\<forall>t. plain (seconds t)"
  shows "\<exists>rows. csv_text seconds first s = concat (map (\<lambda>l. l @ [line_end]) (header_line # rows))
    \<and> rows = map (row_line seconds (timestamp (metadata first))) (recorded s)
    \<and> (\<forall>l \<in> set (header_line # rows). count_list l comma = 17 \<and> line_end \<notin> set l)"
proof -
  let ?rows = "map (row_line seconds (timestamp (metadata first))) (recorded s)"
  have row: "writeRow seconds since = (\<lambda>x. row_line seconds since x @ [line_end])" for since
    by (rule ext) (simp add: writeRow_def row_line_def line_end_def)
  have "csv_text seconds first s = concat (map (\<lambda>l. l @ [line_end]) (header_line # ?rows))"
    by (simp add: csv_text_def writeHeader_def header_line_def row line_end_def comp_def)
  moreover have "count_list header_line comma = 17 \<and> count_list header_line line_end = 0" by code_simp
  moreover have "count_list l comma = 17 \<and> count_list l line_end = 0" if "l \<in> set ?rows" for l
    using that row_line_cells assms by auto
  ultimately show ?thesis by (auto simp: count_list_0_iff)
qed

lemma csv_is_a_table_witness:
  "\<exists>rows. csv_text (\<lambda>t. ''0.0000'') StampedExchange_init
       \<lparr>written = 1, rec_rows = 1, rec_skipped = 0, recorded = [StampedExchange_init], rec_log = [], writeFailed = False\<rparr>
     = concat (map (\<lambda>l. l @ [line_end]) (header_line # rows)) \<and> length rows = 1"
proof -
  have "\<forall>t :: time. plain ''0.0000''" by (simp add: plain_def comma_def line_end_def)
  from csv_is_a_table [OF this, of StampedExchange_init
      "\<lparr>written = 1, rec_rows = 1, rec_skipped = 0, recorded = [StampedExchange_init], rec_log = [], writeFailed = False\<rparr>"]
  obtain rows where rows: "csv_text (\<lambda>t. ''0.0000'') StampedExchange_init
       \<lparr>written = 1, rec_rows = 1, rec_skipped = 0, recorded = [StampedExchange_init], rec_log = [], writeFailed = False\<rparr>
     = concat (map (\<lambda>l. l @ [line_end]) (header_line # rows))" and n: "length rows = 1" by fastforce
  show ?thesis by (intro exI conjI, rule rows, rule n)
qed

section \<open>A successful run\<close>

definition at_speed :: "u8 \<Rightarrow> GripperCommand \<Rightarrow> GripperCommand" where
  "at_speed v c = c\<lparr>speed := v\<rparr>"

lemma move_at_moved:
  assumes "move_at rnd mm xchg c v opening r = Some (True, c', lines, r')" and "room r"
    and "speedToRegister rnd v (k2F85 rnd) = Register n" "openingToRegister rnd opening (k2F85 rnd) = Register p"
  shows "c' = going p (at_speed n c) \<and> room r' \<and> moved xchg c' r r'"
proof -
  obtain l2 where "moveTo rnd mm xchg (at_speed n c) opening (k2F85 rnd) r = Some (True, c', l2, r')"
    using assms(1,3) by (auto simp: move_at_def setSpeed_def register_byte_def at_speed_def bind_eq_Some_conv)
  from moveTo_moved [OF this assms(2,4)] show ?thesis .
qed

lemma target_register:
  assumes r: "ieee rnd"
  shows "\<exists>p. openingToRegister rnd (kTargetOpening rnd) (k2F85 rnd) = Register p \<and> 3 \<le> p \<and> p \<le> 230"
proof -
  obtain v where v: "rnd (30 / 1000) = Fin v" by (rule ieee_near [OF r, of "30 / 1000"]) auto
  from k2F85_range [OF r] opening_register_range [OF r _ _ _ order_refl, of "k2F85 rnd" v] v show ?thesis
    by (auto simp: kTargetOpening_def k2F85_def)
qed

text \<open>C31: When the logging example exits with success and nobody else commands the gripper, no write of
  its file failed and the main thread's run has been through the activation, the full-speed move to open
  and the slow move to 30 mm, in this order: a state with a new exchange that showed the activation
  complete, then for each move a new exchange that carried its command and a later one that showed the
  fingers at rest, each the newest record of a state of the run.\<close>

theorem exchange_log_success:
  assumes "exchange_log_main rnd mm args opens connect xchg bs rec failed = Some (Inr (EXIT_SUCCESS, Some r'))"
    and "ieee rnd" and "connect (exchange_log_config (hd args)) = Inr w"
    and "room (w, bs)" and "sched_ok no_commander (w, bs)"
  shows "\<not> writeFailed rec \<and> \<not> failed
    \<and> (\<exists>p active idle. 3 \<le> p \<and> p \<le> 230 \<and> openingToRegister rnd (kTargetOpening rnd) (k2F85 rnd) = Register p
        \<and> progress xchg any_event (w, bs) active
        \<and> activationState (gripperStatus (xStatus (record_of (fst active)))) = Complete
        \<and> countOf (record_of w) < countOf (record_of (fst active))
        \<and> moved xchg (going 3 (at_speed 255 GripperCommand_defaults)) active idle
        \<and> moved xchg (going p (at_speed 0 (going 3 (at_speed 255 GripperCommand_defaults)))) idle r')"
proof -
  obtain port rest where args: "args = port # rest"
    using assms(1) by (cases args) (simp_all add: exchange_log_main_def)
  let ?path = "case rest of [] \<Rightarrow> kDefaultFile | f # _ \<Rightarrow> f"
  have w: "connect (exchange_log_config port) = Inr w" using assms(3) args by simp
  have "opens ?path" using assms(1) args by (simp add: exchange_log_main_def Let_def split: if_splits)
  then have main: "exchange_log_main rnd mm args opens connect xchg bs rec failed =
      do { (ok, lines, r) \<leftarrow> exchange_log_moves rnd mm xchg (w, bs);
           Some (Inr (case ok of None \<Rightarrow> EXIT_FAILURE | Some ok \<Rightarrow> fst (exchange_log_end ?path ok rec failed), Some r)) }"
    using w args by (simp add: exchange_log_main_def connectGripper_def Let_def)
  obtain ok lines where m: "exchange_log_moves rnd mm xchg (w, bs) = Some (ok, lines, r')"
    and e: "(case ok of None \<Rightarrow> EXIT_FAILURE | Some ok \<Rightarrow> fst (exchange_log_end ?path ok rec failed)) = EXIT_SUCCESS"
    using assms(1) unfolding main by (fastforce simp: bind_eq_Some_conv)
  from e have ok: "ok = Some True" "\<not> writeFailed rec" "\<not> failed"
    by (auto simp: exchange_log_end_def Let_def split: option.splits if_splits)
  from m ok(1) obtain l1 r1 c2 l2 r2 c3 l3 where a: "activateOrRecover xchg (w, bs) = Some (True, l1, r1)"
    and o: "move_at rnd mm xchg GripperCommand_defaults (maxSpeed (k2F85 rnd)) (maxOpening (k2F85 rnd)) r1 = Some (True, c2, l2, r2)"
    and c: "move_at rnd mm xchg c2 (minSpeed (k2F85 rnd)) (kTargetOpening rnd) r2 = Some (True, c3, l3, r')"
    by (auto simp: exchange_log_moves_def Let_def bind_eq_Some_conv split: if_splits)
  note sa = activateOrRecover_ok [OF a assms(5,4)]
  have "room r1" by (rule progress_count(2) [OF activation_progress [OF sa] assms(4)])
  note so = move_at_moved [OF o this k2F85_speeds(1) [OF assms(2)] k2F85_openings(1) [OF assms(2)]]
  have room2: "room r2" using so by blast
  obtain p where p: "openingToRegister rnd (kTargetOpening rnd) (k2F85 rnd) = Register p" "3 \<le> p" "p \<le> 230"
    using target_register [OF assms(2)] by blast
  note sc = move_at_moved [OF c room2 k2F85_speeds(2) [OF assms(2)] p(1)]
  from so have "moved xchg (going 3 (at_speed 255 GripperCommand_defaults)) r1 r2" by blast
  from activation_then_moved [OF sa this assms(4)] so sc ok(2,3) p show ?thesis unfolding fst_conv by blast
qed

definition quiet_recorder :: Recorder where
  "quiet_recorder =
     \<lparr>written = 1, rec_rows = 1, rec_skipped = 0, recorded = [StampedExchange_init], rec_log = [], writeFailed = False\<rparr>"

lemma exchange_log_success_witness:
  "\<exists>p active idle r'. 3 \<le> p \<and> moved alternating_link (going 3 (at_speed 255 GripperCommand_defaults)) active idle
     \<and> moved alternating_link (going p (at_speed 0 (going 3 (at_speed 255 GripperCommand_defaults)))) idle r'"
proof -
  have moves: "map_option fst (exchange_log_moves Fin (\<lambda>d. []) alternating_link (fst example_run, snd example_run)) = Some (Some True)"
    by code_simp
  obtain lines r' where m: "exchange_log_moves Fin (\<lambda>d. []) alternating_link (fst example_run, snd example_run) = Some (Some True, lines, r')"
    using moves by auto
  have main: "exchange_log_main Fin (\<lambda>d. []) [''COM3''] (\<lambda>f. True) (\<lambda>config. Inr (fst example_run)) alternating_link
      (snd example_run) quiet_recorder False = Some (Inr (EXIT_SUCCESS, Some r'))"
    using m by (simp add: exchange_log_main_def connectGripper_def exchange_log_end_def quiet_recorder_def Let_def)
  have room: "room (fst example_run, snd example_run)" using example_run_room by simp
  have quiet: "sched_ok no_commander (fst example_run, snd example_run)" using example_run_no_commander by simp
  from exchange_log_success [OF main ieee_exact HOL.refl room quiet] show ?thesis by blast
qed

end
