(* ===== verification/Shutdown.thy ===== *)
theory Shutdown
  imports Demo
begin

text \<open>
  \<open>GripperState::stop\<close> as a whole, and the destructors that call it: two stores, and then a join that
  blocks until the exchange thread has left its function. It returns whenever the thread gets its
  turns and time passes, at most one exchange completes after the first store, and afterwards
  nothing touches the link any more.
\<close>

section \<open>The operations\<close>

text \<open>\<open>Thread::join\<close>: the others run until the thread's function has returned.\<close>

fun join_thread :: "'l exchange_op \<Rightarrow> 'l world \<Rightarrow> event list list \<Rightarrow> 'l sched_run option" where
  "join_thread xchg w [] = (if pc (gs w) = Finished then Some (w, []) else None)"
| "join_thread xchg w (b # bs) =
     (if pc (gs w) = Finished then Some (w, b # bs) else join_thread xchg (run_block xchg b w) bs)"

text \<open>
  Without a thread, the join is skipped; a thread that has been joined is one that has finished, so
  that a second \<open>stop\<close> does not block.
\<close>

definition gs_stop :: "'l exchange_op \<Rightarrow> 'l sched_run \<Rightarrow> 'l sched_run option" where
  "gs_stop xchg r =
     do { (w, bs) \<leftarrow> env xchg r;
          let w = w\<lparr>gs := stop_running (gs w)\<rparr>;
          (w, bs) \<leftarrow> env xchg (w, bs);
          let w = w\<lparr>gs := stop_close (gs w)\<rparr>;
          if pc (gs w) = NotStarted then Some (w, bs) else join_thread xchg w bs }"

definition GripperState_destroy :: "'l exchange_op \<Rightarrow> 'l sched_run \<Rightarrow> 'l sched_run option" where
  "GripperState_destroy xchg r = gs_stop xchg r"

definition Gripper_destroy :: "'l exchange_op \<Rightarrow> 'l sched_run \<Rightarrow> 'l sched_run option" where
  "Gripper_destroy xchg r = GripperState_destroy xchg r"

section \<open>A thread that has been told to stop\<close>

text \<open>It sleeps until \<open>D\<close> at most, or until an instant that has passed.\<close>

definition stopping :: "time \<Rightarrow> 'l world \<Rightarrow> bool" where
  "stopping D w \<longleftrightarrow> \<not> running (gs w) \<and> pc (gs w) \<noteq> NotStarted
     \<and> (pc (gs w) = Sleeping \<longrightarrow> nextCycle (gs w) \<le> max D (clock w))
     \<and> (3 \<le> stop_rank (pc (gs w)) \<longrightarrow> nextCycle (gs w) + cyclePeriod (gs w) \<le> D)"

text \<open>The exchanges it may still complete.\<close>

definition last_exchanges :: "'l world \<Rightarrow> nat" where
  "last_exchanges w = (if 5 \<le> stop_rank (pc (gs w)) then 1 else 0)"

lemma wstep_stopping:
  assumes "wstep xchg w e n w'" and "stopping D w"
  shows "stopping D w' \<and> stop_rank (pc (gs w')) \<le> stop_rank (pc (gs w)) \<and> n + last_exchanges w' \<le> last_exchanges w"
  using assms
proof (induction rule: wstep.induct)
  case (thread w g)
  have "stop_rank (pc g) < stop_rank (pc (gs w))"
    using thread_step_stop_rank [OF thread(1)] thread(2) by (simp add: stopping_def)
  moreover have "completes (pc (gs w)) + last_exchanges (w\<lparr>gs := g\<rparr>) \<le> last_exchanges w"
    using thread(1) calculation by (cases "pc (gs w)") (auto simp: last_exchanges_def step_defs)
  moreover have "stopping D (w\<lparr>gs := g\<rparr>)"
    using thread_step_next [OF thread(1)] thread_step_running [OF thread(1)] thread_step_period [OF thread(1)]
      thread(2) calculation(1)
    by (auto simp: stopping_def max_def)
  ultimately show ?case by simp
qed (auto simp: stopping_def last_exchanges_def)

lemma runs_stopping:
  assumes "runs xchg ok w n w'" and "stopping D w"
  shows "stopping D w' \<and> stop_rank (pc (gs w')) \<le> stop_rank (pc (gs w)) \<and> n + last_exchanges w' \<le> last_exchanges w"
  using assms
proof (induction rule: runs.induct)
  case (step n v e k u)
  then show ?case using wstep_stopping [OF step.hyps(2)] by fastforce
qed simp

lemma run_block_stopping:
  assumes "stopping D w"
  shows "stopping D (run_block xchg b w) \<and> stop_rank (pc (gs (run_block xchg b w))) \<le> stop_rank (pc (gs w))"
proof -
  have "list_all any_event b" by (simp add: list_all_iff)
  from runs_stopping [OF run_block_counts [OF this] assms] show ?thesis by blast
qed

text \<open>Past the instant \<open>D\<close>, a turn of the thread takes it closer to its end.\<close>

lemma turn_closer:
  assumes "stopping D w" and "D \<le> clock w" and "0 < stop_rank (pc (gs w))" and "ThreadStep \<in> set b"
  shows "stop_rank (pc (gs (run_block xchg b w))) < stop_rank (pc (gs w))"
  using assms
proof (induction b arbitrary: w)
  case (Cons e es)
  show ?case
  proof (cases "fire xchg e w")
    case None
    then have "e \<noteq> ThreadStep"
      using thread_step_blocked [of xchg "clock w" "gs w"] Cons.prems(1-3) by (auto simp: stopping_def)
    with Cons None show ?thesis by simp
  next
    case (Some v)
    then obtain n where st: "wstep xchg w e n v" by (auto simp: fire_wstep)
    note v = wstep_stopping [OF this Cons.prems(1)]
    note rest = run_block_stopping [OF conjunct1 [OF v], of xchg es]
    show ?thesis
    proof (cases "stop_rank (pc (gs v)) < stop_rank (pc (gs w))")
      case False
      have "e \<noteq> ThreadStep"
        using Some False Cons.prems(1) by (auto simp: stopping_def dest!: thread_step_stop_rank)
      moreover have "D \<le> clock v" using wstep_clock [OF st] Cons.prems(2) by simp
      ultimately show ?thesis
        using Cons.IH [of v] Cons.prems(3,4) v False Some by auto
    qed (use rest Some in auto)
  qed
qed simp

text \<open>Every block gives the thread a turn, and lets at least \<open>d\<close> nanoseconds pass.\<close>

definition turning :: "nat \<Rightarrow> event list list \<Rightarrow> bool" where
  "turning d bs \<longleftrightarrow> ticking d bs \<and> list_all (\<lambda>b. ThreadStep \<in> set b) bs"

lemma join_thread_returns:
  assumes "stopping D w" and "turning d bs" and "D \<le> clock w + int (k * d)"
    and "k + stop_rank (pc (gs w)) \<le> length bs"
  shows "\<exists>r'. join_thread xchg w bs = Some r' \<and> pc (gs (fst r')) = Finished"
  using assms
proof (induction bs arbitrary: w k)
  case Nil
  then have "pc (gs w) = Finished" by (cases "pc (gs w)") (auto simp: stopping_def)
  then show ?case by simp
next
  case (Cons b bs)
  let ?v = "run_block xchg b w"
  note v = run_block_stopping [OF Cons.prems(1), of xchg b]
  have b: "d \<le> ticks b" "ThreadStep \<in> set b" "turning d bs"
    using Cons.prems(2) by (simp_all add: turning_def ticking_def)
  show ?case
  proof (cases "pc (gs w) = Finished")
    case False
    then have rank: "0 < stop_rank (pc (gs w))" using Cons.prems(1) by (cases "pc (gs w)") (auto simp: stopping_def)
    have "\<exists>j. D \<le> clock ?v + int (j * d) \<and> j + stop_rank (pc (gs ?v)) \<le> length bs"
    proof (cases k)
      case 0
      then have "stop_rank (pc (gs ?v)) < stop_rank (pc (gs w))"
        using turn_closer [OF Cons.prems(1) _ rank b(2)] Cons.prems(3) by simp
      with 0 Cons.prems(3,4) show ?thesis by (intro exI [of _ 0]) (simp add: run_block_clock)
    next
      case (Suc j)
      with Cons.prems(3,4) b(1) v show ?thesis
        by (intro exI [of _ j]) (simp add: run_block_clock algebra_simps)
    qed
    with Cons.IH [OF conjunct1 [OF v] b(3)] False show ?thesis by auto
  qed simp
qed

lemma join_thread_runs:
  assumes "join_thread xchg w bs = Some r'"
  shows "\<exists>n. runs xchg any_event w n (fst r')"
  using assms
proof (induction xchg w bs rule: join_thread.induct)
  case (2 xchg w b bs)
  have "list_all any_event b" by (simp add: list_all_iff)
  note b = run_block_counts [OF this, of xchg w]
  show ?case
  proof (cases "pc (gs w) = Finished")
    case False
    with 2 obtain n where "runs xchg any_event (run_block xchg b w) n (fst r')" by auto
    from runs_trans [OF this b] show ?thesis by blast
  qed (use 2 runs.refl in fastforce)
next
  case (1 xchg w)
  then show ?case by (auto intro!: exI [of _ 0] runs.refl split: if_splits)
qed

section \<open>A thread that has ended\<close>

lemma wstep_ended:
  assumes "wstep xchg w e n w'" and "pc (gs w) \<in> {NotStarted, Finished}"
  shows "n = 0 \<and> pc (gs w') = pc (gs w) \<and> client (gs w') = client (gs w) \<and> record_of w' = record_of w"
  using assms wstep_same_record [OF assms(1)]
  by (induction rule: wstep.induct) (auto simp: thread_step_def)

lemma runs_ended:
  assumes "runs xchg ok w n w'" and "pc (gs w) \<in> {NotStarted, Finished}"
  shows "n = 0 \<and> pc (gs w') = pc (gs w) \<and> client (gs w') = client (gs w) \<and> record_of w' = record_of w"
  using assms
proof (induction rule: runs.induct)
  case (step n v e k u)
  then show ?case using wstep_ended [OF step.hyps(2)] by simp
qed simp

section \<open>Stopping a running gripper\<close>

lemma runs_period: "runs xchg ok w n w' \<Longrightarrow> cyclePeriod (gs w') = cyclePeriod (gs w)"
  by (induction rule: runs.induct) (auto dest: wstep_period)

lemma pace_stopping:
  assumes "pace_inv t n w"
  shows "stopping (clock w + cyclePeriod (gs w)) (w\<lparr>gs := stop_running (gs w)\<rparr>)"
  using assms by (cases "pc (gs w)") (auto simp: pace_inv_def stopping_def)

lemma launch_pace:
  assumes "launch rd seeded started (GripperState_create l period im) = Inr w" and "0 \<le> period"
  shows "pace_inv started 0 w"
  using launch_start [OF assms(1)] assms(2) by (auto simp: pace_inv_def)

lemma stop_close_stopping: "stopping D (w\<lparr>gs := stop_close (gs w)\<rparr>) = stopping D w"
  by (simp add: stopping_def)

text \<open>C14: Stopping a gripper comes to an end, and is final. At any point of any interleaving, \<open>stop\<close>, which
  the destructors call, returns within ten turns of the thread once a period has passed; at most one
  exchange completes after it has told the thread to stop; and when it is back the thread has ended
  and the image is closed, so that nobody who waits is left blocked: whatever happens then, the link
  is not used again and the record stays.\<close>

theorem stop_is_final:
  assumes "launch rd seeded started (GripperState_create l period im) = Inr w0" and "0 \<le> period"
    and "runs xchg any_event w0 n w"
    and "turning d bs" and "period \<le> int (k * d)" and "k + 10 \<le> length bs"
  shows "\<exists>r' m. gs_stop xchg (w, bs) = Some r'
    \<and> runs xchg any_event ((run_block xchg (hd bs) w)\<lparr>gs := stop_running (gs (run_block xchg (hd bs) w))\<rparr>) m (fst r') \<and> m \<le> 1
    \<and> pc (gs (fst r')) = Finished \<and> ProcessImage.closed (img (gs (fst r')))
    \<and> (\<forall>j v. runs xchg any_event (fst r') j v \<longrightarrow>
          j = 0 \<and> client (gs v) = client (gs (fst r')) \<and> record_of v = record_of (fst r'))"
proof -
  from assms(6) obtain a b cs where bs: "bs = a # b # cs" "k + 8 \<le> length cs"
    by (cases bs; cases "tl bs") auto
  let ?u = "run_block xchg a w"
  let ?v = "?u\<lparr>gs := stop_running (gs ?u)\<rparr>"
  let ?x = "run_block xchg b ?v"
  let ?y = "?x\<lparr>gs := stop_close (gs ?x)\<rparr>"
  have any: "list_all any_event c" for c by (simp add: list_all_iff)
  have u: "runs xchg any_event w0 (n + block_exchanges xchg a w) ?u"
    by (rule runs_trans [OF run_block_counts [OF any] assms(3)])
  have "cyclePeriod (gs ?u) = period" using runs_period [OF u] launch_start [OF assms(1)] by auto
  with pace_stopping [OF runs_pace [OF u launch_pace [OF assms(1,2)]]]
  have v: "stopping (clock ?u + period) ?v" by simp
  have x: "stopping (clock ?u + period) ?x" using run_block_stopping [OF v] by blast
  have y: "stopping (clock ?u + period) ?y" using x by (simp add: stop_close_stopping)
  have "clock ?u + period \<le> clock ?y + int (k * d)" using assms(5) by (simp add: run_block_clock)
  moreover have "k + stop_rank (pc (gs ?y)) \<le> length cs" using bs(2) stop_rank_le [of "pc (gs ?y)"] by simp
  moreover have "turning d cs" using assms(4) by (simp add: bs(1) turning_def ticking_def)
  ultimately obtain r' where r': "join_thread xchg ?y cs = Some r'" "pc (gs (fst r')) = Finished"
    using join_thread_returns [OF y, of d cs k xchg] by blast
  have "pc (gs ?y) \<noteq> NotStarted" using y by (simp add: stopping_def)
  then have stop: "gs_stop xchg (w, bs) = Some r'" using r'(1) by (simp add: gs_stop_def bs(1) Let_def)
  obtain j where j: "runs xchg any_event ?y j (fst r')" using join_thread_runs [OF r'(1)] by blast
  have "runs xchg any_event ?v (block_exchanges xchg b ?v) ?x" by (rule run_block_counts [OF any])
  from runs.step [OF this stop_cls] have "runs xchg any_event ?v (block_exchanges xchg b ?v) ?y" by simp
  note m = runs_trans [OF j this]
  have "last_exchanges ?v \<le> 1" by (simp add: last_exchanges_def)
  then have "block_exchanges xchg b ?v + j \<le> 1" using runs_stopping [OF m v] by linarith
  moreover have "ProcessImage.closed (img (gs (fst r')))" using runs_closed [OF j] by (simp add: stop_close_def image_close_def)
  ultimately show ?thesis
    using stop r'(2) m runs_ended [of xchg any_event "fst r'"] unfolding bs(1) list.sel by blast
qed

lemma stop_is_final_witness:
  "\<exists>r'. gs_stop demo_link (demo_world, replicate 11 demo_cycle) = Some r'
     \<and> pc (gs (fst r')) = Finished \<and> ProcessImage.closed (img (gs (fst r')))"
proof -
  have "turning 1000 (replicate 11 demo_cycle)"
    by (simp add: turning_def ticking_def demo_cycle_def list_all_iff)
  moreover have "(1000 :: int) \<le> int (1 * 1000)" "1 + 10 \<le> length (replicate 11 demo_cycle)" by simp_all
  ultimately show ?thesis
    using stop_is_final [OF demo_launch _ runs.refl, of 1000 "replicate 11 demo_cycle" 1 demo_link] by auto
qed

end
