(* ===== verification/Loggers.thy ===== *)
theory Loggers
  imports Factories "HOL-Library.Sublist"
begin

text \<open>
  The SDK's own loggers as the sinks that are injected: \<open>StderrLogger\<close>, with the name that tags its
  lines, \<open>NullLogger\<close>, and the default that a null pointer stands for
  (\<open>src/hosted/stderr_logger.cpp\<close>, \<open>src/freestanding/default_logger.cpp\<close>, \<open>src/logger.cpp\<close>).
\<close>

datatype logger = StderrLogger string | NullLogger

text \<open>The shared instance of the build: \<open>hosted\<close> is \<open>GRIPPERS_HOSTED\<close>.\<close>

definition makeDefaultLogger_hosted :: logger where
  "makeDefaultLogger_hosted = StderrLogger []"

definition makeDefaultLogger_freestanding :: logger where
  "makeDefaultLogger_freestanding = NullLogger"

definition makeDefaultLogger :: "bool \<Rightarrow> logger" where
  "makeDefaultLogger hosted = (if hosted then makeDefaultLogger_hosted else makeDefaultLogger_freestanding)"

text \<open>\<open>logger ? logger : makeDefaultLogger()\<close>.\<close>

definition injected :: "bool \<Rightarrow> logger option \<Rightarrow> logger" where
  "injected hosted l = (case l of Some l \<Rightarrow> l | None \<Rightarrow> makeDefaultLogger hosted)"

text \<open>One call of \<open>log\<close>, at a wall clock time as in \<open>writeTimestamp\<close>.\<close>

fun logger_log :: "logger \<Rightarrow> string \<times> nat \<Rightarrow> log_line \<Rightarrow> string list \<Rightarrow> string list" where
  "logger_log (StderrLogger n) (date, us) (level, message) out = StderrLogger_log n date us level message out"
| "logger_log NullLogger wall (level, message) out = NullLogger_log level message out"

definition log_lines :: "logger \<Rightarrow> ((string \<times> nat) \<times> log_line) list \<Rightarrow> string list \<Rightarrow> string list" where
  "log_lines l calls out = fold (\<lambda>(wall, line). logger_log l wall line) calls out"

lemma NullLogger_silent: "log_lines NullLogger calls out = out"
  by (induction calls) (auto simp: log_lines_def NullLogger_log_def)

text \<open>A \<open>StderrLogger\<close> writes one line for each call, in the order of the calls, and the line ends with the
  message, whatever its name.\<close>

lemma StderrLogger_lines:
  "\<exists>lines. log_lines (StderrLogger n) calls out = out @ lines
     \<and> list_all2 (\<lambda>line (wall, level, message). suffix message line) lines calls"
proof (induction calls arbitrary: out)
  case (Cons call calls)
  obtain date us level message where call: "call = ((date, us), level, message)" by (metis surj_pair)
  let ?line = "writeTimestamp date us @ ''['' @ paddedLevel level @ ''] '' @ (if n \<noteq> [] then ''['' @ n @ ''] '' else []) @ message"
  obtain lines where "log_lines (StderrLogger n) calls (out @ [?line]) = (out @ [?line]) @ lines"
    "list_all2 (\<lambda>line (wall, level, message). suffix message line) lines calls" using Cons.IH by blast
  then show ?case
    by (intro exI [of _ "?line # lines"]) (simp add: call log_lines_def StderrLogger_log_def suffixI suffix_appendI)
qed (simp add: log_lines_def)

text \<open>Without a logger of its own, a hosted program has every line on stderr; a freestanding one has none.\<close>

lemma default_log:
  "injected True None = StderrLogger []" "log_lines (injected False None) calls out = out"
  by (simp_all add: injected_def makeDefaultLogger_def makeDefaultLogger_hosted_def makeDefaultLogger_freestanding_def
      NullLogger_silent)

end
