(* ===== verification/Spec2Isabelle.thy ===== *)
theory Spec2Isabelle
  imports ExchangeProperties WaitProperties ActivationProperties DataProperties LinkProperties
    SerialProperties Win32Serial ThreadXProperties StdPlatform Factories RecorderProperties
    DesktopProperties RateProbeProperties SnippetProperties LogProperties Shutdown Loggers
begin

text \<open>
  A verification development of the C++ SDK for Robotiq grippers (\<open>src/sdk_cpp\<close>; the paths below are
  relative to it).

  \<^bold>\<open>The program.\<close> A gripper is a Modbus RTU device. The driver writes a command block of sixteen bytes
  and reads back a status block of sixteen bytes, both in one exchange. A \<open>Gripper\<close> owns a
  \<open>GripperState\<close>, whose thread exchanges at a fixed period: it takes the command out of the process
  image, exchanges it through the \<open>GripperModbusClient\<close>, and publishes the record of the exchange in
  the image. Callers set commands and wait for records; \<open>activate\<close> and \<open>recoverFromFault\<close> are
  procedures made of such waits. The client speaks through nanomodbus to a \<open>Serial\<close>: the serial port of
  a desktop, a transport of the application, or the fake gripper, which is a nanomodbus server in
  front of a register model. The threads and sleeps come from a \<open>Platform\<close>.

  \<^bold>\<open>The theories\<close>, each from the code it names.
  \<^item> Data: \<open>RegisterMap\<close>, \<open>WireBlock\<close> (\<open>detail/register_map.hpp\<close>, \<open>detail/byte_packing.hpp\<close>), \<open>Command\<close>,
    \<open>Status\<close> (\<open>gripper/command.hpp\<close>, \<open>gripper/status.hpp\<close>, \<open>gripper/fault_status.hpp\<close>), \<open>Render\<close>
    (\<open>gripper/to_string.hpp\<close>, \<open>src/to_string.cpp\<close>), \<open>Throttle\<close> (\<open>detail/throttle.hpp\<close>). Blocks are records of
    8-bit words, enums are datatypes with their codes. \<open>DataProperties\<close>: round trips through the
    wire, total decoding, independence of the packed fields.
  \<^item> The exchange: \<open>ProcessImage\<close>, \<open>GripperState\<close>, \<open>Exchange\<close>, \<open>Schedule\<close> (\<open>src/process_image.cpp\<close>,
    \<open>src/gripper_state.cpp\<close>). A method of the image is one transition, since it runs under the image's
    lock; the thread is a machine whose program counter is \<open>thread_pc\<close>; events of the thread, of callers
    and of the clock interleave in any order. The interface of the link is a locale, interpreted on
    the device and on the byte link. \<open>ExchangeProperties\<close>: invariants of every interleaving, the
    rate, the end of the thread, and a cycle, as steps and as \<open>exchangeOnce\<close>, against what it is to leave
    for the others to see (\<open>cycle_seen\<close>). \<open>Shutdown\<close>: the whole of \<open>stop\<close>, with the
    join and the destructors, and that it returns and is final.
  \<^item> Waiting and procedures: \<open>Wait\<close>, \<open>Activation\<close> (\<open>gripper/wait.hpp\<close>, \<open>src/wait.cpp\<close>, \<open>src/gripper.cpp\<close>).
    A blocking call runs against a schedule, the list of what the environment does while it waits.
    \<open>WaitProperties\<close>, \<open>ActivationProperties\<close>: what each result means, every command the procedures give,
    and that the calls return. That something was seen in the course of a call is said of a state of its
    run: \<open>progress\<close> leads from the call to that state and on to the one the call leaves.
  \<^item> The fake device: \<open>RegisterModel\<close>, \<open>StatusWriter\<close>, \<open>Device\<close> (\<open>src/fake\<close>).
  \<^item> The wire: \<open>NanoModbus\<close>, \<open>NanoClient\<close>, \<open>NanoServer\<close> (\<open>third_party/nanomodbus\<close>, a state monad over the
    message buffer), \<open>ModbusClient\<close> (\<open>src/modbus_client.cpp\<close>), \<open>FakeServer\<close> (\<open>src/fake\<close>). \<open>NanoSafety\<close>: the
    buffer bounds; \<open>NanoFrames\<close>: running both ends on whole frames; \<open>NanoAccept\<close>: what an accepted reply
    was; \<open>FakeLink\<close>, \<open>LinkProperties\<close>: one exchange over the bytes is one exchange with the device.
  \<^item> The serial port: \<open>PortInterface\<close>, \<open>PosixSerial\<close>, \<open>Win32Serial\<close>, \<open>DefaultSerial\<close> (\<open>src/detail\<close>).
    \<open>PosixProperties\<close>, \<open>SerialProperties\<close>: reads return what was delivered, by the deadline; writes send
    their bytes once, in order; and the false hang-up of a read whose bytes come in pieces.
  \<^item> The desktop path: \<open>PosixDuplex\<close> (what reads, writes and drains of the port do when the terminal keeps
    its contract), \<open>NanoReturns\<close> (what the client leaves of a port that always comes back), \<open>DesktopLink\<close>
    (\<open>DefaultSerial\<close> over the POSIX port as the serial of the client). \<open>DesktopProperties\<close>: the operations
    return, what a successful exchange did to the terminal, and how a reply that comes in pieces fails.
  \<^item> Platforms: \<open>PlatformInterface\<close> (\<open>gripper/platform.hpp\<close>: what a sleep promises, a locale interpreted on both
    platforms), \<open>StdPlatform\<close> (\<open>src/hosted/std_platform.cpp\<close>), \<open>ThreadXPort\<close>, \<open>ThreadXCondition\<close>
    (\<open>ports/threadx\<close>). Sleeps end and are never early; \<open>ThreadXProperties\<close>: the tick arithmetic, and whom a
    notification of the emulated condition variable reaches, in every interleaving.
  \<^item> Around them: \<open>Units\<close> (\<open>src/units.cpp\<close>, \<open>src/frequency.hpp\<close>, \<open>src/exchange_period.hpp\<close>) with
    \<open>UnitsProperties\<close>, \<open>Factories\<close> (constructors, \<open>makeFakeGripper\<close>) and \<open>Loggers\<close>.
  \<^item> Clients: \<open>Recorder\<close> (\<open>examples/exchange_log.cpp\<close>, \<open>examples/gripper_events.cpp\<close>). \<open>RecorderProperties\<close>: every
    exchange is recorded or counted as skipped; what a move that reports success has seen. \<open>Examples\<close>
    (\<open>examples/move_gripper.cpp\<close>, \<open>quick_start.cpp\<close>, and the mains of the recorder's two files), \<open>Snippets\<close>
    (\<open>examples/snippets.cpp\<close>), with \<open>ExampleProperties\<close>, \<open>LogProperties\<close>, \<open>SnippetProperties\<close>: what an exit with
    success says of the exchanges, what the log is, and what the quoted functions do.
  \<^item> Command lines and the rate probe: \<open>CommandLine\<close> (the number parsing of the standard library and the
    option loops), \<open>RateProbe\<close> (\<open>examples/exchange_rate_probe.cpp\<close>), with \<open>CommandLineProperties\<close> and
    \<open>RateProbeProperties\<close>: what is accepted, and what the stamps and the distributions measure.

  \<open>Prelude\<close> holds the machine integers, times, exceptions and shared lemmas; \<open>Demo\<close> the concrete runs the
  witnesses use.

  \<^bold>\<open>Effects.\<close> State is passed explicitly. An exception is the left of a sum. What the SDK calls but does
  not contain (POSIX, Win32, the standard library, the ThreadX kernel, \<open>std::filesystem\<close>) is a record
  of functions on a state of its own, an argument of the definitions; the theorems name what they
  rely on: \<open>posix_contract\<close>, \<open>posix_accepts\<close>, \<open>posix_duplex\<close>, \<open>timeouts_in\<close>, \<open>std_contract\<close>, \<open>tx_contract\<close>,
  \<open>semaphore_laws\<close>, \<open>ieee\<close>. Each has an instance in the development on which the witnesses run.

  \<^bold>\<open>Fuel and schedules.\<close> A loop that may not end takes fuel, and \<open>None\<close> is a loop that is still running.
  \<open>posix_read\<close> needs no more turns than the bytes asked for, the signals to come and the nanoseconds of
  the timeout together, since every turn uses up one of them; \<open>sleepUntil\<close> and the waits of
  \<open>StdPlatform\<close> no more than the nanoseconds left. A zero timeout means no timeout to the writes
  and drains of the port, which then promise nothing about ending; with any other they end within the
  fuel of \<open>PosixDuplex\<close>. The blocking calls of \<open>Wait\<close> and
  \<open>Activation\<close> end for every schedule that lets time pass; their theorems say so.

  \<^bold>\<open>Not modelled.\<close> The client side of nanomodbus' device identification, which copies strings into buffers of
  the caller; the platform's abstract classes beyond the contract of the sleeps; the text the programs under
  \<open>examples\<close> print, where nothing depends on it, and their signal and stream set-up; the tests, the ThreadX link fixture and the API stub. Allocation failure, and the shared
  default platform beyond its identity, are left out: nothing depends on them.
  The sign of a floating-point zero is not kept. Time is an unbounded integer except where
  \<open>fits_i64\<close> states its width; so the sum of the clock and the timeout in \<open>activate\<close> and
  \<open>recoverFromFault\<close>, which the code does not cap as \<open>deadlineAfter\<close> does, stands for the code's only while
  it fits 64 bits. The recorder of the logging example and its main thread each run on a schedule of
  their own; the two are not put together into one run.
\<close>

end
